(* ===== verification/Prelude.thy ===== *)
theory Prelude
  imports Main "HOL-Library.Char_ord" "HOL-Library.List_Lexorder" "HOL-Library.Sublist"
begin

text \<open>
  What every component shares.

  A Rust \<open>String\<close> is its UTF-8 bytes, so it is a list of 8-bit characters; its order is the
  bytewise order of \<open>List_Lexorder\<close> and \<open>Char_ord\<close>, its length is the byte count.  A
  \<open>Result\<close> is a sum (\<open>Inl\<close> the error), an \<open>Option\<close> an option, a \<open>HashMap\<close> a partial
  map.  The definitions below are the pieces of Rust's standard library that the source uses
  (\<open>join\<close>, \<open>trim\<close>, \<open>find\<close>, \<open>replacen\<close>, number formatting, \<open>sort\<close> with \<open>dedup\<close>), with the lemmas the
  components need about them.
\<close>

named_theorems codec_simps \<open>round trips: parse, render, encode, decode\<close>
named_theorems frame_simps \<open>which fields an operation leaves alone\<close>
named_theorems bound_intros \<open>size bounds\<close>

section \<open>Results\<close>

definition and_then :: "'e + 'a \<Rightarrow> ('a \<Rightarrow> 'e + 'b) \<Rightarrow> 'e + 'b" where
  "and_then r k = (case r of Inl e \<Rightarrow> Inl e | Inr a \<Rightarrow> k a)"

lemma and_then_simps [simp]:
  "and_then (Inl e) k = Inl e"
  "and_then (Inr a) k = k a"
  by (simp_all add: and_then_def)

lemma and_then_Inr_iff:
  "and_then r k = Inr b \<longleftrightarrow> (\<exists>a. r = Inr a \<and> k a = Inr b)"
  by (cases r) auto

definition map_err :: "('e \<Rightarrow> 'f) \<Rightarrow> 'e + 'a \<Rightarrow> 'f + 'a" where
  "map_err f r = (case r of Inl e \<Rightarrow> Inl (f e) | Inr a \<Rightarrow> Inr a)"

lemma map_err_simps [simp]:
  "map_err f (Inl e) = Inl (f e)"
  "map_err f (Inr a) = Inr a"
  by (simp_all add: map_err_def)

lemma map_err_Inr_iff [simp]: "map_err f r = Inr a \<longleftrightarrow> r = Inr a"
  by (cases r) auto

definition ok_or :: "'e \<Rightarrow> 'a option \<Rightarrow> 'e + 'a" where
  "ok_or e v = (case v of None \<Rightarrow> Inl e | Some a \<Rightarrow> Inr a)"

lemma ok_or_simps [simp]:
  "ok_or e None = Inl e"
  "ok_or e (Some a) = Inr a"
  by (simp_all add: ok_or_def)

definition unwrap_or :: "'a \<Rightarrow> 'a option \<Rightarrow> 'a" where
  "unwrap_or d v = (case v of None \<Rightarrow> d | Some a \<Rightarrow> a)"

lemma unwrap_or_simps [simp]:
  "unwrap_or d None = d"
  "unwrap_or d (Some a) = a"
  by (simp_all add: unwrap_or_def)

definition or_opt :: "'a option \<Rightarrow> 'a option \<Rightarrow> 'a option" where
  "or_opt a b = (case a of None \<Rightarrow> b | Some v \<Rightarrow> Some v)"

lemma or_opt_simps [simp]:
  "or_opt None b = b"
  "or_opt (Some v) b = Some v"
  by (simp_all add: or_opt_def)

definition opt_filter :: "('a \<Rightarrow> bool) \<Rightarrow> 'a option \<Rightarrow> 'a option" where
  "opt_filter p v = (case v of None \<Rightarrow> None | Some a \<Rightarrow> if p a then Some a else None)"

lemma opt_filter_simps [simp]:
  "opt_filter p None = None"
  "opt_filter p (Some a) = (if p a then Some a else None)"
  by (simp_all add: opt_filter_def)

lemma opt_filter_Some_iff:
  "opt_filter p v = Some a \<longleftrightarrow> v = Some a \<and> p a"
  by (cases v) auto

lemma find_Some_mem: "find P xs = Some x \<Longrightarrow> x \<in> set xs \<and> P x"
  by (induction xs) (auto split: if_splits)

section \<open>Strings\<close>

fun join :: "string \<Rightarrow> string list \<Rightarrow> string" where
  "join sep [] = []"
| "join sep [x] = x"
| "join sep (x # y # ys) = x @ sep @ join sep (y # ys)"

lemma join_Cons: "xs \<noteq> [] \<Longrightarrow> join sep (x # xs) = x @ sep @ join sep xs"
  by (cases xs) auto

definition lower_char :: "char \<Rightarrow> char" where
  "lower_char c = (let n = (of_char c :: nat)
     in if 65 \<le> n \<and> n \<le> 90 then char_of (n + 32) else c)"

definition to_ascii_lowercase :: "string \<Rightarrow> string" where
  "to_ascii_lowercase s = map lower_char s"

definition eq_ignore_ascii_case :: "string \<Rightarrow> string \<Rightarrow> bool" where
  "eq_ignore_ascii_case a b \<longleftrightarrow> to_ascii_lowercase a = to_ascii_lowercase b"

text \<open>Decimal rendering of an unsigned and of a signed integer.\<close>

definition digit_char :: "nat \<Rightarrow> char" where
  "digit_char d = char_of (48 + d)"

fun show_nat :: "nat \<Rightarrow> string" where
  "show_nat n = (if n < 10 then [digit_char n]
                 else show_nat (n div 10) @ [digit_char (n mod 10)])"

declare show_nat.simps [simp del]

definition show_int :: "int \<Rightarrow> string" where
  "show_int i = (if i < 0 then ''-'' @ show_nat (nat (- i)) else show_nat (nat i))"

lemma show_nat_nonempty [simp]: "show_nat n \<noteq> []"
  by (subst show_nat.simps) simp

text \<open>
  A UTF-8 continuation byte is \<open>10xxxxxx\<close>; a byte index is a character boundary at the ends
  and wherever the byte is not a continuation byte (Rust's \<open>str::is_char_boundary\<close>).
\<close>

definition cont_byte :: "char \<Rightarrow> bool" where
  "cont_byte c \<longleftrightarrow> (let n = (of_char c :: nat) in 128 \<le> n \<and> n < 192)"

definition char_boundary :: "string \<Rightarrow> nat \<Rightarrow> bool" where
  "char_boundary s i \<longleftrightarrow>
     i = 0 \<or> i = length s \<or> (i < length s \<and> \<not> cont_byte (s ! i))"

text \<open>The search for the last boundary at or below an index, as the source's loops write it.\<close>

fun floor_boundary :: "string \<Rightarrow> nat \<Rightarrow> nat" where
  "floor_boundary s 0 = 0"
| "floor_boundary s (Suc i) =
     (if char_boundary s (Suc i) then Suc i else floor_boundary s i)"

lemma floor_boundary_le [bound_intros]: "floor_boundary s i \<le> i"
  by (induction s i rule: floor_boundary.induct) auto

lemma floor_boundary_boundary [simp]: "char_boundary s (floor_boundary s i)"
  by (induction s i rule: floor_boundary.induct) (auto simp: char_boundary_def)

text \<open>
  Rust's \<open>str::trim\<close> strips Unicode white space; these are the UTF-8 encodings of its
  twenty-five code points.
\<close>

definition ws_encodings :: "string list" where
  "ws_encodings =
     map (\<lambda>n. [char_of n]) [9::nat, 10, 11, 12, 13, 32]
     @ map (map char_of)
         [[194::nat, 133], [194, 160], [225, 154, 128],
          [226, 128, 128], [226, 128, 129], [226, 128, 130], [226, 128, 131],
          [226, 128, 132], [226, 128, 133], [226, 128, 134], [226, 128, 135],
          [226, 128, 136], [226, 128, 137], [226, 128, 138], [226, 128, 168],
          [226, 128, 169], [226, 128, 175], [226, 129, 159], [227, 128, 128]]"

lemma ws_encodings_nonempty: "w \<in> set ws_encodings \<Longrightarrow> w \<noteq> []"
  by (auto simp: ws_encodings_def)

definition strip_one :: "string list \<Rightarrow> string \<Rightarrow> string option" where
  "strip_one ws s = (case filter (\<lambda>w. prefix w s) ws of
     [] \<Rightarrow> None | w # _ \<Rightarrow> Some (drop (length w) s))"

function strip_all :: "string list \<Rightarrow> string \<Rightarrow> string" where
  "strip_all ws s = (case strip_one ws s of
     None \<Rightarrow> s | Some t \<Rightarrow> if length t < length s then strip_all ws t else s)"
  by pat_completeness auto
termination
  by (relation "measure (\<lambda>(ws, s). length s)") auto

declare strip_all.simps [simp del]

definition trim_start :: "string \<Rightarrow> string" where
  "trim_start s = strip_all ws_encodings s"

definition trim_end :: "string \<Rightarrow> string" where
  "trim_end s = rev (strip_all (map rev ws_encodings) (rev s))"

definition trim :: "string \<Rightarrow> string" where
  "trim s = trim_end (trim_start s)"

lemma strip_one_Some:
  assumes "strip_one ws s = Some t"
  shows "\<exists>w \<in> set ws. prefix w s \<and> t = drop (length w) s"
proof (cases "filter (\<lambda>w. prefix w s) ws")
  case Nil
  with assms show ?thesis by (simp add: strip_one_def)
next
  case (Cons w us)
  then have "w \<in> set (filter (\<lambda>w. prefix w s) ws)" by simp
  then have "w \<in> set ws" "prefix w s" by simp_all
  with Cons assms show ?thesis by (auto simp: strip_one_def)
qed

lemma strip_one_suffix: "strip_one ws s = Some t \<Longrightarrow> suffix t s"
  by (auto simp: suffix_drop dest: strip_one_Some)

lemma strip_all_suffix: "suffix (strip_all ws s) s"
proof (induction ws s rule: strip_all.induct)
  case (1 ws s)
  show ?case
  proof (cases "strip_one ws s")
    case None
    then show ?thesis by (subst strip_all.simps) simp
  next
    case (Some t)
    then have "suffix t s" by (rule strip_one_suffix)
    with Some 1 show ?thesis
      by (subst strip_all.simps) (auto intro: suffix_order.trans)
  qed
qed

lemma strip_all_fixed:
  assumes "\<And>w. w \<in> set ws \<Longrightarrow> w \<noteq> []"
  shows "strip_one ws (strip_all ws s) = None"
  using assms
proof (induction ws s rule: strip_all.induct)
  case (1 ws s)
  show ?case
  proof (cases "strip_one ws s")
    case None
    then show ?thesis by (subst strip_all.simps) simp
  next
    case (Some t)
    then obtain w where w: "w \<in> set ws" "prefix w s" and t: "t = drop (length w) s"
      by (auto dest: strip_one_Some)
    from w "1.prems" have "w \<noteq> []" "length w \<le> length s"
      by (auto dest: prefix_length_le)
    with t have "length t < length s" by (cases w) auto
    with Some 1 show ?thesis by (subst strip_all.simps) simp
  qed
qed

lemma trim_start_suffix: "suffix (trim_start s) s"
  by (simp add: trim_start_def strip_all_suffix)

lemma trim_end_prefix: "prefix (trim_end s) s"
  using strip_all_suffix [of "map rev ws_encodings" "rev s"]
  by (simp add: trim_end_def suffix_to_prefix)

lemma trim_Nil [simp]: "trim [] = []"
  using trim_start_suffix [of "[]"] trim_end_prefix [of "[]"] by (simp add: trim_def)

lemma length_trim: "length (trim s) \<le> length s"
  using trim_start_suffix [of s] trim_end_prefix [of "trim_start s"]
  by (auto simp: trim_def dest!: prefix_length_le suffix_length_le)

lemma strip_all_id: "strip_one ws s = None \<Longrightarrow> strip_all ws s = s"
  by (subst strip_all.simps) simp

lemma strip_one_None: "strip_one ws s = None \<longleftrightarrow> (\<forall>w \<in> set ws. \<not> prefix w s)"
proof
  assume "strip_one ws s = None"
  then have "filter (\<lambda>w. prefix w s) ws = []"
    by (cases "filter (\<lambda>w. prefix w s) ws") (simp_all add: strip_one_def)
  then show "\<forall>w \<in> set ws. \<not> prefix w s" by (simp add: filter_empty_conv)
qed (simp add: strip_one_def)

lemma trim_idem [simp]: "trim (trim s) = trim s"
proof -
  let ?x = "trim_start s"
  have fixed: "strip_one ws_encodings ?x = None"
    using strip_all_fixed ws_encodings_nonempty by (simp add: trim_start_def)
  then have "strip_one ws_encodings (trim_end ?x) = None"
    using trim_end_prefix [of ?x] by (auto simp: strip_one_None intro: prefix_order.trans)
  then have "trim_start (trim s) = trim s" by (simp add: trim_def trim_start_def strip_all_id)
  moreover have "trim_end (trim_end ?x) = trim_end ?x"
  proof -
    have "strip_one (map rev ws_encodings) (strip_all (map rev ws_encodings) (rev ?x)) = None"
      by (rule strip_all_fixed) (auto dest: ws_encodings_nonempty)
    then show ?thesis by (simp add: trim_end_def strip_all_id)
  qed
  ultimately show ?thesis by (simp add: trim_def)
qed

text \<open>A string that begins and ends with visible ASCII characters is trimmed already.\<close>

definition graphic :: "char \<Rightarrow> bool" where
  "graphic c \<longleftrightarrow> 33 \<le> (of_char c :: nat) \<and> (of_char c :: nat) \<le> 126"

lemma ws_encodings_ends: "w \<in> set ws_encodings \<Longrightarrow> w \<noteq> [] \<and> \<not> graphic (hd w) \<and> \<not> graphic (last w)"
  by (auto simp: ws_encodings_def graphic_def)

lemma trim_graphic:
  assumes "s \<noteq> []" "graphic (hd s)" "graphic (last s)"
  shows "trim s = s"
proof -
  have "\<not> prefix w s" if "w \<in> set ws_encodings" for w
    using ws_encodings_ends [OF that] assms by (auto simp: prefix_def)
  moreover have "\<not> prefix (rev w) (rev s)" if "w \<in> set ws_encodings" for w
    using ws_encodings_ends [OF that] assms by (auto simp: suffix_to_prefix [symmetric] suffix_def)
  ultimately show ?thesis
    by (simp add: trim_def trim_start_def trim_end_def strip_all_id strip_one_None)
qed

section \<open>Substring search and replacement\<close>

text \<open>\<open>str::find\<close>: the byte offset of the first occurrence.\<close>

fun find_str :: "string \<Rightarrow> string \<Rightarrow> nat option" where
  "find_str needle [] = (if needle = [] then Some 0 else None)"
| "find_str needle (c # cs) =
     (if prefix needle (c # cs) then Some 0 else map_option Suc (find_str needle cs))"

definition contains_str :: "string \<Rightarrow> string \<Rightarrow> bool" where
  "contains_str hay needle \<longleftrightarrow> find_str needle hay \<noteq> None"

lemma find_str_Some:
  "find_str n s = Some i \<Longrightarrow> i + length n \<le> length s \<and> take (length n) (drop i s) = n"
proof (induction n s arbitrary: i rule: find_str.induct)
  case (1 needle)
  then show ?case by (auto split: if_splits)
next
  case (2 needle c cs)
  show ?case
  proof (cases "prefix needle (c # cs)")
    case True
    with "2.prems" show ?thesis
      by (auto dest: prefix_length_le simp: take_is_prefix) (metis append_eq_conv_conj prefixE)
  next
    case False
    with 2 show ?thesis by auto
  qed
qed

lemma find_str_first:
  "find_str n s = Some i \<Longrightarrow> j < i \<Longrightarrow> \<not> prefix n (drop j s)"
proof (induction n s arbitrary: i j rule: find_str.induct)
  case (1 needle)
  then show ?case by (auto split: if_splits)
next
  case (2 needle c cs)
  then show ?case by (cases j) (auto split: if_splits)
qed

lemma find_str_None:
  "find_str n s = None \<Longrightarrow> \<not> prefix n (drop j s)"
proof (induction n s arbitrary: j rule: find_str.induct)
  case (1 needle)
  then show ?case by (auto split: if_splits)
next
  case (2 needle c cs)
  then show ?case by (cases j) (auto split: if_splits)
qed

lemma find_str_split:
  assumes "find_str n s = Some i"
  shows "s = take i s @ n @ drop (i + length n) s"
proof -
  from find_str_Some [OF assms] have "take (length n) (drop i s) = n" by simp
  then have "drop i s = n @ drop (length n) (drop i s)"
    by (metis append_take_drop_id)
  then show ?thesis
    by (metis append_take_drop_id drop_drop add.commute)
qed

section \<open>Sorting with duplicates removed\<close>

text \<open>\<open>v.sort(); v.dedup()\<close> on a vector of strings.\<close>

definition sort_dedup :: "'a::linorder list \<Rightarrow> 'a list" where
  "sort_dedup xs = remdups_adj (sort xs)"

lemma set_sort_dedup [simp]: "set (sort_dedup xs) = set xs"
  by (simp add: sort_dedup_def)

lemma sorted_sort_dedup [simp]: "sorted (sort_dedup xs)"
  by (simp add: sort_dedup_def sorted_remdups_adj)

lemma sorted_distinct_remdups_adj: "sorted xs \<Longrightarrow> distinct (remdups_adj xs)"
  by (induction xs rule: remdups_adj.induct) auto

lemma distinct_sort_dedup [simp]: "distinct (sort_dedup xs)"
  by (simp add: sort_dedup_def sorted_distinct_remdups_adj)

lemma sort_dedup_eq_iff [simp]: "sort_dedup xs = sort_dedup ys \<longleftrightarrow> set xs = set ys"
  by (metis set_sort_dedup sorted_sort_dedup distinct_sort_dedup sorted_distinct_set_unique)

lemma sort_dedup_Nil_iff [simp]: "sort_dedup xs = [] \<longleftrightarrow> xs = []"
  by (metis set_sort_dedup set_empty)

lemma sort_dedup_Nil [simp]: "sort_dedup [] = []"
  by simp

lemma sort_dedup_idem [simp]: "sort_dedup (sort_dedup xs) = sort_dedup xs"
  by simp

lemma sort_dedup_single [simp]: "sort_dedup [x] = [x]"
  by (simp add: sort_dedup_def)

section \<open>Association lists as hash maps\<close>

text \<open>\<open>map.extend(pairs)\<close>: later pairs win.\<close>

definition map_extend :: "('k \<rightharpoonup> 'v) \<Rightarrow> ('k \<rightharpoonup> 'v) \<Rightarrow> ('k \<rightharpoonup> 'v)" where
  "map_extend m n = m ++ n"

end
