(* ===== verification/Blueprint_State.thy ===== *)
theory Blueprint_State
  imports Prelude
begin

text \<open>
  The typed channels of a blueprint run (\<open>boitata-orchestrator/src/state.rs\<close>): the state, the
  update a node returns and the merge of an update through the channel reducers
  (\<open>messages\<close> append, \<open>status\<close> last write, \<open>vars\<close> merge, \<open>task\<close> set once).
\<close>

section \<open>State and updates\<close>

datatype status = Ok | Failed

record transcript_entry =
  te_node :: string
  te_text :: string

record state =
  task :: string
  messages :: "transcript_entry list"
  status :: "status option"
  vars :: "string \<rightharpoonup> string"

record update =
  up_messages :: "transcript_entry list"
  up_status :: "status option"
  up_vars :: "string \<rightharpoonup> string"

definition new_state :: "string \<Rightarrow> state" where
  "new_state t = \<lparr>task = t, messages = [], status = None, vars = Map.empty\<rparr>"

definition transcript :: "state \<Rightarrow> (string \<times> string) list" where
  "transcript s = map (\<lambda>e. (te_node e, te_text e)) (messages s)"

definition apply_update :: "state \<Rightarrow> update \<Rightarrow> state" where
  "apply_update s u =
     (let s1 = s\<lparr>messages := messages s @ up_messages u\<rparr>;
          s2 = (if up_status u \<noteq> None then s1\<lparr>status := up_status u\<rparr> else s1)
      in s2\<lparr>vars := map_extend (vars s2) (up_vars u)\<rparr>)"

definition from_node :: "string \<Rightarrow> string \<Rightarrow> status \<Rightarrow> update" where
  "from_node node text st =
     \<lparr>up_messages = [\<lparr>te_node = node, te_text = text\<rparr>],
      up_status = Some st,
      up_vars = Map.empty(node \<mapsto> text)\<rparr>"

lemma apply_update_simps [simp]:
  "task (apply_update s u) = task s"
  "messages (apply_update s u) = messages s @ up_messages u"
  "status (apply_update s u) = or_opt (up_status u) (status s)"
  "vars (apply_update s u) = vars s ++ up_vars u"
  by (auto simp: apply_update_def Let_def map_extend_def split: option.splits)

lemma from_node_simps [simp]:
  "up_messages (from_node n t st) = [\<lparr>te_node = n, te_text = t\<rparr>]"
  "up_status (from_node n t st) = Some st"
  "up_vars (from_node n t st) = Map.empty(n \<mapsto> t)"
  by (simp_all add: from_node_def)

section \<open>Merging several updates\<close>

definition apply_all :: "state \<Rightarrow> update list \<Rightarrow> state" where
  "apply_all s us = foldl apply_update s us"

lemma apply_all_simps [simp]:
  "apply_all s [] = s"
  "apply_all s (u # us) = apply_all (apply_update s u) us"
  by (simp_all add: apply_all_def)

lemma apply_all_task [simp]: "task (apply_all s us) = task s"
  by (induction us arbitrary: s) auto

lemma apply_all_messages [simp]:
  "messages (apply_all s us) = messages s @ concat (map up_messages us)"
  by (induction us arbitrary: s) auto

lemma apply_all_vars:
  "vars (apply_all s us) k =
     (case filter (\<lambda>u. up_vars u k \<noteq> None) (rev us) of
        [] \<Rightarrow> vars s k | u # _ \<Rightarrow> up_vars u k)"
proof (induction us rule: rev_induct)
  case Nil
  then show ?case by simp
next
  case (snoc u us)
  have "apply_all s (us @ [u]) = apply_update (apply_all s us) u"
    by (simp add: apply_all_def)
  with snoc show ?case
    by (auto simp: map_add_def split: option.splits)
qed

end
