(* ===== verification/Templating.thy ===== *)
theory Templating
  imports Blueprint_State
begin

text \<open>
  Placeholder templating of prompts and scripts (\<open>render\<close>, \<open>render_shell\<close>,
  \<open>render_with\<close>, \<open>shell_single_quote\<close> of \<open>boitata-orchestrator/src/state.rs\<close>, and the
  copy \<open>shell_quote\<close> of \<open>container.rs\<close>).

  \<open>segments\<close> is the specification of the template syntax: what is literal text and what is a
  placeholder, computed from the template alone.  The locale \<open>shell_escape\<close> states what a
  shell needs of an escape function, over the quoting rules of the POSIX shell
  (\<open>sh_scan\<close>: which characters of a script are literal and which the shell interprets), and is
  interpreted on both quoting functions of the source.
\<close>

section \<open>Templating\<close>

definition resolve :: "state \<Rightarrow> string \<Rightarrow> string option" where
  "resolve s key = (if key = ''task'' then Some (task s) else vars s key)"

text \<open>
  \<open>find_char c s\<close> is \<open>str::find\<close> for a one-byte pattern.
\<close>

definition find_char :: "char \<Rightarrow> string \<Rightarrow> nat option" where
  "find_char c s = find_str [c] s"

lemma find_char_Some_less: "find_char c s = Some i \<Longrightarrow> i < length s"
  using find_str_Some [of "[c]" s i] by (auto simp: find_char_def)

function render_with :: "(string \<Rightarrow> string) \<Rightarrow> state \<Rightarrow> string \<Rightarrow> string" where
  "render_with escape s rest =
     (case find_char (CHR ''{'') rest of
        None \<Rightarrow> rest
      | Some open \<Rightarrow>
          take open rest @
          (case find_char (CHR ''}'') (drop open rest) of
             None \<Rightarrow> drop open rest
           | Some close \<Rightarrow>
               (let key = take (close - 1) (drop (open + 1) rest)
                in (case resolve s key of
                      Some v \<Rightarrow> escape v
                    | None \<Rightarrow> take (close + 1) (drop open rest)))
               @ render_with escape s (drop (open + close + 1) rest)))"
  by pat_completeness auto
termination
  by (relation "measure (\<lambda>(e, s, r). length r)") (auto dest: find_char_Some_less)

declare render_with.simps [simp del]

definition render :: "string \<Rightarrow> state \<Rightarrow> string" where
  "render template s = render_with (\<lambda>v. v) s template"

text \<open>\<open>shell_single_quote\<close>: the quoting of \<open>render_shell\<close>.\<close>

definition shell_single_quote :: "string \<Rightarrow> string" where
  "shell_single_quote v =
     [CHR 0x27]
     @ concat (map (\<lambda>ch. if ch = CHR 0x27
                          then [CHR 0x27, CHR 0x5C, CHR 0x27, CHR 0x27] else [ch]) v)
     @ [CHR 0x27]"

definition render_shell :: "string \<Rightarrow> state \<Rightarrow> string" where
  "render_shell template s = render_with shell_single_quote s template"

text \<open>\<open>shell_quote\<close> of \<open>container.rs\<close>, a second copy of the same loop.\<close>

definition shell_quote :: "string \<Rightarrow> string" where
  "shell_quote v =
     [CHR 0x27]
     @ foldr (\<lambda>ch out. (if ch = CHR 0x27
                        then [CHR 0x27, CHR 0x5C, CHR 0x27, CHR 0x27] else [ch]) @ out) v []
     @ [CHR 0x27]"

section \<open>The template syntax\<close>

datatype segment = Lit string | Hole string

definition segment_text :: "segment \<Rightarrow> string" where
  "segment_text g = (case g of Lit t \<Rightarrow> t | Hole k \<Rightarrow> CHR ''{'' # k @ ''}'')"

function segments :: "string \<Rightarrow> segment list" where
  "segments t =
     (case find_char (CHR ''{'') t of
        None \<Rightarrow> [Lit t]
      | Some i \<Rightarrow>
          (case find_char (CHR ''}'') (drop i t) of
             None \<Rightarrow> [Lit t]
           | Some j \<Rightarrow>
               Lit (take i t) # Hole (take (j - 1) (drop (i + 1) t))
               # segments (drop (i + j + 1) t)))"
  by pat_completeness auto
termination
  by (relation "measure length") (auto dest: find_char_Some_less)

declare segments.simps [simp del]

definition fill :: "(string \<Rightarrow> string) \<Rightarrow> state \<Rightarrow> segment \<Rightarrow> string" where
  "fill escape s g = (case g of
     Lit t \<Rightarrow> t
   | Hole k \<Rightarrow> (case resolve s k of Some v \<Rightarrow> escape v | None \<Rightarrow> segment_text (Hole k)))"

lemma fill_simps [simp]:
  "fill escape s (Lit t) = t"
  "fill escape s (Hole k) =
     (case resolve s k of Some v \<Rightarrow> escape v | None \<Rightarrow> segment_text (Hole k))"
  by (simp_all add: fill_def)

lemma hole_text:
  assumes i: "find_char (CHR ''{'') t = Some i"
    and j: "find_char (CHR ''}'') (drop i t) = Some j"
  shows "take (j + 1) (drop i t) = segment_text (Hole (take (j - 1) (drop (i + 1) t)))"
    and "j \<ge> 1"
proof -
  let ?d = "drop i t"
  from find_str_Some [OF i [unfolded find_char_def]] have il: "i < length t"
    and c: "take 1 ?d = ''{''" by auto
  then obtain r where r: "?d = CHR ''{'' # r" by (cases ?d) auto
  from find_str_Some [OF j [unfolded find_char_def]] have jl: "j < length ?d"
    and c2: "take 1 (drop j ?d) = ''}''" by auto
  show j1: "j \<ge> 1"
  proof (rule ccontr)
    assume "\<not> j \<ge> 1"
    then have "j = 0" by simp
    with c c2 show False by simp
  qed
  have rr: "drop (i + 1) t = r"
    using r by (metis drop_drop add.commute drop0 drop_Suc_Cons plus_1_eq_Suc)
  from c2 jl have "?d ! j = CHR ''}''"
    by (cases "drop j ?d") (auto simp: nth_via_drop)
  with r j1 have rj: "r ! (j - 1) = CHR ''}''" by (cases j) auto
  have "j - 1 < length r" using jl r j1 by auto
  then have "take j r = take (j - 1) r @ [r ! (j - 1)]"
    using j1 by (metis take_Suc_conv_app_nth Suc_diff_1 less_eq_Suc_le One_nat_def)
  with rj show "take (j + 1) ?d = segment_text (Hole (take (j - 1) (drop (i + 1) t)))"
    by (simp add: r rr [simplified] segment_text_def)
qed

lemma segments_text: "concat (map segment_text (segments t)) = t"
proof (induction t rule: segments.induct)
  case (1 t)
  show ?case
  proof (cases "find_char (CHR ''{'') t")
    case None
    then show ?thesis by (subst segments.simps) (simp add: segment_text_def)
  next
    case i: (Some i)
    show ?thesis
    proof (cases "find_char (CHR ''}'') (drop i t)")
      case None
      with i show ?thesis by (subst segments.simps) (simp add: segment_text_def)
    next
      case j: (Some j)
      have "take i t @ take (j + 1) (drop i t) @ drop (i + j + 1) t = t"
        by (metis append_take_drop_id drop_drop add.commute add.left_commute)
      with 1 [OF i j] i j hole_text [OF i j] show ?thesis
        by (subst segments.simps) (simp add: segment_text_def [of "Lit _"])
    qed
  qed
qed

lemma render_with_fill:
  "render_with escape s t = concat (map (fill escape s) (segments t))"
proof (induction t rule: segments.induct)
  case (1 t)
  show ?case
  proof (cases "find_char (CHR ''{'') t")
    case None
    then show ?thesis by (subst segments.simps, subst render_with.simps) simp
  next
    case i: (Some i)
    show ?thesis
    proof (cases "find_char (CHR ''}'') (drop i t)")
      case None
      with i show ?thesis
        by (subst segments.simps, subst render_with.simps) simp
    next
      case j: (Some j)
      with i 1 [OF i j] hole_text [OF i j] show ?thesis
        by (subst segments.simps, subst render_with.simps)
          (simp add: Let_def split: option.splits)
    qed
  qed
qed

section \<open>What the shell reads\<close>

text \<open>
  The quoting rules of the POSIX shell (XCU 2.2 and the comment rule of 2.3): \<open>Blank\<close> is
  unquoted text at the start of a token, \<open>Word\<close> unquoted text inside one, \<open>Sq\<close> and \<open>Dq\<close> the
  two quotations, the \<open>Esc\<close> states follow a backslash.  \<open>Literal c\<close> is a character the shell
  takes as it is, \<open>Active c\<close> one it may interpret.  Here-documents and the nested quoting
  inside substitutions are not described.
\<close>

datatype sh_state = Blank | Word | Sq | Dq | WordEsc | DqEsc | Comment

datatype sh_char = Literal char | Active char

definition sh_separator :: "char \<Rightarrow> bool" where
  "sh_separator c \<longleftrightarrow>
     c \<in> {CHR '' '', CHR 0x09, CHR 0x0A, CHR '';'', CHR ''&'', CHR ''|'',
          CHR ''('', CHR '')'', CHR ''<'', CHR ''>''}"

fun sh_step :: "sh_state \<Rightarrow> char \<Rightarrow> sh_state \<times> sh_char list" where
  "sh_step Sq c = (if c = CHR 0x27 then (Word, []) else (Sq, [Literal c]))"
| "sh_step Dq c =
     (if c = CHR 0x22 then (Word, [])
      else if c = CHR 0x5C then (DqEsc, [])
      else if c = CHR ''$'' \<or> c = CHR 0x60 then (Dq, [Active c])
      else (Dq, [Literal c]))"
| "sh_step WordEsc c = (Word, if c = CHR 0x0A then [] else [Literal c])"
| "sh_step DqEsc c =
     (if c = CHR 0x0A then (Dq, [])
      else if c \<in> {CHR ''$'', CHR 0x60, CHR 0x22, CHR 0x5C} then (Dq, [Literal c])
      else (Dq, [Literal (CHR 0x5C), Literal c]))"
| "sh_step Comment c = (if c = CHR 0x0A then (Blank, [Active c]) else (Comment, []))"
| "sh_step st c =
     (if c = CHR 0x27 then (Sq, [])
      else if c = CHR 0x22 then (Dq, [])
      else if c = CHR 0x5C then (WordEsc, [])
      else if c = CHR ''#'' \<and> st = Blank then (Comment, [])
      else if sh_separator c then (Blank, [Active c])
      else (Word, [Active c]))"

fun sh_scan :: "sh_state \<Rightarrow> string \<Rightarrow> sh_state \<times> sh_char list" where
  "sh_scan st [] = (st, [])"
| "sh_scan st (c # cs) =
     (let (st', out) = sh_step st c; (st'', outs) = sh_scan st' cs in (st'', out @ outs))"

definition unquoted :: "sh_state \<Rightarrow> bool" where
  "unquoted st \<longleftrightarrow> st = Blank \<or> st = Word"

lemma sh_scan_append:
  "sh_scan st (xs @ ys) =
     (let (st', out) = sh_scan st xs; (st'', outs) = sh_scan st' ys in (st'', out @ outs))"
  by (induction xs arbitrary: st) (auto simp: Let_def split: prod.splits)

text \<open>
  \<open>holes_unquoted st gs\<close>: reading the segments from \<open>st\<close>, every placeholder that the state
  resolves stands in unquoted text.  A resolved placeholder leaves the shell inside a word.
\<close>

fun holes_unquoted :: "state \<Rightarrow> sh_state \<Rightarrow> segment list \<Rightarrow> bool" where
  "holes_unquoted s st [] = True"
| "holes_unquoted s st (Lit t # gs) = holes_unquoted s (fst (sh_scan st t)) gs"
| "holes_unquoted s st (Hole k # gs) =
     (if resolve s k = None
      then holes_unquoted s (fst (sh_scan st (segment_text (Hole k)))) gs
      else unquoted st \<and> holes_unquoted s Word gs)"

text \<open>What the shell should read: template text as written, values literally.\<close>

fun intended :: "state \<Rightarrow> sh_state \<Rightarrow> segment list \<Rightarrow> sh_state \<times> sh_char list" where
  "intended s st [] = (st, [])"
| "intended s st (g # gs) =
     (let (st', out) = (case g of
              Hole k \<Rightarrow> (case resolve s k of
                  Some v \<Rightarrow> (Word, map Literal v)
                | None \<Rightarrow> sh_scan st (segment_text g))
            | Lit t \<Rightarrow> sh_scan st t);
          (st'', outs) = intended s st' gs
      in (st'', out @ outs))"

locale shell_escape =
  fixes escape :: "string \<Rightarrow> string"
  assumes escape_literal: "unquoted st \<Longrightarrow> sh_scan st (escape v) = (Word, map Literal v)"
begin

lemma scan_filled:
  assumes "holes_unquoted s st gs"
  shows "sh_scan st (concat (map (fill escape s) gs)) = intended s st gs"
  using assms
proof (induction s st gs rule: holes_unquoted.induct)
  case (1 s st)
  then show ?case by simp
next
  case (2 s st t gs)
  then show ?case by (simp add: sh_scan_append Let_def case_prod_unfold)
next
  case (3 s st k gs)
  then show ?case
    by (cases "resolve s k")
      (simp_all add: sh_scan_append escape_literal Let_def case_prod_unfold)
qed

lemma scan_rendered:
  assumes "holes_unquoted s st (segments t)"
  shows "sh_scan st (render_with escape s t) = intended s st (segments t)"
  using scan_filled [OF assms] by (simp add: render_with_fill)

end

lemma sh_scan_quoted_body:
  "sh_scan Sq (concat (map (\<lambda>ch. if ch = CHR 0x27
       then [CHR 0x27, CHR 0x5C, CHR 0x27, CHR 0x27] else [ch]) v) @ [CHR 0x27]) =
   (Word, map Literal v)"
  by (induction v) (auto simp: Let_def sh_separator_def split: prod.splits)

lemma shell_quote_eq: "shell_quote v = shell_single_quote v"
  by (induction v) (auto simp: shell_quote_def shell_single_quote_def)

interpretation script_escape: shell_escape shell_single_quote
proof
  fix st v
  assume "unquoted st"
  then show "sh_scan st (shell_single_quote v) = (Word, map Literal v)"
    using sh_scan_quoted_body [of v]
    by (auto simp: unquoted_def shell_single_quote_def)
qed

interpretation container_escape: shell_escape shell_quote
  by unfold_locales (simp add: shell_quote_eq script_escape.escape_literal)

section \<open>Properties\<close>

text \<open>
  Templating is a single pass: the result is the template's segments, read off the
  template alone, with each placeholder replaced by the (escaped) value of its key or left as
  written when the key is unknown.  A substituted value is never scanned again, and the
  segments spell the template.
\<close>

theorem templating_single_pass:
  "render t s = concat (map (fill (\<lambda>v. v) s) (segments t)) \<and>
   render_shell t s = concat (map (fill shell_single_quote s) (segments t)) \<and>
   concat (map segment_text (segments t)) = t"
  by (simp_all add: render_def render_shell_def render_with_fill segments_text)



text \<open>
  The hypothesis matters: inside double quotes the added single quotes are ordinary
  characters, so a command substitution in a value stays active; and inside single quotes they
  end the quotation, so the value itself is unquoted.
\<close>

lemma render_shell_double_quoted_hole:
  "Active (CHR ''$'') \<in>
     set (snd (sh_scan Blank (render_shell [CHR 0x22, CHR ''{'', CHR ''t'', CHR ''a'', CHR ''s'', CHR ''k'',
        CHR ''}'', CHR 0x22] (new_state ''$(id)''))))"
  by code_simp

lemma render_shell_single_quoted_hole:
  "Active (CHR '';'') \<in>
     set (snd (sh_scan Blank (render_shell [CHR 0x27, CHR ''{'', CHR ''t'', CHR ''a'', CHR ''s'', CHR ''k'',
        CHR ''}'', CHR 0x27] (new_state '';id''))))"
  by code_simp

end
