(* ===== verification/Messages.thy ===== *)
theory Messages
  imports Prelude
begin

text \<open>
  The provider-neutral data of a conversation (\<open>boitata-core/src/provider/mod.rs\<close>): tool
  content, messages, requests and responses, the provider errors with their texts, and the
  provider registry.  JSON values are the datatype \<open>json\<close> with the accessors the source calls;
  an object is its list of fields in the order the value holds them.  Reading and writing JSON
  text is the work of an external library and is a parameter where it is used.
\<close>

section \<open>JSON values\<close>

datatype jnum = PosInt nat | NegInt int | JFloat string

datatype json =
    JNull
  | JBool bool
  | JNum jnum
  | JStr string
  | JArr "json list"
  | JObj "(string \<times> json) list"

definition jget :: "json \<Rightarrow> string \<Rightarrow> json option" where
  "jget v k = (case v of JObj fs \<Rightarrow> map_of fs k | _ \<Rightarrow> None)"

definition as_str :: "json \<Rightarrow> string option" where
  "as_str v = (case v of JStr s \<Rightarrow> Some s | _ \<Rightarrow> None)"

definition as_bool :: "json \<Rightarrow> bool option" where
  "as_bool v = (case v of JBool b \<Rightarrow> Some b | _ \<Rightarrow> None)"

definition as_u64 :: "json \<Rightarrow> nat option" where
  "as_u64 v = (case v of JNum (PosInt n) \<Rightarrow> Some n | _ \<Rightarrow> None)"

definition as_array :: "json \<Rightarrow> json list option" where
  "as_array v = (case v of JArr xs \<Rightarrow> Some xs | _ \<Rightarrow> None)"

definition as_object :: "json \<Rightarrow> (string \<times> json) list option" where
  "as_object v = (case v of JObj fs \<Rightarrow> Some fs | _ \<Rightarrow> None)"

definition get_str :: "json \<Rightarrow> string \<Rightarrow> string option" where
  "get_str v k = Option.bind (jget v k) as_str"

section \<open>Tool content\<close>

datatype tool_content = TText string | TImage string string

definition tool_content_text :: "tool_content list \<Rightarrow> string" where
  "tool_content_text content =
     join [CHR 0x0A]
       (map (\<lambda>item. case item of
               TText text \<Rightarrow> text
             | TImage mime_type data \<Rightarrow>
                 ''['' @ mime_type @ '' image, '' @ show_nat (length data)
                 @ '' base64 chars omitted]'') content)"

record tool_result =
  tr_call_id :: string
  tr_content :: "tool_content list"
  tr_is_error :: "bool option"

record tool_call =
  tc_id :: string
  tc_name :: string
  tc_arguments :: json

record tool_definition =
  td_name :: string
  td_description :: string
  td_input_schema :: json

section \<open>Messages, requests, responses\<close>

datatype message_role = System | User | Assistant | Tool

datatype message_content =
    MText string
  | MToolResults "tool_result list"
  | MToolUse "string option" "tool_call list"

record message =
  msg_role :: message_role
  msg_content :: message_content

text \<open>A temperature is the decimal literal the source writes.\<close>

record completion_request =
  req_messages :: "message list"
  req_tools :: "tool_definition list option"
  req_max_tokens :: "nat option"
  req_temperature :: "string option"
  req_system :: "string option"

record usage =
  input_tokens :: nat
  output_tokens :: nat
  cache_creation_input_tokens :: "nat option"
  cache_read_input_tokens :: "nat option"

definition total_tokens :: "usage \<Rightarrow> nat" where
  "total_tokens u = input_tokens u + output_tokens u"

record completion_response =
  resp_content :: "string option"
  resp_tool_calls :: "tool_call list"
  resp_usage :: "usage option"
  resp_finish_reason :: "string option"

record chunk =
  ch_content :: "string option"
  ch_tool_calls :: "tool_call list option"
  ch_finish_reason :: "string option"

definition single_chunk_stream :: "completion_response \<Rightarrow> chunk list" where
  "single_chunk_stream r =
     [\<lparr>ch_content = resp_content r,
       ch_tool_calls = (if resp_tool_calls r = [] then None else Some (resp_tool_calls r)),
       ch_finish_reason = resp_finish_reason r\<rparr>]"

datatype provider_error =
    RequestFailed string
  | AuthenticationFailed
  | RateLimited
  | InvalidResponse string
  | ModelNotFound string
  | ContextLengthExceeded
  | NotSupported string
  | ProviderOther string

fun show_provider_error :: "provider_error \<Rightarrow> string" where
  "show_provider_error (RequestFailed m) = ''API request failed: '' @ m"
| "show_provider_error AuthenticationFailed = ''Authentication failed''"
| "show_provider_error RateLimited = ''Rate limited''"
| "show_provider_error (InvalidResponse m) = ''Invalid response: '' @ m"
| "show_provider_error (ModelNotFound m) = ''Model not found: '' @ m"
| "show_provider_error ContextLengthExceeded = ''Context length exceeded''"
| "show_provider_error (NotSupported m) = ''Provider not supported: '' @ m"
| "show_provider_error (ProviderOther m) = ''Other error: '' @ m"

text \<open>
  What the loop reads of a provider; its \<open>complete\<close> is an argument of the functions that
  call it.
\<close>

record provider =
  pv_name :: string
  pv_model :: string
  pv_supports_tools :: bool
  pv_max_tokens :: nat
  pv_context_limit :: nat

section \<open>The provider registry\<close>

definition pr_register :: "provider list \<Rightarrow> provider \<Rightarrow> provider list" where
  "pr_register reg p = reg @ [p]"

definition pr_get_by_name :: "provider list \<Rightarrow> string \<Rightarrow> provider option" where
  "pr_get_by_name reg name = find (\<lambda>p. pv_name p = name) reg"

definition pr_get_default :: "provider list \<Rightarrow> provider option" where
  "pr_get_default reg = (case reg of [] \<Rightarrow> None | p # _ \<Rightarrow> Some p)"

definition pr_list :: "provider list \<Rightarrow> string list" where
  "pr_list reg = map pv_name reg"

end
