(* ===== verification/Conversation.thy ===== *)
theory Conversation
  imports Messages
begin

text \<open>
  The conversation context of an agent run (\<open>boitata-core/src/context/\<close>): the message history
  and its operations (\<open>mod.rs\<close>), the choice of what to summarize and the splice of the
  summary (\<open>compact.rs\<close>), and the token estimate (\<open>token_counter.rs\<close>).

  The BPE tokenizer is an external library: \<open>bpe\<close> is its token count, \<open>None\<close> when the table
  did not load.  The text of a JSON value (\<open>Value::to_string\<close>) is the parameter \<open>jtext\<close>.
\<close>

section \<open>The history\<close>

datatype context_content =
    CText string
  | CToolResults "tool_result list"
  | CToolUse "string option" "tool_call list"

record context_message =
  cm_role :: message_role
  cm_content :: context_content

record conversation =
  cx_messages :: "context_message list"
  cx_system_prompt :: "string option"

definition new_context :: conversation where
  "new_context = \<lparr>cx_messages = [], cx_system_prompt = None\<rparr>"

definition set_system_prompt :: "conversation \<Rightarrow> string \<Rightarrow> conversation" where
  "set_system_prompt c p = c\<lparr>cx_system_prompt := Some p\<rparr>"

definition push_message :: "conversation \<Rightarrow> message_role \<Rightarrow> context_content \<Rightarrow> conversation" where
  "push_message c r m = c\<lparr>cx_messages := cx_messages c @ [\<lparr>cm_role = r, cm_content = m\<rparr>]\<rparr>"

definition add_user_message :: "conversation \<Rightarrow> string \<Rightarrow> conversation" where
  "add_user_message c content = push_message c User (CText content)"

definition add_assistant_message :: "conversation \<Rightarrow> string \<Rightarrow> conversation" where
  "add_assistant_message c content = push_message c Assistant (CText content)"

definition add_assistant_tool_use ::
    "conversation \<Rightarrow> string option \<Rightarrow> tool_call list \<Rightarrow> conversation" where
  "add_assistant_tool_use c text calls = push_message c Assistant (CToolUse text calls)"

text \<open>
  A result joins the last message when that message has the tool role; the inner pattern of
  the source only matches a \<open>ToolResults\<close> content, any other content of a tool message leaves
  the history as it was.
\<close>

definition add_tool_result ::
    "conversation \<Rightarrow> string \<Rightarrow> tool_content list \<Rightarrow> bool \<Rightarrow> conversation" where
  "add_tool_result c call_id content is_error =
     (let r = \<lparr>tr_call_id = call_id, tr_content = content, tr_is_error = Some is_error\<rparr>;
          ms = cx_messages c
      in if ms \<noteq> [] \<and> cm_role (last ms) = Tool then
           (case cm_content (last ms) of
              CToolResults results \<Rightarrow>
                c\<lparr>cx_messages := butlast ms @ [(last ms)\<lparr>cm_content := CToolResults (results @ [r])\<rparr>]\<rparr>
            | _ \<Rightarrow> c)
         else push_message c Tool (CToolResults [r]))"

fun provider_content :: "context_content \<Rightarrow> message_content" where
  "provider_content (CText t) = MText t"
| "provider_content (CToolResults rs) = MToolResults rs"
| "provider_content (CToolUse t cs) = MToolUse t cs"

definition to_messages :: "conversation \<Rightarrow> message list" where
  "to_messages c =
     map (\<lambda>m. \<lparr>msg_role = cm_role m, msg_content = provider_content (cm_content m)\<rparr>) (cx_messages c)"

definition context_len :: "conversation \<Rightarrow> nat" where
  "context_len c = length (cx_messages c)"

definition context_is_empty :: "conversation \<Rightarrow> bool" where
  "context_is_empty c \<longleftrightarrow> cx_messages c = []"

definition context_clear :: "conversation \<Rightarrow> conversation" where
  "context_clear c = c\<lparr>cx_messages := []\<rparr>"

section \<open>Token estimate\<close>

definition div_ceil :: "nat \<Rightarrow> nat \<Rightarrow> nat" where
  "div_ceil a b = (a + b - 1) div b"

definition count_tokens :: "(string \<Rightarrow> nat) option \<Rightarrow> string \<Rightarrow> nat" where
  "count_tokens bpe text = (case bpe of Some f \<Rightarrow> f text | None \<Rightarrow> div_ceil (length text) 4)"

definition tool_tokens_of ::
    "(string \<Rightarrow> nat) option \<Rightarrow> (json \<Rightarrow> string) \<Rightarrow> tool_definition \<Rightarrow> nat" where
  "tool_tokens_of bpe jtext tool =
     7 + count_tokens bpe (td_name tool) + count_tokens bpe (td_description tool)
     + (case Option.bind (jget (td_input_schema tool) ''properties'') as_object of
          None \<Rightarrow> 0
        | Some props \<Rightarrow>
            3 + sum_list (map (\<lambda>(key, v). 3 + count_tokens bpe key + count_tokens bpe (jtext v)) props))
     + 12"

definition count_tokens_for_tools ::
    "(string \<Rightarrow> nat) option \<Rightarrow> (json \<Rightarrow> string) \<Rightarrow> tool_definition list \<Rightarrow> nat" where
  "count_tokens_for_tools bpe jtext tools = foldl (\<lambda>total t. total + tool_tokens_of bpe jtext t) 0 tools"

fun count_content ::
    "(string \<Rightarrow> nat) option \<Rightarrow> (json \<Rightarrow> string) \<Rightarrow> context_content \<Rightarrow> nat" where
  "count_content bpe jtext (CText text) = count_tokens bpe text"
| "count_content bpe jtext (CToolResults results) =
     sum_list (map (\<lambda>r. count_tokens bpe (tool_content_text (tr_content r))) results)"
| "count_content bpe jtext (CToolUse text calls) =
     (case text of Some t \<Rightarrow> count_tokens bpe t | None \<Rightarrow> 0)
     + sum_list (map (\<lambda>c. count_tokens bpe (tc_name c) + count_tokens bpe (jtext (tc_arguments c))) calls)"

definition count_context_tokens ::
    "(string \<Rightarrow> nat) option \<Rightarrow> (json \<Rightarrow> string) \<Rightarrow> string \<Rightarrow> context_message list \<Rightarrow> nat \<Rightarrow> nat" where
  "count_context_tokens bpe jtext system_prompt ms tool_tokens =
     foldl (\<lambda>total m. total + (4 + count_content bpe jtext (cm_content m)))
       (4 + count_tokens bpe system_prompt) ms
     + tool_tokens + 3"

definition token_count ::
    "(string \<Rightarrow> nat) option \<Rightarrow> (json \<Rightarrow> string) \<Rightarrow> conversation \<Rightarrow> nat \<Rightarrow> nat" where
  "token_count bpe jtext c tool_tokens =
     count_context_tokens bpe jtext (unwrap_or '''' (cx_system_prompt c)) (cx_messages c) tool_tokens"

section \<open>Single-precision fractions\<close>

text \<open>
  The threshold is an \<open>f32\<close>: \<open>F i k\<close> is the number \<open>i / 2 ^ k\<close>.  \<open>round24\<close> rounds a
  natural number to 24 significant bits, ties to even, which is what the conversion
  \<open>usize as f32\<close> does; the product of such a number with \<open>F t k\<close> is \<open>round24 (n * t) / 2 ^ k\<close>,
  because it is a multiple of the smallest step of \<open>F t k\<close> and far below the largest float.
\<close>

datatype f32 = NaN | PosInf | NegInf | F int nat

fun bit_len :: "nat \<Rightarrow> nat" where
  "bit_len n = (if n = 0 then 0 else Suc (bit_len (n div 2)))"

declare bit_len.simps [simp del]

definition round24 :: "nat \<Rightarrow> nat" where
  "round24 n =
     (let e = bit_len n - 24 in
      if e = 0 then n
      else let q = n div 2 ^ e; r = n mod 2 ^ e; half = 2 ^ (e - 1)
           in (if half < r \<or> (r = half \<and> odd q) then q + 1 else q) * 2 ^ e)"

definition f32_le_zero :: "f32 \<Rightarrow> bool" where
  "f32_le_zero x = (case x of NaN \<Rightarrow> False | PosInf \<Rightarrow> False | NegInf \<Rightarrow> True | F i k \<Rightarrow> i \<le> 0)"

definition f32_clamp01 :: "f32 \<Rightarrow> f32" where
  "f32_clamp01 x = (case x of
       NaN \<Rightarrow> NaN | PosInf \<Rightarrow> F 1 0 | NegInf \<Rightarrow> F 0 0
     | F i k \<Rightarrow> if i < 0 then F 0 0 else if 2 ^ k < i then F 1 0 else F i k)"

section \<open>Compaction\<close>

definition needs_compaction :: "nat \<Rightarrow> nat \<Rightarrow> f32 \<Rightarrow> bool" where
  "needs_compaction used limit threshold =
     (if f32_le_zero threshold \<or> limit = 0 then False
      else (case threshold of
              F t k \<Rightarrow> round24 (round24 limit * nat t) \<le> round24 used * 2 ^ k
            | _ \<Rightarrow> False))"

text \<open>The forward scan for the next assistant message.\<close>

function seek_assistant :: "context_message list \<Rightarrow> nat \<Rightarrow> nat" where
  "seek_assistant msgs cutoff =
     (if cutoff < length msgs \<and> cm_role (msgs ! cutoff) \<noteq> Assistant
      then seek_assistant msgs (cutoff + 1) else cutoff)"
  by pat_completeness auto
termination
  by (relation "measure (\<lambda>(msgs, cutoff). length msgs - cutoff)") auto

declare seek_assistant.simps [simp del]

definition pick_cutoff :: "conversation \<Rightarrow> nat \<Rightarrow> nat option" where
  "pick_cutoff c keep_recent =
     (let msgs = cx_messages c; len = length msgs in
      if len \<le> keep_recent then None
      else let cutoff = seek_assistant msgs (len - keep_recent)
           in if cutoff < 2 \<or> len \<le> cutoff then None else Some cutoff)"

definition keep_recent_messages :: nat where
  "keep_recent_messages = 6"

definition summarization_system_prompt :: string where
  "summarization_system_prompt =
     ''You are compacting a coding agent'' @ [CHR 0x27] @ ''s conversation so it fits within the model'' @
     [CHR 0x27] @
     ''s context window. Summarize the conversation below, preserving everything needed to continue '' @
     ''the task: the original request, decisions made, files and code inspected or changed, command '' @
     ''and tool results that matter, and any unresolved problems or next steps. Be concise but do '' @
     ''not omit load-bearing details. Respond with the summary only.''"

definition max_rendered_part :: nat where
  "max_rendered_part = 2000"

text \<open>The ellipsis is the three bytes of U+2026.\<close>

definition ellipsis :: string where
  "ellipsis = map char_of [226::nat, 128, 166]"

definition truncated :: "string \<Rightarrow> string" where
  "truncated s =
     (if length s \<le> max_rendered_part then s
      else let e = floor_boundary s max_rendered_part
           in take e s @ ellipsis @ '' ['' @ show_nat (length s - e) @ '' more chars]'')"

fun role_label :: "message_role \<Rightarrow> string" where
  "role_label System = ''System''"
| "role_label User = ''User''"
| "role_label Assistant = ''Assistant''"
| "role_label Tool = ''Tool results''"

fun render_message_into :: "(json \<Rightarrow> string) \<Rightarrow> string \<Rightarrow> context_message \<Rightarrow> string" where
  "render_message_into jtext out m =
     (case cm_content m of
        CText text \<Rightarrow> out @ role_label (cm_role m) @ '': '' @ truncated text
      | CToolResults results \<Rightarrow>
          foldl (\<lambda>o1 r. o1 @ [CHR 0x0A] @ truncated (tool_content_text (tr_content r)))
            (out @ ''Tool results:'') results
      | CToolUse text calls \<Rightarrow>
          foldl (\<lambda>o1 call. o1 @ '' [calls '' @ tc_name call @ ''(''
                             @ truncated (jtext (tc_arguments call)) @ '')]'')
            (out @ ''Assistant:''
             @ (case text of
                  Some t \<Rightarrow> if t \<noteq> '''' then '' '' @ truncated t else ''''
                | None \<Rightarrow> '''')) calls)"

definition render_for_summary :: "(json \<Rightarrow> string) \<Rightarrow> conversation \<Rightarrow> nat \<Rightarrow> string" where
  "render_for_summary jtext c cutoff =
     foldl (\<lambda>out (i, m). render_message_into jtext (if i > 0 then out @ [CHR 0x0A, CHR 0x0A] else out) m)
       '''' (enumerate 0 (take cutoff (cx_messages c)))"

definition summary_prefix :: string where
  "summary_prefix =
     ''Summary of the earlier conversation (older turns were compacted to stay within the context window):''
     @ [CHR 0x0A, CHR 0x0A]"

definition apply_summary :: "conversation \<Rightarrow> nat \<Rightarrow> string \<Rightarrow> conversation" where
  "apply_summary c cutoff summary =
     c\<lparr>cx_messages :=
         \<lparr>cm_role = User, cm_content = CText (summary_prefix @ summary)\<rparr> # drop cutoff (cx_messages c)\<rparr>"

section \<open>The shape of a history\<close>

text \<open>
  What strict providers require: one user text, then turns, each an assistant message with tool
  calls followed by one tool message whose results answer exactly those calls in order.
\<close>

definition answers :: "context_message \<Rightarrow> context_message \<Rightarrow> bool" where
  "answers a r \<longleftrightarrow>
     (case (cm_content a, cm_content r) of
        (CToolUse t calls, CToolResults results) \<Rightarrow>
          cm_role a = Assistant \<and> cm_role r = Tool \<and> map tr_call_id results = map tc_id calls
      | _ \<Rightarrow> False)"

fun turns :: "context_message list \<Rightarrow> bool" where
  "turns [] = True"
| "turns [a] = False"
| "turns (a # r # ms) \<longleftrightarrow> answers a r \<and> turns ms"

definition well_formed_history :: "context_message list \<Rightarrow> bool" where
  "well_formed_history ms =
     (case ms of
        [] \<Rightarrow> False
      | m # ts \<Rightarrow> cm_role m = User \<and> (case cm_content m of CText t \<Rightarrow> True | _ \<Rightarrow> False) \<and> turns ts)"

lemma answers_roles: "answers a r \<Longrightarrow> cm_role a = Assistant \<and> cm_role r = Tool"
  by (auto simp: answers_def split: context_content.splits)

lemma turns_append: "turns xs \<Longrightarrow> turns (xs @ ys) = turns ys"
  by (induction xs rule: turns.induct) auto

lemma well_formed_history_append:
  "well_formed_history hs \<Longrightarrow> well_formed_history (hs @ ts) = turns ts"
  by (cases hs) (auto simp: well_formed_history_def turns_append)

lemma turns_drop_assistant:
  "turns ts \<Longrightarrow> j < length ts \<Longrightarrow> cm_role (ts ! j) = Assistant \<Longrightarrow> turns (drop j ts)"
proof (induction ts arbitrary: j rule: turns.induct)
  case (3 a r ms)
  show ?case
  proof (cases "j < 2")
    case True
    with 3 show ?thesis by (cases j) (auto dest: answers_roles)
  next
    case False
    then obtain i where "j = Suc (Suc i)" by (metis Suc_diff_Suc add_2_eq_Suc le_add_diff_inverse not_less)
    with 3 show ?thesis by auto
  qed
qed auto

lemma seek_assistant_ge: "cutoff \<le> seek_assistant msgs cutoff"
proof (induction msgs cutoff rule: seek_assistant.induct)
  case (1 msgs cutoff)
  then show ?case by (subst seek_assistant.simps) auto
qed

lemma seek_assistant_role:
  "seek_assistant msgs cutoff < length msgs \<Longrightarrow> cm_role (msgs ! seek_assistant msgs cutoff) = Assistant"
proof (induction msgs cutoff rule: seek_assistant.induct)
  case (1 msgs cutoff)
  then show ?case
    by (cases "cutoff < length msgs \<and> cm_role (msgs ! cutoff) \<noteq> Assistant")
      (simp_all add: seek_assistant.simps [of msgs cutoff])
qed

lemma seek_assistant_skips:
  "cutoff \<le> j \<Longrightarrow> j < seek_assistant msgs cutoff \<Longrightarrow> j < length msgs \<and> cm_role (msgs ! j) \<noteq> Assistant"
proof (induction msgs cutoff rule: seek_assistant.induct)
  case (1 msgs cutoff)
  show ?case
  proof (cases "cutoff < length msgs \<and> cm_role (msgs ! cutoff) \<noteq> Assistant")
    case True
    with 1 show ?thesis
      by (cases "j = cutoff") (simp_all add: seek_assistant.simps [of msgs cutoff])
  next
    case False
    with "1.prems" show ?thesis by (simp add: seek_assistant.simps [of msgs cutoff])
  qed
qed

lemma pick_cutoff_Some:
  assumes "pick_cutoff c keep = Some k"
  shows "2 \<le> k" "k < length (cx_messages c)" "length (cx_messages c) - keep \<le> k"
    "cm_role (cx_messages c ! k) = Assistant"
    "\<And>j. length (cx_messages c) - keep \<le> j \<Longrightarrow> j < k \<Longrightarrow> cm_role (cx_messages c ! j) \<noteq> Assistant"
proof -
  let ?ms = "cx_messages c"
  let ?s = "seek_assistant ?ms (length ?ms - keep)"
  from assms have k: "k = ?s" "2 \<le> ?s" "?s < length ?ms"
    by (auto simp: pick_cutoff_def Let_def split: if_splits)
  from k show "2 \<le> k" "k < length ?ms" by auto
  from k show "length ?ms - keep \<le> k" by (simp add: seek_assistant_ge)
  from k show "cm_role (?ms ! k) = Assistant" by (simp add: seek_assistant_role)
  fix j assume "length ?ms - keep \<le> j" "j < k"
  with k show "cm_role (?ms ! j) \<noteq> Assistant" by (auto dest: seek_assistant_skips)
qed

lemma well_formed_summary:
  assumes wf: "well_formed_history (cx_messages c)"
    and pick: "pick_cutoff c keep = Some k"
  shows "well_formed_history (cx_messages (apply_summary c k summary))"
proof -
  from wf obtain m ts where ms: "cx_messages c = m # ts" and ts: "turns ts"
    by (auto simp: well_formed_history_def split: list.splits)
  from pick_cutoff_Some [OF pick] ms obtain j where j: "k = Suc j" "j < length ts"
    and role: "cm_role (ts ! j) = Assistant"
    by (cases k) auto
  have "turns (drop j ts)" by (rule turns_drop_assistant [OF ts j(2) role])
  with ms j show ?thesis by (simp add: apply_summary_def well_formed_history_def)
qed

lemma apply_summary_length:
  "k \<le> length (cx_messages c) \<Longrightarrow>
   length (cx_messages (apply_summary c k summary)) = length (cx_messages c) - k + 1"
  by (simp add: apply_summary_def)

text \<open>Building a turn: the tool-use message, then one result per call.\<close>

lemma add_tool_result_first:
  "cx_messages c = ms @ [a] \<Longrightarrow> cm_role a \<noteq> Tool \<Longrightarrow>
   cx_messages (add_tool_result c i content e) =
     ms @ [a, \<lparr>cm_role = Tool, cm_content = CToolResults
       [\<lparr>tr_call_id = i, tr_content = content, tr_is_error = Some e\<rparr>]\<rparr>]"
  by (simp add: add_tool_result_def push_message_def)

lemma add_tool_result_next:
  "cx_messages c = ms @ [\<lparr>cm_role = Tool, cm_content = CToolResults rs\<rparr>] \<Longrightarrow>
   cx_messages (add_tool_result c i content e) =
     ms @ [\<lparr>cm_role = Tool, cm_content = CToolResults
       (rs @ [\<lparr>tr_call_id = i, tr_content = content, tr_is_error = Some e\<rparr>])\<rparr>]"
  by (simp add: add_tool_result_def)

text \<open>
  \<open>pending_turn ms calls n\<close>: the history ends in a turn whose first \<open>n\<close> calls are answered.
\<close>

definition pending_turn :: "context_message list \<Rightarrow> tool_call list \<Rightarrow> nat \<Rightarrow> bool" where
  "pending_turn ms calls n \<longleftrightarrow>
     (\<exists>hs t. well_formed_history hs \<and>
        (if n = 0 then ms = hs @ [\<lparr>cm_role = Assistant, cm_content = CToolUse t calls\<rparr>]
         else \<exists>rs. ms = hs @ [\<lparr>cm_role = Assistant, cm_content = CToolUse t calls\<rparr>,
                              \<lparr>cm_role = Tool, cm_content = CToolResults rs\<rparr>]
              \<and> map tr_call_id rs = map tc_id (take n calls)))"

lemma pending_turn_start:
  "well_formed_history (cx_messages c) \<Longrightarrow>
   pending_turn (cx_messages (add_assistant_tool_use c t calls)) calls 0"
  by (auto simp: pending_turn_def add_assistant_tool_use_def push_message_def)

lemma pending_turn_step:
  assumes "pending_turn (cx_messages c) calls n" and n: "n < length calls"
    and i: "i = tc_id (calls ! n)"
  shows "pending_turn (cx_messages (add_tool_result c i content e)) calls (Suc n)"
proof -
  from assms(1) obtain hs t where hs: "well_formed_history hs" and
    ms: "if n = 0 then cx_messages c = hs @ [\<lparr>cm_role = Assistant, cm_content = CToolUse t calls\<rparr>]
         else \<exists>rs. cx_messages c = hs @ [\<lparr>cm_role = Assistant, cm_content = CToolUse t calls\<rparr>,
                              \<lparr>cm_role = Tool, cm_content = CToolResults rs\<rparr>]
              \<and> map tr_call_id rs = map tc_id (take n calls)"
    by (auto simp: pending_turn_def)
  have tk: "map tc_id (take (Suc n) calls) = map tc_id (take n calls) @ [i]"
    using n i by (simp add: take_Suc_conv_app_nth)
  show ?thesis
  proof (cases "n = 0")
    case True
    with ms have "cx_messages c = hs @ [\<lparr>cm_role = Assistant, cm_content = CToolUse t calls\<rparr>]" by simp
    from add_tool_result_first [OF this] hs True tk show ?thesis
      by (fastforce simp: pending_turn_def)
  next
    case False
    with ms obtain rs where rs: "map tr_call_id rs = map tc_id (take n calls)"
      and eq: "cx_messages c = (hs @ [\<lparr>cm_role = Assistant, cm_content = CToolUse t calls\<rparr>]) @
                              [\<lparr>cm_role = Tool, cm_content = CToolResults rs\<rparr>]"
      by auto
    from add_tool_result_next [OF eq] hs rs tk show ?thesis
      by (fastforce simp: pending_turn_def)
  qed
qed

lemma pending_turn_done:
  assumes "pending_turn ms calls (length calls)" "calls \<noteq> []"
  shows "well_formed_history ms"
  using assms
  by (auto simp: pending_turn_def answers_def well_formed_history_append)

section \<open>Rounding to single precision\<close>

lemma bit_len_0 [simp]: "bit_len 0 = 0"
  by (simp add: bit_len.simps)

lemma bit_len_1 [simp]: "bit_len (Suc 0) = Suc 0"
  by (simp add: bit_len.simps [of "Suc 0"])

lemma bit_len_double: "0 < n \<Longrightarrow> bit_len (2 * n) = Suc (bit_len n)"
  by (simp add: bit_len.simps [of "2 * n"])

lemma bit_len_bounds: "0 < n \<Longrightarrow> 2 ^ (bit_len n - 1) \<le> n \<and> n < 2 ^ bit_len n"
proof (induction n rule: bit_len.induct)
  case (1 n)
  show ?case
  proof (cases "n div 2 = 0")
    case True
    with "1.prems" have "n = 1" by auto
    then show ?thesis by simp
  next
    case False
    let ?h = "bit_len (n div 2)"
    from False 1 have IH: "2 ^ (?h - 1) \<le> n div 2" "n div 2 < 2 ^ ?h" by auto
    have h: "?h = Suc (?h - 1)" using False by (simp add: bit_len.simps [of "n div 2"])
    have "2 * 2 ^ (?h - 1) \<le> n" using IH(1) by arith
    then have "2 ^ ?h \<le> n" by (subst h) simp
    moreover have "n < 2 * 2 ^ ?h" using IH(2) by arith
    ultimately show ?thesis using "1.prems" by (simp add: bit_len.simps [of n])
  qed
qed

lemma bit_len_mono: "m \<le> n \<Longrightarrow> bit_len m \<le> bit_len n"
proof (induction n arbitrary: m rule: bit_len.induct)
  case (1 n)
  then show ?case
    by (cases "n = 0"; cases "m = 0")
      (auto simp: bit_len.simps [of n] bit_len.simps [of m] div_le_mono)
qed

lemma bit_len_shift: "0 < q \<Longrightarrow> bit_len (q * 2 ^ e) = bit_len q + e"
proof (induction e)
  case (Suc e)
  then show ?case using bit_len_double [of "q * 2 ^ e"] by (simp add: mult.left_commute)
qed simp

lemma bit_len_less: "n < 2 ^ k \<Longrightarrow> bit_len n \<le> k"
proof (rule ccontr)
  assume n: "n < 2 ^ k" and "\<not> bit_len n \<le> k"
  then have "k \<le> bit_len n - 1" "0 < n"
    by (auto intro: gr0I)
  then have "(2::nat) ^ k \<le> 2 ^ (bit_len n - 1)" "2 ^ (bit_len n - 1) \<le> n"
    using bit_len_bounds by (auto intro: power_increasing)
  with n show False by simp
qed

text \<open>The rounded quotient of \<open>round24\<close>.\<close>

definition rounded_quot :: "nat \<Rightarrow> nat \<Rightarrow> nat" where
  "rounded_quot e n =
     (let q = n div 2 ^ e; r = n mod 2 ^ e; half = 2 ^ (e - 1)
      in if half < r \<or> (r = half \<and> odd q) then q + 1 else q)"

lemma round24_eq:
  "round24 n = (if bit_len n \<le> 24 then n
                else rounded_quot (bit_len n - 24) n * 2 ^ (bit_len n - 24))"
  by (simp add: round24_def rounded_quot_def Let_def)

lemma rounded_quot_range: "n div 2 ^ e \<le> rounded_quot e n \<and> rounded_quot e n \<le> n div 2 ^ e + 1"
  by (simp add: rounded_quot_def Let_def)

lemma rounded_quot_mono:
  assumes "m \<le> n"
  shows "rounded_quot e m \<le> rounded_quot e n"
proof (cases "m div 2 ^ e = n div 2 ^ e")
  case True
  with assms have "m mod 2 ^ e \<le> n mod 2 ^ e"
    by (metis div_mult_mod_eq nat_add_left_cancel_le)
  with True show ?thesis by (auto simp: rounded_quot_def Let_def)
next
  case False
  with assms have "m div 2 ^ e + 1 \<le> n div 2 ^ e"
    by (metis Suc_eq_plus1 Suc_leI div_le_mono le_neq_implies_less)
  with rounded_quot_range [of m e] rounded_quot_range [of n e] show ?thesis by linarith
qed

lemma round24_upper:
  assumes "24 < bit_len n"
  shows "rounded_quot (bit_len n - 24) n \<le> 2 ^ 24"
proof -
  let ?e = "bit_len n - 24"
  have "n < 2 ^ (24 + ?e)"
    using bit_len_bounds [of n] assms by (cases "n = 0") auto
  then have "n div 2 ^ ?e < 2 ^ 24"
    by (simp add: power_add less_mult_imp_div_less)
  with rounded_quot_range [of n ?e] show ?thesis by linarith
qed

lemma round24_le_power: "round24 n \<le> 2 ^ bit_len n"
proof (cases "bit_len n \<le> 24")
  case True
  then show ?thesis
    using bit_len_bounds [of n] by (cases "n = 0") (auto simp: round24_eq)
next
  case False
  then have "rounded_quot (bit_len n - 24) n * 2 ^ (bit_len n - 24) \<le> 2 ^ 24 * 2 ^ (bit_len n - 24)"
    using round24_upper [of n] by (intro mult_right_mono) auto
  also have "(2::nat) ^ 24 * 2 ^ (bit_len n - 24) = 2 ^ bit_len n"
    using False by (subst power_add [symmetric]) simp
  finally show ?thesis using False by (simp add: round24_eq)
qed

lemma round24_ge_power:
  assumes "0 < n"
  shows "2 ^ (bit_len n - 1) \<le> round24 n"
proof (cases "bit_len n \<le> 24")
  case True
  then show ?thesis using bit_len_bounds [OF assms] by (simp add: round24_eq)
next
  case False
  let ?e = "bit_len n - 24"
  have split: "(2::nat) ^ (bit_len n - 1) = 2 ^ 23 * 2 ^ ?e"
    using False by (subst power_add [symmetric]) simp
  with bit_len_bounds [OF assms] have "2 ^ 23 * 2 ^ ?e \<le> n" by simp
  then have "2 ^ 23 \<le> n div 2 ^ ?e"
    by (metis div_le_mono nonzero_mult_div_cancel_right power_not_zero zero_neq_numeral)
  with rounded_quot_range [of n ?e] have "2 ^ 23 \<le> rounded_quot ?e n" by linarith
  then have "2 ^ 23 * 2 ^ ?e \<le> rounded_quot ?e n * 2 ^ ?e" by (intro mult_right_mono) auto
  with split False show ?thesis by (simp add: round24_eq)
qed

lemma round24_mono:
  assumes "m \<le> n"
  shows "round24 m \<le> round24 n"
proof (cases "bit_len m = bit_len n")
  case True
  then show ?thesis using assms rounded_quot_mono [OF assms] by (simp add: round24_eq)
next
  case False
  with bit_len_mono [OF assms] have l: "bit_len m \<le> bit_len n - 1" by simp
  show ?thesis
  proof (cases "n = 0")
    case True
    with assms show ?thesis by simp
  next
    case nz: False
    have "round24 m \<le> 2 ^ bit_len m" by (rule round24_le_power)
    also have "(2::nat) ^ bit_len m \<le> 2 ^ (bit_len n - 1)" using l by (intro power_increasing) auto
    also have "\<dots> \<le> round24 n" using nz by (intro round24_ge_power) simp
    finally show ?thesis .
  qed
qed

lemma round24_fixed:
  assumes "q \<le> 2 ^ 24"
  shows "round24 (q * 2 ^ e) = q * 2 ^ e"
proof (cases "bit_len (q * 2 ^ e) \<le> 24")
  case True
  then show ?thesis by (simp add: round24_eq)
next
  case False
  let ?e = "bit_len (q * 2 ^ e) - 24"
  from False have q: "0 < q" by (auto intro: gr0I)
  have "2 ^ ?e dvd q * 2 ^ e"
  proof (cases "q = 2 ^ 24")
    case True
    have "bit_len ((2::nat) ^ 24) = 25"
      using bit_len_shift [of 1 24] by simp
    with True have "?e = Suc e" by (simp add: bit_len_shift)
    moreover have "q * 2 ^ e = 2 ^ 23 * 2 ^ Suc e" using True by simp
    ultimately show ?thesis by (metis dvd_triv_right)
  next
    case False
    with assms have "bit_len q \<le> 24" by (intro bit_len_less) simp
    then have "?e \<le> e" using q by (simp add: bit_len_shift)
    then show ?thesis by (intro dvd_mult le_imp_power_dvd)
  qed
  moreover have "(0::nat) < 2 ^ (?e - 1)" by simp
  ultimately show ?thesis using False
    by (simp add: round24_eq rounded_quot_def Let_def dvd_imp_mod_0)
qed

lemma round24_form: "\<exists>q e. round24 n = q * 2 ^ e \<and> q \<le> 2 ^ 24"
proof (cases "bit_len n \<le> 24")
  case True
  have "n \<le> 2 ^ 24"
  proof -
    have "n \<le> 2 ^ bit_len n" using bit_len_bounds [of n] by (cases "n = 0") auto
    also have "(2::nat) ^ bit_len n \<le> 2 ^ 24" using True by (intro power_increasing) auto
    finally show ?thesis .
  qed
  with True show ?thesis by (intro exI [of _ n] exI [of _ 0]) (simp add: round24_eq)
next
  case False
  then show ?thesis using round24_upper [of n] by (auto simp: round24_eq)
qed

lemma round24_scaled: "round24 (round24 n * 2 ^ k) = round24 n * 2 ^ k"
proof -
  obtain q e where q: "round24 n = q * 2 ^ e" "q \<le> 2 ^ 24" using round24_form by blast
  then have "round24 n * 2 ^ k = q * 2 ^ (e + k)" by (simp add: power_add)
  with q(2) show ?thesis by (simp add: round24_fixed)
qed

section \<open>Properties\<close>

text \<open>
  Property C27.  Compaction keeps the history valid: the cutoff is the first assistant message
  among the most recent \<open>keep\<close> ones, at least two messages are summarized, the messages from the
  cutoff on survive verbatim, the history gets strictly shorter, and it stays one user text
  followed by turns whose results answer their calls.
\<close>

theorem compaction_keeps_history:
  assumes "well_formed_history (cx_messages c)"
    and "pick_cutoff c keep = Some k"
  shows "well_formed_history (cx_messages (apply_summary c k summary)) \<and>
    tl (cx_messages (apply_summary c k summary)) = drop k (cx_messages c) \<and>
    2 \<le> k \<and> length (cx_messages c) - keep \<le> k \<and>
    cm_role (cx_messages c ! k) = Assistant \<and>
    (\<forall>j. length (cx_messages c) - keep \<le> j \<longrightarrow> j < k \<longrightarrow> cm_role (cx_messages c ! j) \<noteq> Assistant) \<and>
    context_len (apply_summary c k summary) < context_len c"
  using well_formed_summary [OF assms] pick_cutoff_Some [OF assms(2)]
    apply_summary_length [of k c summary]
  by (auto simp: apply_summary_def context_len_def)

definition sample_turn :: "string \<Rightarrow> context_message list" where
  "sample_turn i =
     [\<lparr>cm_role = Assistant, cm_content = CToolUse None [\<lparr>tc_id = i, tc_name = ''t'', tc_arguments = JNull\<rparr>]\<rparr>,
      \<lparr>cm_role = Tool, cm_content = CToolResults [\<lparr>tr_call_id = i, tr_content = [], tr_is_error = Some False\<rparr>]\<rparr>]"

definition sample_context :: conversation where
  "sample_context =
     \<lparr>cx_messages = \<lparr>cm_role = User, cm_content = CText ''go''\<rparr>
        # sample_turn ''a'' @ sample_turn ''b'' @ sample_turn ''c'', cx_system_prompt = None\<rparr>"

theorem compaction_keeps_history_witness:
  "well_formed_history (cx_messages (apply_summary sample_context 5 ''so far''))"
proof -
  have wf: "well_formed_history (cx_messages sample_context)"
    by (simp add: sample_context_def sample_turn_def well_formed_history_def answers_def)
  have pick: "pick_cutoff sample_context 3 = Some 5"
    by code_simp
  show ?thesis using compaction_keeps_history [OF wf pick] by blast
qed

text \<open>
  A threshold in \<open>(0, 1]\<close> always fires once the estimate reaches the context
  window, whatever the rounding of the single-precision arithmetic does; a threshold of zero
  or a zero limit never fires.
\<close>

theorem compaction_due_when_full:
  assumes "0 < limit" "limit \<le> used" "0 < t" "t \<le> 2 ^ k"
  shows "needs_compaction used limit (F t k) \<and> \<not> needs_compaction used limit (F 0 k) \<and>
    \<not> needs_compaction used 0 (F t k)"
proof -
  have "nat t \<le> 2 ^ k" using assms(3,4) by (simp add: nat_le_iff)
  then have "round24 (round24 limit * nat t) \<le> round24 (round24 limit * 2 ^ k)"
    by (intro round24_mono mult_left_mono) auto
  also have "\<dots> = round24 limit * 2 ^ k" by (rule round24_scaled)
  also have "\<dots> \<le> round24 used * 2 ^ k"
    using assms(2) by (intro mult_right_mono round24_mono) auto
  finally show ?thesis using assms by (simp add: needs_compaction_def f32_le_zero_def)
qed

theorem compaction_due_when_full_witness:
  "needs_compaction 200001 200000 (F 13421773 24)"
  using compaction_due_when_full [of 200000 200001 13421773 24] by simp

end
