(* ===== verification/Tools.thy ===== *)
theory Tools
  imports Messages
begin

text \<open>
  The tool registry (\<open>boitata-core/src/tools/mod.rs\<close>) and the permission policy
  (\<open>tools/policy.rs\<close>).

  A tool is the record of what its trait offers; executing it reads and changes the outside
  world \<open>'w\<close>, which the cancellation token is part of.  The registry is the map from
  names to tools; the order in which the hash map lists its keys is unspecified, so the
  functions that list it take that order as an argument.  Regular expressions belong to an
  external crate: \<open>compile\<close> and \<open>is_match\<close> are parameters, a compiled expression is its pattern.

  The locale \<open>keyed_registry\<close> is the interface the assembly code relies on: an insertion that
  reports whether it happened and never replaces an entry.
\<close>

section \<open>Tools and their errors\<close>

datatype tool_error =
    ToolNotFound string
  | InvalidArguments string string
  | ExecutionFailed string
  | ToolCancelled string
  | ToolOther string

fun show_tool_error :: "tool_error \<Rightarrow> string" where
  "show_tool_error (ToolNotFound n) = ''Tool not found: '' @ n"
| "show_tool_error (InvalidArguments name reason) =
     ''Invalid arguments for tool '' @ name @ '': '' @ reason"
| "show_tool_error (ExecutionFailed m) = ''Tool execution failed: '' @ m"
| "show_tool_error (ToolCancelled what) = what @ '' cancelled''"
| "show_tool_error (ToolOther m) = ''Other error: '' @ m"

type_synonym tool_output = "tool_content list"

definition output_text :: "string \<Rightarrow> tool_output" where
  "output_text t = [TText t]"

definition output_to_text :: "tool_output \<Rightarrow> string" where
  "output_to_text out = tool_content_text out"

record annotations =
  an_read_only :: bool
  an_destructive :: bool
  an_idempotent :: bool
  an_open_world :: bool

definition default_annotations :: annotations where
  "default_annotations =
     \<lparr>an_read_only = False, an_destructive = True, an_idempotent = False, an_open_world = False\<rparr>"

definition read_only_annotations :: annotations where
  "read_only_annotations =
     \<lparr>an_read_only = True, an_destructive = False, an_idempotent = True, an_open_world = False\<rparr>"

record 'w tool =
  tl_name :: string
  tl_description :: string
  tl_input_schema :: json
  tl_annotations :: annotations
  tl_execute :: "json \<Rightarrow> 'w \<Rightarrow> (tool_error + tool_output) \<times> 'w"

section \<open>The registry\<close>

type_synonym 'w registry = "string \<rightharpoonup> 'w tool"

definition new_registry :: "'w registry" where
  "new_registry = Map.empty"

definition register :: "'w registry \<Rightarrow> 'w tool \<Rightarrow> bool \<times> 'w registry" where
  "register reg t =
     (let name = tl_name t
      in if reg name \<noteq> None then (False, reg) else (True, reg(name \<mapsto> t)))"

definition execute_tool ::
    "'w registry \<Rightarrow> string \<Rightarrow> json \<Rightarrow> 'w \<Rightarrow> (tool_error + tool_output) \<times> 'w" where
  "execute_tool reg name args w =
     (case reg name of
        None \<Rightarrow> (Inl (ToolNotFound name), w)
      | Some t \<Rightarrow> tl_execute t args w)"

fun subset_onto :: "'w registry \<Rightarrow> 'w registry \<Rightarrow> string list \<Rightarrow> tool_error + 'w registry" where
  "subset_onto reg acc [] = Inr acc"
| "subset_onto reg acc (n # ns) =
     (case reg n of
        None \<Rightarrow> Inl (ToolNotFound n)
      | Some t \<Rightarrow> subset_onto reg (acc(n \<mapsto> t)) ns)"

definition registry_subset :: "'w registry \<Rightarrow> string list \<Rightarrow> tool_error + 'w registry" where
  "registry_subset reg names = subset_onto reg Map.empty names"

definition registry_annotations :: "'w registry \<Rightarrow> string \<Rightarrow> annotations option" where
  "registry_annotations reg name = map_option tl_annotations (reg name)"

definition has_tool :: "'w registry \<Rightarrow> string \<Rightarrow> bool" where
  "has_tool reg name \<longleftrightarrow> reg name \<noteq> None"

definition list_names :: "string list \<Rightarrow> 'w registry \<Rightarrow> string list" where
  "list_names order reg = filter (has_tool reg) order"

definition to_definitions :: "string list \<Rightarrow> 'w registry \<Rightarrow> tool_definition list" where
  "to_definitions order reg =
     List.map_filter (\<lambda>n. map_option (\<lambda>t. \<lparr>td_name = tl_name t, td_description = tl_description t,
        td_input_schema = tl_input_schema t\<rparr>) (reg n)) order"

section \<open>The permission policy\<close>

datatype policy_mode = AllowAll | ReadOnly

datatype decision = Allow | Deny string

record policy =
  po_mode :: policy_mode
  po_denied :: "string list"

fun compile_all :: "(string \<Rightarrow> 'e + string) \<Rightarrow> string list \<Rightarrow> 'e + string list" where
  "compile_all compile [] = Inr []"
| "compile_all compile (p # ps) =
     and_then (compile p) (\<lambda>r. and_then (compile_all compile ps) (\<lambda>rs. Inr (r # rs)))"

definition policy_new ::
    "(string \<Rightarrow> 'e + string) \<Rightarrow> policy_mode \<Rightarrow> string list \<Rightarrow> 'e + policy" where
  "policy_new compile mode patterns =
     and_then (compile_all compile patterns) (\<lambda>rs. Inr \<lparr>po_mode = mode, po_denied = rs\<rparr>)"

definition policy_allow_all :: policy where
  "policy_allow_all = \<lparr>po_mode = AllowAll, po_denied = []\<rparr>"

definition bt :: string where
  "bt = [CHR 0x60]"

definition decide ::
    "(string \<Rightarrow> string \<Rightarrow> bool) \<Rightarrow> policy \<Rightarrow> string \<Rightarrow> annotations option \<Rightarrow> json \<Rightarrow> decision" where
  "decide is_match p tool_name ann args =
     (if po_mode p = ReadOnly \<and> \<not> (case ann of Some a \<Rightarrow> an_read_only a | None \<Rightarrow> False) then
        Deny (''tool '' @ bt @ tool_name @ bt @ '' may modify state, but the tool policy is read-only'')
      else if tool_name = ''execute_command'' \<and> po_denied p \<noteq> [] then
        (case Option.bind (jget args ''command'') as_str of
           Some command \<Rightarrow>
             (case find (\<lambda>re. is_match re command) (po_denied p) of
                Some re \<Rightarrow> Deny (''command blocked by policy (matched '' @ bt @ re @ bt @ '')'')
              | None \<Rightarrow> Allow)
         | None \<Rightarrow>
             Deny (''execute_command called without an inspectable '' @ bt @ ''command'' @ bt @
                   '' string while a command denylist is active''))
      else Allow)"

section \<open>The registration interface\<close>

locale keyed_registry =
  fixes add :: "'t \<Rightarrow> 'v \<Rightarrow> bool \<times> 't"
    and key :: "'v \<Rightarrow> string"
    and look :: "'t \<Rightarrow> string \<Rightarrow> 'v option"
  assumes add_fresh: "look t (key v) = None \<Longrightarrow>
      fst (add t v) \<and> look (snd (add t v)) = (look t)(key v \<mapsto> v)"
    and add_taken: "look t (key v) \<noteq> None \<Longrightarrow> \<not> fst (add t v) \<and> look (snd (add t v)) = look t"
begin

definition add_all :: "'t \<Rightarrow> 'v list \<Rightarrow> 't" where
  "add_all t vs = foldl (\<lambda>t v. snd (add t v)) t vs"

lemma look_add: "look (snd (add t v)) k =
    (if k = key v \<and> look t k = None then Some v else look t k)"
  using add_fresh [of t v] add_taken [of t v] by (cases "look t (key v)") auto

lemma look_add_all:
  "look (add_all t vs) k = or_opt (look t k) (find (\<lambda>v. key v = k) vs)"
proof (induction vs arbitrary: t)
  case Nil
  then show ?case by (cases "look t k") (simp_all add: add_all_def)
next
  case (Cons v vs)
  have "add_all t (v # vs) = add_all (snd (add t v)) vs" by (simp add: add_all_def)
  with Cons [of "snd (add t v)"] show ?case
    by (cases "look t k") (auto simp: look_add)
qed

lemma add_all_keeps: "look t k = Some v \<Longrightarrow> look (add_all t vs) k = Some v"
  by (simp add: look_add_all)

lemma add_all_keyed:
  assumes "\<And>k v. look t k = Some v \<Longrightarrow> key v = k" and "look (add_all t vs) k = Some v"
  shows "key v = k"
  using assms by (cases "look t k") (auto simp: look_add_all find_Some_iff)

end

interpretation tool_table: keyed_registry register tl_name "\<lambda>reg. reg"
  by unfold_locales (auto simp: register_def Let_def)

section \<open>Lemmas\<close>

lemma subset_onto_Inr:
  "subset_onto reg acc ns = Inr sub \<longleftrightarrow>
     (\<forall>n \<in> set ns. reg n \<noteq> None) \<and> sub = (\<lambda>k. if k \<in> set ns then reg k else acc k)"
proof (induction ns arbitrary: acc)
  case Nil
  then show ?case by auto
next
  case (Cons n ns)
  show ?case
  proof (cases "reg n")
    case None
    then show ?thesis by simp
  next
    case (Some t)
    have "(\<lambda>k. if k \<in> set ns then reg k else (acc(n \<mapsto> t)) k) =
          (\<lambda>k. if k \<in> set (n # ns) then reg k else acc k)"
      using Some by auto
    with Some Cons show ?thesis by simp
  qed
qed

lemma subset_onto_Inl:
  "subset_onto reg acc ns = Inl e \<Longrightarrow> \<exists>n \<in> set ns. e = ToolNotFound n \<and> reg n = None"
  by (induction ns arbitrary: acc) (auto split: option.splits)

lemma subset_Inr:
  "registry_subset reg ns = Inr sub \<longleftrightarrow>
     (\<forall>n \<in> set ns. reg n \<noteq> None) \<and> sub = (\<lambda>k. if k \<in> set ns then reg k else None)"
  by (simp add: registry_subset_def subset_onto_Inr)

lemma compile_all_Inl:
  "compile_all compile ps = Inl e \<Longrightarrow> \<exists>p \<in> set ps. compile p = Inl e"
  by (induction ps) (auto simp: and_then_def split: sum.splits)

lemma compile_all_length: "compile_all compile ps = Inr rs \<Longrightarrow> length rs = length ps"
  by (induction ps arbitrary: rs) (auto simp: and_then_Inr_iff)

lemma decide_Allow_iff:
  "decide is_match p name ann args = Allow \<longleftrightarrow>
     (po_mode p = ReadOnly \<longrightarrow> (\<exists>a. ann = Some a \<and> an_read_only a)) \<and>
     (name = ''execute_command'' \<and> po_denied p \<noteq> [] \<longrightarrow>
        (\<exists>cmd. Option.bind (jget args ''command'') as_str = Some cmd \<and>
               (\<forall>re \<in> set (po_denied p). \<not> is_match re cmd)))"
  by (cases ann) (auto simp: decide_def find_None_iff dest: find_Some_mem split: option.splits)

section \<open>Properties\<close>

text \<open>
  The policy gate, exactly: a call is allowed when and only when the read-only
  mode finds a read-only annotation and, for \<open>execute_command\<close> under a denylist, the command
  is a string that no pattern matches (so an unknown tool is denied in read-only mode and a
  command that cannot be inspected is denied under a denylist).  Tightening a policy, by the
  read-only mode or by more patterns, never allows a call that was denied.
\<close>

theorem policy_gate:
  "(decide is_match p name ann args = Allow \<longleftrightarrow>
     (po_mode p = ReadOnly \<longrightarrow> (\<exists>a. ann = Some a \<and> an_read_only a)) \<and>
     (name = ''execute_command'' \<and> po_denied p \<noteq> [] \<longrightarrow>
        (\<exists>cmd. Option.bind (jget args ''command'') as_str = Some cmd \<and>
               (\<forall>re \<in> set (po_denied p). \<not> is_match re cmd)))) \<and>
   (decide is_match \<lparr>po_mode = ReadOnly, po_denied = po_denied p @ extra\<rparr> name ann args = Allow \<longrightarrow>
      decide is_match p name ann args = Allow)"
  by (auto simp: decide_Allow_iff)

theorem policy_gate_witness:
  "decide (\<lambda>re cmd. contains_str cmd re) \<lparr>po_mode = AllowAll, po_denied = [''sudo'']\<rparr>
     ''execute_command'' None (JObj [(''command'', JStr ''ls'')]) = Allow"
  using policy_gate [of "\<lambda>re cmd. contains_str cmd re" "\<lparr>po_mode = AllowAll, po_denied = [''sudo'']\<rparr>"
      "''execute_command''" None "JObj [(''command'', JStr ''ls'')]" "[]"]
  by (simp add: jget_def as_str_def contains_str_def)

text \<open>
  Scoping a registry to a list of names succeeds exactly when every name is
  registered, and then holds those tools and nothing else; a failure names a listed tool that
  is not registered.
\<close>

lemma subset_exact:
  "(case registry_subset reg ns of
      Inr sub \<Rightarrow> sub = (\<lambda>k. if k \<in> set ns then reg k else None) \<and> list_all (has_tool reg) ns
    | Inl e \<Rightarrow> list_ex (\<lambda>n. e = ToolNotFound n \<and> \<not> has_tool reg n) ns)"
proof (cases "registry_subset reg ns")
  case (Inl e)
  then show ?thesis using subset_onto_Inl [of reg Map.empty ns e] by (auto simp: registry_subset_def list_ex_iff has_tool_def)
next
  case (Inr sub)
  then have "(\<forall>n \<in> set ns. reg n \<noteq> None) \<and> sub = (\<lambda>k. if k \<in> set ns then reg k else None)"
    by (rule iffD1 [OF subset_Inr])
  then show ?thesis unfolding Inr by (auto simp: list_all_iff has_tool_def)
qed

end
