(* ===== verification/Audit_Sinks.thy ===== *)
theory Audit_Sinks
  imports Prelude
begin

text \<open>
  Audit events and sinks (\<open>boitata-core/src/audit.rs\<close>, \<open>boitata-server/src/events.rs\<close>).

  The locale \<open>audit_sink\<close> is the \<open>AuditSink\<close> trait as its callers rely on it: recording is
  best effort, so what a sink holds is at most what it held before followed by the new event,
  in order.  It is interpreted on the log file of the command line and on the bounded replay
  buffer of the server.
\<close>

section \<open>Events\<close>

datatype node_kind = KindAgent | KindTool | KindScript | KindHuman | KindContainer

datatype node_status = NodeOk | NodeFailed

datatype completion_reason = RunDone | RunCancelled | RunStepLimit | RunError

datatype audit_event =
    RunStarted (ev_task: string) (ev_provider: string) (ev_model: string)
  | LlmResponse (ev_iteration: nat) (ev_has_text: bool) (ev_tool_calls: "string list")
      (ev_input_tokens: "nat option") (ev_output_tokens: "nat option")
  | ToolCallEvent (ev_iteration: nat) (ev_name: string) (ev_arguments: string)
      (ev_result: string) (ev_is_error: bool) (ev_read_only: bool)
  | ToolDenied (ev_iteration: nat) (ev_name: string) (ev_arguments: string) (ev_reason: string)
  | ContextCompacted (ev_iteration: nat) (ev_tokens_before: nat) (ev_tokens_after: nat)
      (ev_messages_before: nat) (ev_messages_after: nat)
  | RunCompleted (ev_success: bool) (ev_iterations: nat) (ev_error: "string option")
      (ev_total_input_tokens: nat) (ev_total_output_tokens: nat)
  | BlueprintStarted (ev_blueprint: string) (ev_entry: string)
  | BlueprintResumed (ev_blueprint: string) (ev_step: nat)
  | NodeExecuted (ev_step: nat) (ev_node: string) (ev_kind: node_kind) (ev_status: node_status)
      (ev_next: string) (ev_output: string)
  | SuperStepRetried (ev_step: nat) (ev_attempt: nat) (ev_retry_error: string)
  | BlueprintCompleted (ev_steps: nat) (ev_completion: completion_reason)

section \<open>The sink interface\<close>

locale audit_sink =
  fixes put :: "'k \<Rightarrow> audit_event \<Rightarrow> 'k"
    and held :: "'k \<Rightarrow> audit_event list"
  assumes put_best_effort: "subseq (held (put k e)) (held k @ [e])"
begin

lemma put_all_best_effort: "subseq (held (foldl put k es)) (held k @ es)"
proof (induction es arbitrary: k)
  case Nil
  then show ?case by simp
next
  case (Cons e es)
  have "subseq (held (put k e) @ es) ((held k @ [e]) @ es)"
    by (intro list_emb_append_mono put_best_effort subseq_order.refl)
  with Cons [of "put k e"] show ?case by (auto intro: subseq_order.trans)
qed

end

section \<open>The log file\<close>

text \<open>
  One JSON line per event.  \<open>ser\<close> is the serializer with the timestamp (\<open>None\<close> on an error),
  \<open>writable\<close> says whether the write with that number succeeds; \<open>fl_events\<close> are the events
  whose lines are in the file, \<open>fl_calls\<close> counts the records.
\<close>

record file_log =
  fl_run_id :: string
  fl_calls :: nat
  fl_lines :: "string list"
  fl_events :: "audit_event list"

definition file_record ::
    "(string \<Rightarrow> nat \<Rightarrow> audit_event \<Rightarrow> string option) \<Rightarrow> (nat \<Rightarrow> bool) \<Rightarrow> file_log \<Rightarrow> audit_event \<Rightarrow> file_log" where
  "file_record ser writable k e =
     (let n = fl_calls k; k1 = k\<lparr>fl_calls := Suc n\<rparr> in
      case ser (fl_run_id k) n e of
        None \<Rightarrow> k1
      | Some line \<Rightarrow>
          if writable n
          then k1\<lparr>fl_lines := fl_lines k @ [line], fl_events := fl_events k @ [e]\<rparr>
          else k1)"

interpretation file_sink: audit_sink "file_record ser writable" fl_events for ser writable
  by unfold_locales (auto simp: file_record_def Let_def split: option.splits)

section \<open>The replay buffer\<close>

text \<open>
  \<open>ChannelAuditSink\<close>: the sequence counter, the bounded history and the broadcast channel,
  given as everything sent so far.
\<close>

record run_event =
  re_seq :: nat
  re_event :: audit_event

record channel_sink =
  cs_seq :: nat
  cs_history :: "run_event list"
  cs_sent :: "run_event list"

definition max_history :: nat where
  "max_history = 10000"

definition trim_batch :: nat where
  "trim_batch = 2000"

definition new_channel_sink :: channel_sink where
  "new_channel_sink = \<lparr>cs_seq = 0, cs_history = [], cs_sent = []\<rparr>"

definition channel_record :: "channel_sink \<Rightarrow> audit_event \<Rightarrow> channel_sink" where
  "channel_record k e =
     (let ev = \<lparr>re_seq = cs_seq k, re_event = e\<rparr>;
          h = cs_history k @ [ev];
          h' = (if max_history + trim_batch < length h then drop trim_batch h else h)
      in k\<lparr>cs_seq := Suc (cs_seq k), cs_history := h', cs_sent := cs_sent k @ [ev]\<rparr>)"

definition replay_events :: "channel_sink \<Rightarrow> audit_event list" where
  "replay_events k = map re_event (cs_history k)"

interpretation replay_sink: audit_sink channel_record replay_events
  by unfold_locales
    (auto simp: channel_record_def replay_events_def Let_def simp flip: drop_map intro: subseq_drop_many)

text \<open>The buffer is always a contiguous tail of everything sent, numbered from the counter.\<close>

definition replay_inv :: "channel_sink \<Rightarrow> bool" where
  "replay_inv k \<longleftrightarrow>
     length (cs_sent k) = cs_seq k \<and> map re_seq (cs_sent k) = [0..<cs_seq k] \<and>
     suffix (cs_history k) (cs_sent k) \<and>
     length (cs_history k) \<le> max_history + trim_batch \<and>
     (length (cs_history k) < max_history \<longrightarrow> cs_history k = cs_sent k)"

lemma replay_inv_new [simp]: "replay_inv new_channel_sink"
  by (simp add: replay_inv_def new_channel_sink_def)

lemma suffix_snoc: "suffix xs ys \<Longrightarrow> suffix (xs @ [z]) (ys @ [z])"
  by (auto simp: suffix_def)

lemma replay_inv_record:
  assumes "replay_inv k"
  shows "replay_inv (channel_record k e)"
proof -
  let ?ev = "\<lparr>re_seq = cs_seq k, re_event = e\<rparr>"
  from assms have suf: "suffix (cs_history k @ [?ev]) (cs_sent k @ [?ev])"
    by (simp add: replay_inv_def suffix_snoc)
  then have "suffix (drop trim_batch (cs_history k @ [?ev])) (cs_sent k @ [?ev])"
    by (rule suffix_order.trans [OF suffix_drop])
  with suf assms show ?thesis
    by (auto simp: replay_inv_def channel_record_def Let_def max_history_def trim_batch_def)
qed

lemma replay_inv_all: "replay_inv k \<Longrightarrow> replay_inv (foldl channel_record k es)"
  by (induction es arbitrary: k) (auto intro: replay_inv_record)

lemma channel_record_sent:
  "map re_event (cs_sent (foldl channel_record k es)) = map re_event (cs_sent k) @ es"
  by (induction es arbitrary: k) (auto simp: channel_record_def Let_def)

section \<open>Properties\<close>

text \<open>
  The server's replay buffer: after any sequence of events the buffer is a
  contiguous tail of everything recorded, in order and with consecutive sequence numbers from
  zero, it never holds more than 12000 events, and never fewer than the last 10000.
\<close>

theorem replay_buffer_tail:
  "let k = foldl channel_record new_channel_sink es in
   suffix (replay_events k) es \<and> map re_seq (cs_sent k) = [0..<length es] \<and>
   length (replay_events k) \<le> 12000 \<and> min 10000 (length es) \<le> length (replay_events k)"
proof -
  let ?k = "foldl channel_record new_channel_sink es"
  have inv: "replay_inv ?k" by (simp add: replay_inv_all)
  have sent: "map re_event (cs_sent ?k) = es"
    using channel_record_sent [of new_channel_sink es] by (simp add: new_channel_sink_def)
  then have "cs_seq ?k = length es"
    using inv by (metis length_map replay_inv_def)
  moreover have "suffix (replay_events ?k) es"
    using inv sent by (metis map_mono_suffix replay_events_def replay_inv_def)
  ultimately show ?thesis
    using inv sent
    by (cases "length (cs_history ?k) < max_history")
      (auto simp: Let_def replay_inv_def replay_events_def max_history_def trim_batch_def)
qed

text \<open>
  Whatever the serializer and the disk do, the log file holds a subsequence of the
  recorded events in their order: an audit failure loses lines, it never reorders or invents
  them.
\<close>

lemma file_log_subsequence:
  "subseq (fl_events (foldl (file_record ser writable)
     \<lparr>fl_run_id = rid, fl_calls = 0, fl_lines = [], fl_events = []\<rparr> es)) es"
  using file_sink.put_all_best_effort
    [of ser writable "\<lparr>fl_run_id = rid, fl_calls = 0, fl_lines = [], fl_events = []\<rparr>" es]
  by simp

end
