(* ===== verification/Agent_Loop.thy ===== *)
theory Agent_Loop
  imports Conversation Tools Audit_Sinks
begin

text \<open>
  The agent loop (\<open>boitata-agent/src/lib.rs\<close>): the agent's configuration, one iteration
  (compaction, request, response, tool calls), and the bounded loop around it.

  The outside world \<open>'w\<close> is threaded through the run: a provider call and a tool call read and
  change it, and the cancellation token is a predicate on it.  A provider call raced against
  cancellation returns \<open>None\<close> when the cancellation wins; the race is biased, so a token that is
  cancelled already always wins.  \<open>rn_requests\<close> and \<open>rn_executed\<close> record what was sent to the
  provider and which tool calls ran; nothing reads them back.
\<close>

section \<open>Tasks and agents\<close>

record task =
  tk_description :: string
  tk_workspace :: "string option"
  tk_max_iterations :: "nat option"

definition new_task :: "string \<Rightarrow> task" where
  "new_task d = \<lparr>tk_description = d, tk_workspace = None, tk_max_iterations = None\<rparr>"

definition task_with_workspace :: "task \<Rightarrow> string \<Rightarrow> task" where
  "task_with_workspace t ws = t\<lparr>tk_workspace := Some ws\<rparr>"

definition task_with_max_iterations :: "task \<Rightarrow> nat \<Rightarrow> task" where
  "task_with_max_iterations t n = t\<lparr>tk_max_iterations := Some n\<rparr>"

record tool_call_summary =
  sm_name :: string
  sm_arguments :: string
  sm_result :: string
  sm_is_error :: bool

record task_result =
  rs_success :: bool
  rs_final_message :: "string option"
  rs_iterations :: nat
  rs_tool_calls :: "tool_call_summary list"
  rs_error :: "string option"

record 'w agent =
  ag_provider :: provider
  ag_tools :: "'w registry"
  ag_tool_order :: "string list"
  ag_max_iterations :: nat
  ag_system_prompt :: string
  ag_audit :: bool
  ag_policy :: policy
  ag_compact_threshold :: f32

text \<open>\<open>0.8f32\<close> is \<open>13421773 / 2 ^ 24\<close>.\<close>

definition default_compact_threshold :: f32 where
  "default_compact_threshold = F 13421773 24"

definition new_agent :: "provider \<Rightarrow> 'w registry \<Rightarrow> string list \<Rightarrow> string \<Rightarrow> 'w agent" where
  "new_agent p tools order default_prompt =
     \<lparr>ag_provider = p, ag_tools = tools, ag_tool_order = order, ag_max_iterations = 50,
      ag_system_prompt = default_prompt, ag_audit = False, ag_policy = policy_allow_all,
      ag_compact_threshold = default_compact_threshold\<rparr>"

text \<open>The instructions an agent starts with.\<close>

definition default_system_prompt :: string where
  "default_system_prompt =
     ''You are Boitata, a coding agent designed to help developers complete tasks efficiently.'' @ [CHR 0x0A] @
     [CHR 0x0A] @ ''Your role:'' @ [CHR 0x0A] @ ''- Read and understand code'' @ [CHR 0x0A] @
     ''- Execute tools to modify files, run commands, and gather information'' @ [CHR 0x0A] @
     ''- Complete the task you'' @ [CHR 0x27] @ ''ve been given'' @ [CHR 0x0A] @ [CHR 0x0A] @ ''Guidelines:'' @ [CHR 0x0A] @
     ''- Be concise and direct'' @ [CHR 0x0A] @
     ''- Read files with file_read; write them with file_write; find code with search'' @ [CHR 0x0A] @
     ''- Prefer the dedicated deterministic tools over execute_command: use cargo_check,'' @ [CHR 0x0A] @
     ''  cargo_clippy, cargo_fmt, cargo_test, and cargo_add for Rust work, and git_status,'' @ [CHR 0x0A] @
     ''  git_diff, git_commit, and git_branch for version control'' @ [CHR 0x0A] @
     ''- Fall back to execute_command only for operations without a dedicated tool'' @ [CHR 0x0A] @
     ''- Always verify your changes work (e.g. cargo_check / cargo_test) before finishing'' @ [CHR 0x0A] @
     ''- If you make a mistake, acknowledge it and fix it'' @ [CHR 0x0A] @ [CHR 0x0A] @
     ''The task is complete when you have:'' @ [CHR 0x0A] @ ''1. Made the requested changes'' @ [CHR 0x0A] @
     ''2. Verified they work (ran tests if applicable)'' @ [CHR 0x0A] @ ''3. Have no more tool calls to make'' @
     [CHR 0x0A] @ [CHR 0x0A] @ ''When finished, provide a brief summary of what you did.''"

definition with_policy :: "'w agent \<Rightarrow> policy \<Rightarrow> 'w agent" where
  "with_policy ag p = ag\<lparr>ag_policy := p\<rparr>"

definition with_compact_threshold :: "'w agent \<Rightarrow> f32 \<Rightarrow> 'w agent" where
  "with_compact_threshold ag x =
     ag\<lparr>ag_compact_threshold := (if x = NaN then default_compact_threshold else f32_clamp01 x)\<rparr>"

definition with_system_prompt :: "'w agent \<Rightarrow> string \<Rightarrow> 'w agent" where
  "with_system_prompt ag p = ag\<lparr>ag_system_prompt := p\<rparr>"

definition with_max_iterations :: "'w agent \<Rightarrow> nat \<Rightarrow> 'w agent" where
  "with_max_iterations ag n = ag\<lparr>ag_max_iterations := n\<rparr>"

definition with_audit :: "'w agent \<Rightarrow> 'w agent" where
  "with_audit ag = ag\<lparr>ag_audit := True\<rparr>"

section \<open>The run\<close>

record 'w env =
  en_complete :: "completion_request \<Rightarrow> 'w \<Rightarrow> (provider_error + completion_response) option \<times> 'w"
  en_cancelled :: "'w \<Rightarrow> bool"
  en_bpe :: "(string \<Rightarrow> nat) option"
  en_jtext :: "json \<Rightarrow> string"
  en_is_match :: "string \<Rightarrow> string \<Rightarrow> bool"

record 'w run =
  rn_world :: 'w
  rn_context :: conversation
  rn_tool_calls :: "tool_call_summary list"
  rn_input :: nat
  rn_output :: nat
  rn_events :: "audit_event list"
  rn_requests :: "completion_request list"
  rn_executed :: "(string \<times> json) list"

definition emit :: "'w agent \<Rightarrow> audit_event \<Rightarrow> 'w run \<Rightarrow> 'w run" where
  "emit ag e r = (if ag_audit ag then r\<lparr>rn_events := rn_events r @ [e]\<rparr> else r)"

definition complete_or_cancel ::
    "'w env \<Rightarrow> completion_request \<Rightarrow> 'w run \<Rightarrow>
     (provider_error + completion_response) option \<times> 'w run" where
  "complete_or_cancel env q r =
     (if en_cancelled env (rn_world r) then (None, r)
      else let (res, w) = en_complete env q (rn_world r)
           in (res, r\<lparr>rn_world := w, rn_requests := rn_requests r @ [q]\<rparr>))"

definition cancelled_result :: "'w agent \<Rightarrow> nat \<Rightarrow> 'w run \<Rightarrow> task_result \<times> 'w run" where
  "cancelled_result ag iterations r =
     (\<lparr>rs_success = False, rs_final_message = None, rs_iterations = iterations,
       rs_tool_calls = rn_tool_calls r, rs_error = Some ''Cancelled''\<rparr>,
      emit ag (RunCompleted False iterations (Some ''Cancelled'') (rn_input r) (rn_output r)) r)"

definition build_request :: "'w agent \<Rightarrow> conversation \<Rightarrow> tool_definition list \<Rightarrow> completion_request" where
  "build_request ag c defs =
     \<lparr>req_messages = to_messages c,
      req_tools = (if pv_supports_tools (ag_provider ag) then Some defs else None),
      req_max_tokens = Some (pv_max_tokens (ag_provider ag)),
      req_temperature = Some ''0.7'', req_system = Some (ag_system_prompt ag)\<rparr>"

definition summary_request :: "'w agent \<Rightarrow> string \<Rightarrow> string \<Rightarrow> completion_request" where
  "summary_request ag sys_prompt body =
     \<lparr>req_messages = [\<lparr>msg_role = User, msg_content = MText body\<rparr>], req_tools = None,
      req_max_tokens = Some (pv_max_tokens (ag_provider ag)),
      req_temperature = Some ''0.3'', req_system = Some sys_prompt\<rparr>"

text \<open>
  The system prompt of a summary is the argument \<open>sum_prompt\<close>; the code's is
  \<open>summarization_system_prompt\<close>, and nothing below depends on its wording.
\<close>

definition maybe_compact ::
    "'w agent \<Rightarrow> 'w env \<Rightarrow> string \<Rightarrow> nat \<Rightarrow> nat \<Rightarrow> 'w run \<Rightarrow> 'w run" where
  "maybe_compact ag env sum_prompt tool_tokens iteration r =
     (if f32_le_zero (ag_compact_threshold ag) then r
      else
        let c = rn_context r;
            used = token_count (en_bpe env) (en_jtext env) c tool_tokens
        in if \<not> needs_compaction used (pv_context_limit (ag_provider ag)) (ag_compact_threshold ag)
           then r
           else (case pick_cutoff c keep_recent_messages of
              None \<Rightarrow> r
            | Some cutoff \<Rightarrow>
                (case complete_or_cancel env
                        (summary_request ag sum_prompt (render_for_summary (en_jtext env) c cutoff)) r of
                   (None, r1) \<Rightarrow> r1
                 | (Some (Inl e), r1) \<Rightarrow> r1
                 | (Some (Inr response), r1) \<Rightarrow>
                     let summary = unwrap_or '''' (resp_content response)
                     in if trim summary = '''' then r1
                        else let c2 = apply_summary c cutoff summary
                             in emit ag (ContextCompacted (iteration + 1) used
                                   (token_count (en_bpe env) (en_jtext env) c2 tool_tokens)
                                   (context_len c) (context_len c2))
                                 (r1\<lparr>rn_context := c2\<rparr>))))"

definition execute_tool_call ::
    "'w agent \<Rightarrow> tool_call \<Rightarrow> 'w run \<Rightarrow> (string + tool_output) \<times> 'w run" where
  "execute_tool_call ag call r =
     (let (res, w) = execute_tool (ag_tools ag) (tc_name call) (tc_arguments call) (rn_world r)
      in (map_err (\<lambda>e. ''Tool execution error: '' @ show_tool_error e) res,
          r\<lparr>rn_world := w, rn_executed := rn_executed r @ [(tc_name call, tc_arguments call)]\<rparr>))"

text \<open>One tool call of a response, up to the cancellation check at the end of the loop body.\<close>

definition handle_call :: "'w agent \<Rightarrow> 'w env \<Rightarrow> nat \<Rightarrow> tool_call \<Rightarrow> 'w run \<Rightarrow> 'w run" where
  "handle_call ag env iteration call r =
     (let ann = registry_annotations (ag_tools ag) (tc_name call);
          args = en_jtext env (tc_arguments call);
          (output, is_error, denied, r1) =
            (case decide (en_is_match env) (ag_policy ag) (tc_name call) ann (tc_arguments call) of
               Deny reason \<Rightarrow>
                 (output_text (''Denied by tool policy: '' @ reason), True, True,
                  emit ag (ToolDenied (iteration + 1) (tc_name call) args reason) r)
             | Allow \<Rightarrow>
                 (case execute_tool_call ag call r of
                    (Inr out, r') \<Rightarrow> (out, False, False, r')
                  | (Inl e, r') \<Rightarrow> (output_text (''Error: '' @ e), True, False, r')));
          body = output_to_text output;
          read_only = (case ann of Some a \<Rightarrow> an_read_only a | None \<Rightarrow> False);
          r2 = (if denied then r1
                else emit ag (ToolCallEvent (iteration + 1) (tc_name call) args body is_error read_only) r1)
      in r2\<lparr>rn_tool_calls := rn_tool_calls r2 @
              [\<lparr>sm_name = tc_name call, sm_arguments = args, sm_result = body, sm_is_error = is_error\<rparr>],
            rn_context := add_tool_result (rn_context r2) (tc_id call) output is_error\<rparr>)"

fun handle_calls :: "'w agent \<Rightarrow> 'w env \<Rightarrow> nat \<Rightarrow> tool_call list \<Rightarrow> 'w run \<Rightarrow> 'w run" where
  "handle_calls ag env iteration [] r = r"
| "handle_calls ag env iteration (call # calls) r =
     (let r1 = handle_call ag env iteration call r
      in if en_cancelled env (rn_world r1) then r1
         else handle_calls ag env iteration calls r1)"

text \<open>An iteration returns from the run or goes on to the next one.\<close>

datatype 'w flow = Return "string + task_result" "'w run" | Continue "'w run"

definition provider_failure :: "provider_error \<Rightarrow> string" where
  "provider_failure e =
     (if e = ContextLengthExceeded then ''Context length exceeded - task too complex''
      else ''Provider error: '' @ show_provider_error e)"

definition handle_response ::
    "'w agent \<Rightarrow> 'w env \<Rightarrow> nat \<Rightarrow> completion_response \<Rightarrow> 'w run \<Rightarrow> 'w flow" where
  "handle_response ag env iteration response r =
     (let (ins, outs, r1) =
            (case resp_usage response of
               Some u \<Rightarrow> (Some (input_tokens u), Some (output_tokens u),
                          r\<lparr>rn_input := rn_input r + input_tokens u,
                            rn_output := rn_output r + output_tokens u\<rparr>)
             | None \<Rightarrow> (None, None, r));
          r2 = emit ag (LlmResponse (iteration + 1)
                 (case resp_content response of Some c \<Rightarrow> c \<noteq> '''' | None \<Rightarrow> False)
                 (map tc_name (resp_tool_calls response)) ins outs) r1
      in if resp_tool_calls response = [] then
           Return (Inr \<lparr>rs_success = True, rs_final_message = resp_content response,
                        rs_iterations = iteration + 1, rs_tool_calls = rn_tool_calls r2,
                        rs_error = None\<rparr>)
             (emit ag (RunCompleted True (iteration + 1) None (rn_input r2) (rn_output r2)) r2)
         else
           let r3 = r2\<lparr>rn_context := add_assistant_tool_use (rn_context r2)
                         (resp_content response) (resp_tool_calls response)\<rparr>;
               r4 = handle_calls ag env iteration (resp_tool_calls response) r3
           in if en_cancelled env (rn_world r4)
              then (case cancelled_result ag (iteration + 1) r4 of (res, r5) \<Rightarrow> Return (Inr res) r5)
              else Continue r4)"

definition run_iteration ::
    "'w agent \<Rightarrow> 'w env \<Rightarrow> string \<Rightarrow> tool_definition list \<Rightarrow> nat \<Rightarrow> nat \<Rightarrow> 'w run \<Rightarrow> 'w flow" where
  "run_iteration ag env sum_prompt defs tool_tokens iteration r =
     (let r1 = maybe_compact ag env sum_prompt tool_tokens iteration r
      in case complete_or_cancel env (build_request ag (rn_context r1) defs) r1 of
           (None, r2) \<Rightarrow>
             (case cancelled_result ag (iteration + 1) r2 of (res, r3) \<Rightarrow> Return (Inr res) r3)
         | (Some (Inl e), r2) \<Rightarrow>
             Return (Inl (provider_failure e))
               (emit ag (RunCompleted False (iteration + 1) (Some (provider_failure e))
                  (rn_input r2) (rn_output r2)) r2)
         | (Some (Inr response), r2) \<Rightarrow> handle_response ag env iteration response r2)"

definition max_iterations_result :: "'w agent \<Rightarrow> nat \<Rightarrow> 'w run \<Rightarrow> (string + task_result) \<times> 'w run" where
  "max_iterations_result ag n r =
     (Inr \<lparr>rs_success = False, rs_final_message = None, rs_iterations = n,
           rs_tool_calls = rn_tool_calls r, rs_error = Some ''Max iterations reached''\<rparr>,
      emit ag (RunCompleted False n (Some ''Max iterations reached'') (rn_input r) (rn_output r)) r)"

function run_loop ::
    "'w agent \<Rightarrow> 'w env \<Rightarrow> string \<Rightarrow> tool_definition list \<Rightarrow> nat \<Rightarrow> nat \<Rightarrow> nat \<Rightarrow> 'w run \<Rightarrow>
     (string + task_result) \<times> 'w run" where
  "run_loop ag env sum_prompt defs tool_tokens max_iterations iteration r =
     (if iteration < max_iterations then
        (case run_iteration ag env sum_prompt defs tool_tokens iteration r of
           Return res r1 \<Rightarrow> (res, r1)
         | Continue r1 \<Rightarrow> run_loop ag env sum_prompt defs tool_tokens max_iterations (iteration + 1) r1)
      else max_iterations_result ag max_iterations r)"
  by pat_completeness auto
termination
  by (relation "measure (\<lambda>(ag, env, sum_prompt, defs, tool_tokens, max_iterations, iteration, r).
        max_iterations - iteration)") auto

declare run_loop.simps [simp del]

definition start_run :: "'w agent \<Rightarrow> task \<Rightarrow> 'w \<Rightarrow> 'w run" where
  "start_run ag t w =
     emit ag (RunStarted (tk_description t) (pv_name (ag_provider ag)) (pv_model (ag_provider ag)))
       \<lparr>rn_world = w,
        rn_context = add_user_message (set_system_prompt new_context (ag_system_prompt ag)) (tk_description t),
        rn_tool_calls = [], rn_input = 0, rn_output = 0, rn_events = [], rn_requests = [],
        rn_executed = []\<rparr>"

definition run_with_cancel ::
    "'w agent \<Rightarrow> 'w env \<Rightarrow> string \<Rightarrow> task \<Rightarrow> 'w \<Rightarrow> (string + task_result) \<times> 'w run" where
  "run_with_cancel ag env sum_prompt t w =
     (let max_iterations = unwrap_or (ag_max_iterations ag) (tk_max_iterations t);
          defs = (if pv_supports_tools (ag_provider ag)
                  then to_definitions (ag_tool_order ag) (ag_tools ag) else []);
          tool_tokens = count_tokens_for_tools (en_bpe env) (en_jtext env) defs
      in run_loop ag env sum_prompt defs tool_tokens max_iterations 0 (start_run ag t w))"

text \<open>
  \<open>run\<close>: the token is fresh and is cancelled by an interrupt of the user; \<open>interrupted\<close> says whether
  one has arrived.
\<close>

definition agent_run ::
    "'w agent \<Rightarrow> 'w env \<Rightarrow> ('w \<Rightarrow> bool) \<Rightarrow> string \<Rightarrow> task \<Rightarrow> 'w \<Rightarrow> (string + task_result) \<times> 'w run" where
  "agent_run ag env interrupted sum_prompt t w =
     run_with_cancel ag (env\<lparr>en_cancelled := interrupted\<rparr>) sum_prompt t w"

section \<open>What each operation changes\<close>

lemma emit_simps [simp]:
  "rn_world (emit ag e r) = rn_world r"
  "rn_context (emit ag e r) = rn_context r"
  "rn_tool_calls (emit ag e r) = rn_tool_calls r"
  "rn_input (emit ag e r) = rn_input r"
  "rn_output (emit ag e r) = rn_output r"
  "rn_requests (emit ag e r) = rn_requests r"
  "rn_executed (emit ag e r) = rn_executed r"
  "rn_events (emit ag e r) = (if ag_audit ag then rn_events r @ [e] else rn_events r)"
  by (simp_all add: emit_def)

lemma complete_or_cancel_effect:
  assumes "complete_or_cancel env q r = (res, r1)"
  shows "rn_context r1 = rn_context r \<and> rn_tool_calls r1 = rn_tool_calls r \<and>
    rn_input r1 = rn_input r \<and> rn_output r1 = rn_output r \<and> rn_events r1 = rn_events r \<and>
    rn_executed r1 = rn_executed r \<and>
    (rn_requests r1 = rn_requests r \<or> rn_requests r1 = rn_requests r @ [q])"
  using assms
  by (auto simp: complete_or_cancel_def Let_def split: if_splits prod.splits)

lemma maybe_compact_effect:
  assumes "r1 = maybe_compact ag env sp tt i r"
  shows "rn_executed r1 = rn_executed r \<and> rn_tool_calls r1 = rn_tool_calls r \<and>
    (rn_requests r1 = rn_requests r \<or> (\<exists>b. rn_requests r1 = rn_requests r @ [summary_request ag sp b])) \<and>
    (rn_context r1 = rn_context r \<or>
      (\<exists>k s. pick_cutoff (rn_context r) keep_recent_messages = Some k \<and>
             rn_context r1 = apply_summary (rn_context r) k s)) \<and>
    (\<exists>es. rn_events r1 = rn_events r @ es \<and> list_all is_ContextCompacted es \<and>
          (\<not> ag_audit ag \<longrightarrow> es = []))"
  unfolding assms maybe_compact_def Let_def
  by (auto split: option.split sum.split prod.split dest!: complete_or_cancel_effect)

definition may_run :: "'w agent \<Rightarrow> 'w env \<Rightarrow> string \<times> json \<Rightarrow> bool" where
  "may_run ag env call =
     (decide (en_is_match env) (ag_policy ag) (fst call)
        (registry_annotations (ag_tools ag) (fst call)) (snd call) = Allow)"

definition is_tool_event :: "audit_event \<Rightarrow> bool" where
  "is_tool_event e \<longleftrightarrow> is_ToolCallEvent e \<or> is_ToolDenied e"

text \<open>The tool calls an audit trail says were executed.\<close>

definition logged_calls :: "audit_event list \<Rightarrow> (string \<times> string) list" where
  "logged_calls es = map (\<lambda>e. (ev_name e, ev_arguments e)) (filter is_ToolCallEvent es)"

lemma logged_calls_append [simp]: "logged_calls (xs @ ys) = logged_calls xs @ logged_calls ys"
  by (simp add: logged_calls_def)

lemma logged_calls_Nil [simp]: "logged_calls [] = []"
  by (simp add: logged_calls_def)

lemma logged_calls_none: "list_all (\<lambda>e. \<not> is_ToolCallEvent e) es \<Longrightarrow> logged_calls es = []"
  by (auto simp: logged_calls_def list_all_iff filter_empty_conv)

definition call_log :: "'w agent \<Rightarrow> 'w env \<Rightarrow> tool_call \<Rightarrow> (string \<times> json) list" where
  "call_log ag env call =
     (if may_run ag env (tc_name call, tc_arguments call) then [(tc_name call, tc_arguments call)] else [])"

lemma call_log_allowed [simp]: "list_all (may_run ag env) (call_log ag env call)"
  by (simp add: call_log_def)

lemma handle_call_forms:
  "\<exists>w e out err. handle_call ag env i call r =
     emit ag e (r\<lparr>rn_world := w, rn_executed := rn_executed r @ call_log ag env call,
       rn_tool_calls := rn_tool_calls r @
        [\<lparr>sm_name = tc_name call, sm_arguments = en_jtext env (tc_arguments call),
          sm_result = output_to_text out, sm_is_error = err\<rparr>],
       rn_context := add_tool_result (rn_context r) (tc_id call) out err\<rparr>) \<and>
   (if may_run ag env (tc_name call, tc_arguments call)
    then \<exists>n s ro. e = ToolCallEvent n (tc_name call) (en_jtext env (tc_arguments call)) s err ro
    else is_ToolDenied e)"
proof (cases "decide (en_is_match env) (ag_policy ag) (tc_name call)
    (registry_annotations (ag_tools ag) (tc_name call)) (tc_arguments call)")
  case (Deny reason)
  then show ?thesis
    by (intro exI [of _ "rn_world r"] exI [of _ True]
        exI [of _ "ToolDenied (i + 1) (tc_name call) (en_jtext env (tc_arguments call)) reason"]
        exI [of _ "output_text (''Denied by tool policy: '' @ reason)"])
      (simp add: handle_call_def may_run_def call_log_def emit_def Let_def)
next
  case Allow
  obtain res w where ex: "execute_tool (ag_tools ag) (tc_name call) (tc_arguments call) (rn_world r) = (res, w)"
    by (cases "execute_tool (ag_tools ag) (tc_name call) (tc_arguments call) (rn_world r)")
  let ?e = "\<lambda>body err. ToolCallEvent (i + 1) (tc_name call) (en_jtext env (tc_arguments call)) body err
    (case registry_annotations (ag_tools ag) (tc_name call) of Some a \<Rightarrow> an_read_only a | None \<Rightarrow> False)"
  show ?thesis
  proof (cases res)
    case (Inl e)
    let ?out = "output_text (''Error: '' @ ''Tool execution error: '' @ show_tool_error e)"
    from Inl Allow ex show ?thesis
      by (intro exI [of _ w] exI [of _ "?e (output_to_text ?out) True"] exI [of _ ?out] exI [of _ True])
        (simp add: handle_call_def may_run_def call_log_def execute_tool_call_def emit_def Let_def)
  next
    case (Inr out)
    with Allow ex show ?thesis
      by (intro exI [of _ w] exI [of _ "?e (output_to_text out) False"] exI [of _ out] exI [of _ False])
        (simp add: handle_call_def may_run_def call_log_def execute_tool_call_def emit_def Let_def)
  qed
qed

lemma handle_call_effect:
  assumes "r1 = handle_call ag env i call r"
  obtains es out e where "rn_requests r1 = rn_requests r"
    "rn_executed r1 = rn_executed r @ call_log ag env call"
    "rn_events r1 = rn_events r @ es" "list_all is_tool_event es" "\<not> ag_audit ag \<longrightarrow> es = []"
    "ag_audit ag \<longrightarrow> logged_calls es = map (\<lambda>(n, a). (n, en_jtext env a)) (call_log ag env call)"
    "rn_context r1 = add_tool_result (rn_context r) (tc_id call) out e"
proof -
  obtain w e out err where r1: "r1 =
     emit ag e (r\<lparr>rn_world := w, rn_executed := rn_executed r @ call_log ag env call,
       rn_tool_calls := rn_tool_calls r @
        [\<lparr>sm_name = tc_name call, sm_arguments = en_jtext env (tc_arguments call),
          sm_result = output_to_text out, sm_is_error = err\<rparr>],
       rn_context := add_tool_result (rn_context r) (tc_id call) out err\<rparr>)"
    and c: "if may_run ag env (tc_name call, tc_arguments call)
      then \<exists>n s ro. e = ToolCallEvent n (tc_name call) (en_jtext env (tc_arguments call)) s err ro
      else is_ToolDenied e"
    using handle_call_forms [of ag env i call r] unfolding assms by blast
  from c have e: "is_tool_event e"
    "logged_calls [e] = map (\<lambda>(n, a). (n, en_jtext env a)) (call_log ag env call)"
    by (auto simp: call_log_def is_tool_event_def logged_calls_def split: if_splits)
  show thesis
    by (rule that [of "if ag_audit ag then [e] else []" out err]) (simp_all add: r1 e)
qed

lemma handle_calls_effect:
  obtains cs es where "rn_requests (handle_calls ag env i calls r) = rn_requests r"
    "rn_executed (handle_calls ag env i calls r) = rn_executed r @ cs" "list_all (may_run ag env) cs"
    "rn_events (handle_calls ag env i calls r) = rn_events r @ es" "list_all is_tool_event es"
    "\<not> ag_audit ag \<longrightarrow> es = []"
    "ag_audit ag \<longrightarrow> logged_calls es = map (\<lambda>(n, a). (n, en_jtext env a)) cs"
proof (induction calls arbitrary: r thesis)
  case Nil
  show ?case by (rule Nil [of "[]" "[]"]) (simp_all add: logged_calls_def)
next
  case (Cons call calls)
  let ?r1 = "handle_call ag env i call r"
  obtain es1 out e where first: "rn_requests ?r1 = rn_requests r"
    "rn_executed ?r1 = rn_executed r @ call_log ag env call"
    "rn_events ?r1 = rn_events r @ es1" "list_all is_tool_event es1" "\<not> ag_audit ag \<longrightarrow> es1 = []"
    "ag_audit ag \<longrightarrow> logged_calls es1 = map (\<lambda>(n, a). (n, en_jtext env a)) (call_log ag env call)"
    by (rule handle_call_effect [OF refl, of ag env i call r])
  show ?case
  proof (cases "en_cancelled env (rn_world ?r1)")
    case True
    show ?thesis
      by (rule Cons.prems [of "call_log ag env call" es1]) (use first True in \<open>simp_all add: Let_def\<close>)
  next
    case False
    obtain cs es where rest: "rn_requests (handle_calls ag env i calls ?r1) = rn_requests ?r1"
      "rn_executed (handle_calls ag env i calls ?r1) = rn_executed ?r1 @ cs" "list_all (may_run ag env) cs"
      "rn_events (handle_calls ag env i calls ?r1) = rn_events ?r1 @ es" "list_all is_tool_event es"
      "\<not> ag_audit ag \<longrightarrow> es = []"
      "ag_audit ag \<longrightarrow> logged_calls es = map (\<lambda>(n, a). (n, en_jtext env a)) cs"
      by (rule Cons.IH)
    show ?thesis
      by (rule Cons.prems [of "call_log ag env call @ cs" "es1 @ es"])
        (use first rest False in \<open>simp_all add: Let_def\<close>)
  qed
qed

lemma handle_calls_answers:
  assumes "pending_turn (cx_messages (rn_context r)) whole n" "calls = drop n whole" "n \<le> length whole"
    and "calls = [] \<Longrightarrow> n = length whole"
    and "\<not> en_cancelled env (rn_world (handle_calls ag env i calls r))"
  shows "pending_turn (cx_messages (rn_context (handle_calls ag env i calls r))) whole (length whole)"
  using assms
proof (induction calls arbitrary: r n)
  case Nil
  then show ?case by simp
next
  case (Cons call calls)
  let ?r1 = "handle_call ag env i call r"
  from Cons.prems(2,3) have n: "n < length whole" by (cases "n < length whole") auto
  with Cons.prems(2) have call: "call = whole ! n" "calls = drop (Suc n) whole"
    by (metis Cons_nth_drop_Suc list.inject)+
  obtain es out e where "rn_context ?r1 = add_tool_result (rn_context r) (tc_id call) out e"
    by (rule handle_call_effect [OF refl, of ag env i call r])
  with pending_turn_step [OF Cons.prems(1) n] call
  have p: "pending_turn (cx_messages (rn_context ?r1)) whole (Suc n)" by simp
  show ?case
  proof (cases "en_cancelled env (rn_world ?r1)")
    case True
    with Cons.prems(5) show ?thesis by (simp add: Let_def)
  next
    case False
    have last: "calls = [] \<Longrightarrow> Suc n = length whole" using call(2) n by simp
    have rest: "handle_calls ag env i (call # calls) r = handle_calls ag env i calls ?r1"
      using False by (simp add: Let_def)
    show ?thesis
      unfolding rest
      by (rule Cons.IH [OF p call(2) _ last]) (use n Cons.prems(5) rest in simp_all)
  qed
qed

text \<open>The rule for the loop: an invariant of the iterations and what every way out establishes.\<close>

lemma run_loop_rule:
  assumes step: "\<And>i r. I i r \<Longrightarrow> i < m \<Longrightarrow>
      (case run_iteration ag env sp defs tt i r of
         Return res r1 \<Rightarrow> Q res r1 | Continue r1 \<Rightarrow> I (Suc i) r1)"
    and fin: "\<And>r. I m r \<Longrightarrow> (case max_iterations_result ag m r of (res, r1) \<Rightarrow> Q res r1)"
    and start: "I i r" "i \<le> m"
  shows "case run_loop ag env sp defs tt m i r of (res, r1) \<Rightarrow> Q res r1"
  using start
proof (induction "m - i" arbitrary: i r)
  case 0
  then show ?case using fin [of r] by (subst run_loop.simps) simp
next
  case (Suc n)
  then have i: "i < m" by simp
  with step [OF Suc.prems(1) i] Suc.hyps show ?case
    by (simp add: run_loop.simps [of ag env sp defs tt m i] split: flow.splits)
qed

section \<open>The loop invariant\<close>

definition sendable :: "completion_request \<Rightarrow> bool" where
  "sendable q \<longleftrightarrow> (\<exists>c. well_formed_history (cx_messages c) \<and> req_messages q = to_messages c)"

lemma sendable_build: "well_formed_history (cx_messages c) \<Longrightarrow> sendable (build_request ag c defs)"
  by (auto simp: sendable_def build_request_def)

lemma sendable_summary: "sendable (summary_request ag sp b)"
proof -
  let ?c = "add_user_message new_context b"
  have "well_formed_history (cx_messages ?c)" "to_messages ?c = [\<lparr>msg_role = User, msg_content = MText b\<rparr>]"
    by (simp_all add: add_user_message_def push_message_def new_context_def well_formed_history_def to_messages_def)
  then show ?thesis by (auto simp: sendable_def summary_request_def)
qed

definition inner_event :: "audit_event \<Rightarrow> bool" where
  "inner_event e \<longleftrightarrow> is_tool_event e \<or> is_LlmResponse e \<or> is_ContextCompacted e"

definition started_event :: "'w agent \<Rightarrow> task \<Rightarrow> audit_event" where
  "started_event ag t =
     RunStarted (tk_description t) (pv_name (ag_provider ag)) (pv_model (ag_provider ag))"

text \<open>
  The open trail of a run: the start, then inner events only; without a sink nothing is
  recorded.
\<close>

definition open_trail :: "'w agent \<Rightarrow> 'w env \<Rightarrow> task \<Rightarrow> 'w run \<Rightarrow> bool" where
  "open_trail ag env t r \<longleftrightarrow>
     (if ag_audit ag then
        \<exists>mid. rn_events r = started_event ag t # mid \<and> list_all inner_event mid \<and>
              logged_calls mid = map (\<lambda>(n, a). (n, en_jtext env a)) (rn_executed r)
      else rn_events r = [])"

lemma open_trail_extend:
  assumes "open_trail ag env t r" and "rn_executed r1 = rn_executed r @ cs"
    and "rn_events r1 = rn_events r @ es" "list_all inner_event es" "\<not> ag_audit ag \<longrightarrow> es = []"
    and "ag_audit ag \<longrightarrow> logged_calls es = map (\<lambda>(n, a). (n, en_jtext env a)) cs"
  shows "open_trail ag env t r1"
  using assms by (auto simp: open_trail_def)

definition trace_inv :: "'w agent \<Rightarrow> 'w env \<Rightarrow> task \<Rightarrow> nat \<Rightarrow> 'w run \<Rightarrow> bool" where
  "trace_inv ag env t n r \<longleftrightarrow>
     list_all sendable (rn_requests r) \<and> length (rn_requests r) \<le> n \<and>
     list_all (may_run ag env) (rn_executed r) \<and> open_trail ag env t r"

definition loop_inv :: "'w agent \<Rightarrow> 'w env \<Rightarrow> task \<Rightarrow> nat \<Rightarrow> 'w run \<Rightarrow> bool" where
  "loop_inv ag env t n r \<longleftrightarrow>
     well_formed_history (cx_messages (rn_context r)) \<and> trace_inv ag env t n r"

lemmas loop_inv_defs = loop_inv_def trace_inv_def

definition closing_event :: "string + task_result \<Rightarrow> nat \<Rightarrow> 'w run \<Rightarrow> audit_event" where
  "closing_event res its r =
     (case res of
        Inl msg \<Rightarrow> RunCompleted False its (Some msg) (rn_input r) (rn_output r)
      | Inr tr \<Rightarrow> RunCompleted (rs_success tr) (rs_iterations tr) (rs_error tr) (rn_input r) (rn_output r))"

definition closed_trail ::
    "'w agent \<Rightarrow> 'w env \<Rightarrow> task \<Rightarrow> nat \<Rightarrow> string + task_result \<Rightarrow> 'w run \<Rightarrow> bool" where
  "closed_trail ag env t n res r \<longleftrightarrow>
     (\<exists>r0 its. open_trail ag env t r0 \<and> rn_executed r0 = rn_executed r \<and> its \<le> n \<and>
        rn_events r = rn_events r0 @ (if ag_audit ag then [closing_event res its r] else []))"

lemma closed_trail_mono: "closed_trail ag env t n res r \<Longrightarrow> n \<le> m \<Longrightarrow> closed_trail ag env t m res r"
  unfolding closed_trail_def by (meson order_trans)

text \<open>What every way out of the loop establishes, \<open>n\<close> the iterations that were started.\<close>

definition run_post ::
    "'w agent \<Rightarrow> 'w env \<Rightarrow> task \<Rightarrow> nat \<Rightarrow> string + task_result \<Rightarrow> 'w run \<Rightarrow> bool" where
  "run_post ag env t n res r \<longleftrightarrow>
     list_all sendable (rn_requests r) \<and> length (rn_requests r) \<le> 2 * n \<and>
     list_all (may_run ag env) (rn_executed r) \<and> closed_trail ag env t n res r \<and>
     (case res of Inl msg \<Rightarrow> True
      | Inr tr \<Rightarrow> rs_iterations tr \<le> n \<and> (rs_success tr \<longleftrightarrow> rs_error tr = None))"

lemma run_post_close:
  assumes "trace_inv ag env t (2 * n) r"
    and "r1 = emit ag (closing_event res its r) r" and "its \<le> n"
    and "case res of Inl msg \<Rightarrow> True
      | Inr tr \<Rightarrow> rs_iterations tr \<le> n \<and> (rs_success tr \<longleftrightarrow> rs_error tr = None)"
  shows "run_post ag env t n res r1"
proof -
  have "closing_event res its r1 = closing_event res its r"
    unfolding assms(2) by (simp add: closing_event_def split: sum.split)
  with assms show ?thesis
    by (auto simp: run_post_def trace_inv_def closed_trail_def intro!: exI [of _ r] exI [of _ its])
qed

lemma run_post_mono: "run_post ag env t n res r \<Longrightarrow> n \<le> m \<Longrightarrow> run_post ag env t m res r"
  by (cases res) (auto simp: run_post_def intro: closed_trail_mono)

lemma start_run_inv: "loop_inv ag env t 0 (start_run ag t w)"
  by (simp add: loop_inv_defs start_run_def open_trail_def started_event_def logged_calls_def
      add_user_message_def push_message_def set_system_prompt_def new_context_def well_formed_history_def)

lemma maybe_compact_inv:
  assumes inv: "loop_inv ag env t n r"
  shows "loop_inv ag env t (Suc n) (maybe_compact ag env sp tt i r)"
proof -
  let ?r1 = "maybe_compact ag env sp tt i r"
  have ctx: "well_formed_history (cx_messages (rn_context ?r1))"
    using maybe_compact_effect [OF refl, of ag env sp tt i r] inv
    by (auto simp: loop_inv_defs dest: well_formed_summary)
  have tr: "open_trail ag env t ?r1"
  proof -
    obtain es where es: "rn_executed ?r1 = rn_executed r @ []" "rn_events ?r1 = rn_events r @ es"
      "list_all is_ContextCompacted es" "\<not> ag_audit ag \<longrightarrow> es = []"
      using maybe_compact_effect [OF refl, of ag env sp tt i r] by auto
    from es(3) have "list_all inner_event es" "logged_calls es = []"
      by (auto simp: list_all_iff inner_event_def logged_calls_def filter_empty_conv is_ContextCompacted_def)
    with inv es show ?thesis
      by (intro open_trail_extend [of ag env t r ?r1 "[]" es]) (simp_all add: loop_inv_defs)
  qed
  have "list_all sendable (rn_requests ?r1) \<and> length (rn_requests ?r1) \<le> Suc n"
    using maybe_compact_effect [OF refl, of ag env sp tt i r] inv
    by (auto simp: loop_inv_defs sendable_summary)
  with ctx tr show ?thesis
    using maybe_compact_effect [OF refl, of ag env sp tt i r] inv by (simp add: loop_inv_defs)
qed

lemma complete_or_cancel_inv:
  assumes "complete_or_cancel env q r = (res, r1)" "loop_inv ag env t n r" "sendable q"
  shows "loop_inv ag env t (Suc n) r1"
  using complete_or_cancel_effect [OF assms(1)] assms(2,3)
  by (auto simp: loop_inv_defs open_trail_def)

lemma handle_response_inv:
  assumes inv: "loop_inv ag env t (2 * Suc i) r"
  shows "case handle_response ag env i response r of
      Return res r1 \<Rightarrow> run_post ag env t (Suc i) res r1
    | Continue r1 \<Rightarrow> loop_inv ag env t (2 * Suc i) r1"
proof -
  define r1 where "r1 = (case resp_usage response of
      Some u \<Rightarrow> r\<lparr>rn_input := rn_input r + input_tokens u, rn_output := rn_output r + output_tokens u\<rparr>
    | None \<Rightarrow> r)"
  define ins where "ins = map_option input_tokens (resp_usage response)"
  define outs where "outs = map_option output_tokens (resp_usage response)"
  define ev where "ev = LlmResponse (i + 1) (case resp_content response of Some c \<Rightarrow> c \<noteq> '''' | None \<Rightarrow> False)
      (map tc_name (resp_tool_calls response)) ins outs"
  define r2 where "r2 = emit ag ev r1"
  have r1: "rn_context r1 = rn_context r" "rn_requests r1 = rn_requests r" "rn_executed r1 = rn_executed r"
    "rn_events r1 = rn_events r"
    by (simp_all add: r1_def split: option.split)
  have "inner_event ev" "logged_calls [ev] = []"
    by (simp_all add: inner_event_def logged_calls_def ev_def)
  then have "open_trail ag env t r2"
    using inv by (intro open_trail_extend [of ag env t r r2 "[]" "if ag_audit ag then [ev] else []"])
      (simp_all add: loop_inv_defs r2_def r1)
  with inv have inv2: "loop_inv ag env t (2 * Suc i) r2"
    by (simp add: loop_inv_defs r2_def r1)
  show ?thesis
  proof (cases "resp_tool_calls response = []")
    case True
    have eq: "handle_response ag env i response r =
      Return (Inr \<lparr>rs_success = True, rs_final_message = resp_content response, rs_iterations = i + 1,
                   rs_tool_calls = rn_tool_calls r2, rs_error = None\<rparr>)
        (emit ag (RunCompleted True (i + 1) None (rn_input r2) (rn_output r2)) r2)"
      using True by (cases "resp_usage response")
        (simp_all add: handle_response_def Let_def r2_def ev_def r1_def ins_def outs_def)
    show ?thesis
      unfolding eq flow.case
      by (rule run_post_close [where r = r2 and its = "Suc i"])
        (use inv2 in \<open>simp_all add: closing_event_def loop_inv_def\<close>)
  next
    case False
    define r3 where "r3 = r2\<lparr>rn_context := add_assistant_tool_use (rn_context r2)
      (resp_content response) (resp_tool_calls response)\<rparr>"
    define r4 where "r4 = handle_calls ag env i (resp_tool_calls response) r3"
    have eq: "handle_response ag env i response r =
      (if en_cancelled env (rn_world r4)
       then (case cancelled_result ag (i + 1) r4 of (res, r5) \<Rightarrow> Return (Inr res) r5)
       else Continue r4)"
      using False by (cases "resp_usage response")
        (simp_all add: handle_response_def Let_def r4_def r3_def r2_def ev_def r1_def ins_def outs_def)
    obtain cs es where eff: "rn_requests r4 = rn_requests r3" "rn_executed r4 = rn_executed r3 @ cs"
      "list_all (may_run ag env) cs" "rn_events r4 = rn_events r3 @ es" "list_all is_tool_event es"
      "\<not> ag_audit ag \<longrightarrow> es = []"
      "ag_audit ag \<longrightarrow> logged_calls es = map (\<lambda>(n, a). (n, en_jtext env a)) cs"
      unfolding r4_def by (rule handle_calls_effect)
    have "list_all inner_event es" using eff(5) by (auto simp: list_all_iff inner_event_def)
    then have "open_trail ag env t r4"
      using inv2 eff by (intro open_trail_extend [of ag env t r2 r4 cs es]) (simp_all add: loop_inv_defs r3_def)
    with inv2 eff have tr: "trace_inv ag env t (2 * Suc i) r4"
      by (simp add: loop_inv_defs r3_def)
    show ?thesis
    proof (cases "en_cancelled env (rn_world r4)")
      case True
      then show ?thesis
        by (simp add: eq cancelled_result_def)
          (rule run_post_close [OF tr, where its = "Suc i"]; simp add: closing_event_def)
    next
      case False
      have "pending_turn (cx_messages (rn_context r3)) (resp_tool_calls response) 0"
        using inv2 by (simp add: r3_def pending_turn_start loop_inv_def)
      then have "pending_turn (cx_messages (rn_context r4)) (resp_tool_calls response)
          (length (resp_tool_calls response))"
        unfolding r4_def
        by (rule handle_calls_answers) (use \<open>resp_tool_calls response \<noteq> []\<close> False in \<open>simp_all add: r4_def\<close>)
      then have "well_formed_history (cx_messages (rn_context r4))"
        by (rule pending_turn_done) (rule \<open>resp_tool_calls response \<noteq> []\<close>)
      with tr False show ?thesis by (simp add: eq loop_inv_def)
    qed
  qed
qed

lemma run_iteration_inv:
  assumes inv: "loop_inv ag env t (2 * i) r"
  shows "case run_iteration ag env sp defs tt i r of
      Return res r1 \<Rightarrow> run_post ag env t (Suc i) res r1
    | Continue r1 \<Rightarrow> loop_inv ag env t (2 * Suc i) r1"
proof -
  let ?r1 = "maybe_compact ag env sp tt i r"
  obtain res r2 where c: "complete_or_cancel env (build_request ag (rn_context ?r1) defs) ?r1 = (res, r2)"
    by (cases "complete_or_cancel env (build_request ag (rn_context ?r1) defs) ?r1")
  have "loop_inv ag env t (Suc (2 * i)) ?r1" by (rule maybe_compact_inv [OF inv])
  then have inv2: "loop_inv ag env t (2 * Suc i) r2"
    using complete_or_cancel_inv [OF c, of ag t "Suc (2 * i)"] sendable_build
    by (metis add_2_eq_Suc' loop_inv_def mult_Suc_right add.commute)
  then have tr: "trace_inv ag env t (2 * Suc i) r2" by (simp add: loop_inv_def)
  consider "res = None" | e where "res = Some (Inl e)" | response where "res = Some (Inr response)"
    by (metis option.exhaust sum.exhaust)
  then show ?thesis
  proof cases
    case 1
    then show ?thesis
      by (simp add: run_iteration_def Let_def c cancelled_result_def)
        (rule run_post_close [OF tr, where its = "Suc i"]; simp add: closing_event_def)
  next
    case 2
    then show ?thesis
      by (simp add: run_iteration_def Let_def c)
        (rule run_post_close [OF tr, where its = "Suc i"]; simp add: closing_event_def)
  next
    case 3
    then show ?thesis using handle_response_inv [OF inv2] by (simp add: run_iteration_def Let_def c)
  qed
qed

lemma run_with_cancel_post:
  assumes "run_with_cancel ag env sp t w = (res, r)"
  shows "run_post ag env t (unwrap_or (ag_max_iterations ag) (tk_max_iterations t)) res r"
proof -
  let ?m = "unwrap_or (ag_max_iterations ag) (tk_max_iterations t)"
  let ?defs = "if pv_supports_tools (ag_provider ag)
      then to_definitions (ag_tool_order ag) (ag_tools ag) else []"
  have "case run_loop ag env sp ?defs (count_tokens_for_tools (en_bpe env) (en_jtext env) ?defs) ?m 0
        (start_run ag t w) of (res, r1) \<Rightarrow> run_post ag env t ?m res r1"
  proof (rule run_loop_rule [where I = "\<lambda>i. loop_inv ag env t (2 * i)"])
    fix i and r :: "'a run"
    assume "loop_inv ag env t (2 * i) r" "i < ?m"
    then show "case run_iteration ag env sp ?defs
          (count_tokens_for_tools (en_bpe env) (en_jtext env) ?defs) i r of
        Return res r1 \<Rightarrow> run_post ag env t ?m res r1 | Continue r1 \<Rightarrow> loop_inv ag env t (2 * Suc i) r1"
      using run_iteration_inv [of ag env t i r sp ?defs "count_tokens_for_tools (en_bpe env) (en_jtext env) ?defs"]
        run_post_mono [of ag env t "Suc i" _ _ ?m]
      by (auto split: flow.splits)
  next
    fix r :: "'a run"
    assume "loop_inv ag env t (2 * ?m) r"
    then show "case max_iterations_result ag ?m r of (res, r1) \<Rightarrow> run_post ag env t ?m res r1"
      by (simp add: max_iterations_result_def loop_inv_def)
        (rule run_post_close [where r = r and its = ?m]; simp add: closing_event_def)
  qed (use start_run_inv in simp_all)
  with assms show ?thesis by (simp add: run_with_cancel_def Let_def split: prod.splits)
qed

section \<open>Properties\<close>

text \<open>
  Property C3.  Every request of a run, in the loop or for a summary, carries a history a strict
  provider accepts: one user text followed by whole turns, each tool call answered by exactly
  one result in order.  This holds for every provider, every tool and every moment of
  cancellation, and across compactions.  A run sends at most two requests per iteration.
\<close>

theorem agent_requests_well_formed:
  "list_all sendable (rn_requests (snd (run_with_cancel ag env sp t w))) \<and>
   length (rn_requests (snd (run_with_cancel ag env sp t w)))
     \<le> 2 * unwrap_or (ag_max_iterations ag) (tk_max_iterations t)"
  using run_with_cancel_post [OF surjective_pairing, of ag env t sp w] by (simp add: run_post_def)

text \<open>
  Property C7.  No tool ever runs against the policy: every executed call is one the policy
  allows for the annotations the registry holds, and with an audit sink attached the tool-call
  events are exactly the executed calls, in order.
\<close>

theorem agent_runs_only_allowed_tools:
  "list_all (\<lambda>(n, args). decide (en_is_match env) (ag_policy ag) n
       (registry_annotations (ag_tools ag) n) args = Allow)
     (rn_executed (snd (run_with_cancel ag env sp t w))) \<and>
   logged_calls (rn_events (snd (run_with_cancel (with_audit ag) env sp t w))) =
     map (\<lambda>(n, args). (n, en_jtext env args)) (rn_executed (snd (run_with_cancel (with_audit ag) env sp t w)))"
proof -
  have "list_all (may_run ag env) (rn_executed (snd (run_with_cancel ag env sp t w)))"
    using run_with_cancel_post [OF surjective_pairing, of ag env t sp w] by (simp add: run_post_def)
  moreover have "logged_calls (rn_events (snd (run_with_cancel (with_audit ag) env sp t w))) =
     map (\<lambda>(n, args). (n, en_jtext env args)) (rn_executed (snd (run_with_cancel (with_audit ag) env sp t w)))"
    using run_with_cancel_post [OF surjective_pairing, of "with_audit ag" env t sp w]
    by (auto simp: run_post_def closed_trail_def open_trail_def with_audit_def logged_calls_def
        started_event_def closing_event_def split: sum.splits)
  ultimately show ?thesis by (simp add: may_run_def case_prod_beta' list_all_iff)
qed

text \<open>
  Property C31.  The audit trail of a run with a sink: the start event first, then only response,
  tool and compaction events, then exactly one completion event, which is the last and agrees
  with the outcome returned to the caller, also when the provider fails or the run is
  cancelled.
\<close>

theorem agent_trail_bracketed:
  "let (res, r) = run_with_cancel (with_audit ag) env sp t w in
   \<exists>mid its. rn_events r = RunStarted (tk_description t) (pv_name (ag_provider ag)) (pv_model (ag_provider ag))
        # mid @ [closing_event res its r] \<and>
      list_all inner_event mid \<and> its \<le> unwrap_or (ag_max_iterations ag) (tk_max_iterations t)"
  using run_with_cancel_post [OF surjective_pairing, of "with_audit ag" env t sp w]
  by (fastforce simp: run_post_def closed_trail_def open_trail_def with_audit_def started_event_def
      split: prod.split)

text \<open>
  Property C34.  The outcome of a run is consistent: a result reports success exactly when it
  carries no error, and never more iterations than the limit.
\<close>

theorem agent_outcome:
  "case fst (run_with_cancel ag env sp t w) of
     Inl msg \<Rightarrow> True
   | Inr res \<Rightarrow> (rs_success res \<longleftrightarrow> rs_error res = None) \<and>
       rs_iterations res \<le> unwrap_or (ag_max_iterations ag) (tk_max_iterations t)"
  using run_with_cancel_post [OF surjective_pairing, of ag env t sp w]
  by (simp add: run_post_def split: sum.splits)

end
