(* ===== verification/Store.thy ===== *)
theory Store
  imports Prelude "HOL-Library.Multiset"
begin

text \<open>
  The embedded store (\<open>boitata-store/src/\<close>): schema migrations (\<open>lib.rs\<close>) and the checkpoints
  table (\<open>checkpoints.rs\<close>).

  SQLite itself, the JSON codec and the RFC 3339 codec are external.  The table is the list of
  its rows in insertion order, a row holds the text of its columns.  The record \<open>store_env\<close>
  has the codecs, the clock, and which calls fail for reasons of the disk, the lock or the
  worker; both are indexed by the number of the call.  A step outside the signed 64-bit range
  does not bind.
\<close>

section \<open>Migrations\<close>

text \<open>
  \<open>exec\<close> applies one migration script to the schema, \<open>None\<close> on an error.  Each migration and
  its version bump commit together; a failure keeps what was committed before it.
\<close>

record 'd database =
  db_version :: int
  db_schema :: 'd

fun migrate_from ::
    "(string \<Rightarrow> 'd \<Rightarrow> 'd option) \<Rightarrow> (nat \<times> string) list \<Rightarrow> 'd database \<Rightarrow> string option \<times> 'd database" where
  "migrate_from exec [] db = (None, db)"
| "migrate_from exec ((i, sql) # ms) db =
     (case exec sql (db_schema db) of
        None \<Rightarrow> (Some (''failed to apply migration v'' @ show_nat (i + 1)), db)
      | Some schema \<Rightarrow> migrate_from exec ms \<lparr>db_version = int (i + 1), db_schema = schema\<rparr>)"

text \<open>\<open>current as usize\<close>: a negative version wraps to a huge index, so every migration is skipped.\<close>

definition migrate ::
    "(string \<Rightarrow> 'd \<Rightarrow> 'd option) \<Rightarrow> string list \<Rightarrow> 'd database \<Rightarrow> string option \<times> 'd database" where
  "migrate exec migrations db =
     (let current = nat (if db_version db < 0 then db_version db + 2 ^ 64 else db_version db)
      in migrate_from exec (drop current (enumerate 0 migrations)) db)"

fun apply_scripts :: "(string \<Rightarrow> 'd \<Rightarrow> 'd option) \<Rightarrow> string list \<Rightarrow> 'd \<Rightarrow> 'd option" where
  "apply_scripts exec [] d = Some d"
| "apply_scripts exec (sql # ms) d = Option.bind (exec sql d) (apply_scripts exec ms)"

lemma migrate_from_prefix:
  assumes "db_version db = int k"
  shows "\<exists>n \<le> length ms. apply_scripts exec (take n ms) (db_schema db) =
        Some (db_schema (snd (migrate_from exec (enumerate k ms) db))) \<and>
      db_version (snd (migrate_from exec (enumerate k ms) db)) = int (k + n) \<and>
      (fst (migrate_from exec (enumerate k ms) db) = None \<longleftrightarrow> n = length ms)"
  using assms
proof (induction ms arbitrary: k db)
  case Nil
  then show ?case by simp
next
  case (Cons sql ms)
  show ?case
  proof (cases "exec sql (db_schema db)")
    case None
    with Cons.prems show ?thesis by (intro exI [of _ 0]) simp
  next
    case (Some d)
    obtain n where "n \<le> length ms" "apply_scripts exec (take n ms) d =
        Some (db_schema (snd (migrate_from exec (enumerate (Suc k) ms) \<lparr>db_version = int (k + 1), db_schema = d\<rparr>)))"
      "db_version (snd (migrate_from exec (enumerate (Suc k) ms) \<lparr>db_version = int (k + 1), db_schema = d\<rparr>)) = int (Suc k + n)"
      "fst (migrate_from exec (enumerate (Suc k) ms) \<lparr>db_version = int (k + 1), db_schema = d\<rparr>) = None \<longleftrightarrow> n = length ms"
      using Cons.IH [of "\<lparr>db_version = int (k + 1), db_schema = d\<rparr>" "Suc k"] by auto
    with Some show ?thesis by (intro exI [of _ "Suc n"]) simp
  qed
qed

section \<open>Opening\<close>

text \<open>
  A connection: the database, and which of the two pragmas the library accepts.  The path is
  opened, or a private database in memory is made, by the library.
\<close>

record 'd connection =
  cn_database :: "'d database"
  cn_wal :: bool
  cn_synchronous :: bool

definition store_init ::
    "(string \<Rightarrow> 'd \<Rightarrow> 'd option) \<Rightarrow> string list \<Rightarrow> 'd connection \<Rightarrow> (string + unit) \<times> 'd database" where
  "store_init exec migrations conn =
     (if \<not> cn_wal conn then (Inl ''failed to enable WAL'', cn_database conn)
      else if \<not> cn_synchronous conn then (Inl ''failed to set synchronous mode'', cn_database conn)
      else case migrate exec migrations (cn_database conn) of
             (Some e, db) \<Rightarrow> (Inl e, db)
           | (None, db) \<Rightarrow> (Inr (), db))"

definition store_open ::
    "(string \<Rightarrow> 'd \<Rightarrow> 'd option) \<Rightarrow> string list \<Rightarrow> string \<Rightarrow> string + 'd connection \<Rightarrow>
     string + (string + unit) \<times> 'd database" where
  "store_open exec migrations path opened =
     map_sum (\<lambda>e. ''failed to open store database at '' @ path @ '': '' @ e) (store_init exec migrations) opened"

definition open_in_memory ::
    "(string \<Rightarrow> 'd \<Rightarrow> 'd option) \<Rightarrow> string list \<Rightarrow> string + 'd connection \<Rightarrow>
     string + (string + unit) \<times> 'd database" where
  "open_in_memory exec migrations opened =
     map_sum (\<lambda>e. ''failed to open in-memory store: '' @ e) (store_init exec migrations) opened"

text \<open>Opening a database that is current, or newer than the program, changes nothing in it.\<close>

lemma init_current:
  assumes "int (length migrations) \<le> db_version (cn_database conn)" "cn_wal conn" "cn_synchronous conn"
  shows "store_init exec migrations conn = (Inr (), cn_database conn)"
proof -
  have "length migrations \<le> nat (db_version (cn_database conn))" using assms(1) by simp
  with assms show ?thesis by (simp add: store_init_def migrate_def)
qed

section \<open>The checkpoints table\<close>

datatype run_state = RsRunning | RsSuspended | RsCompleted | RsFailed

fun run_state_as_str :: "run_state \<Rightarrow> string" where
  "run_state_as_str RsRunning = ''running''"
| "run_state_as_str RsSuspended = ''suspended''"
| "run_state_as_str RsCompleted = ''completed''"
| "run_state_as_str RsFailed = ''failed''"

definition run_state_from_str :: "string \<Rightarrow> string + run_state" where
  "run_state_from_str s =
     (if s = ''running'' then Inr RsRunning
      else if s = ''suspended'' then Inr RsSuspended
      else if s = ''completed'' then Inr RsCompleted
      else if s = ''failed'' then Inr RsFailed
      else Inl (''unknown checkpoint status '' @ [CHR 0x60] @ s @ [CHR 0x60]))"

definition is_resumable :: "run_state \<Rightarrow> bool" where
  "is_resumable s \<longleftrightarrow> s = RsRunning \<or> s = RsSuspended"

lemma run_state_codec [codec_simps, simp]: "run_state_from_str (run_state_as_str s) = Inr s"
  by (cases s) (simp_all add: run_state_from_str_def)

record checkpoint_upsert =
  cu_run_id :: string
  cu_blueprint :: string
  cu_task :: string
  cu_step :: nat
  cu_frontier :: "string list"
  cu_state :: string
  cu_status :: run_state

record 't checkpoint_record =
  cr_run_id :: string
  cr_blueprint :: string
  cr_task :: string
  cr_step :: nat
  cr_frontier :: "string list"
  cr_state :: string
  cr_status :: run_state
  cr_created_at :: 't
  cr_updated_at :: 't

record table_row =
  rw_run_id :: string
  rw_blueprint :: string
  rw_task :: string
  rw_step :: int
  rw_frontier :: string
  rw_state :: string
  rw_status :: string
  rw_created_at :: string
  rw_updated_at :: string

record 't store_env =
  se_put_frontier :: "string list \<Rightarrow> string"
  se_parse_frontier :: "string \<Rightarrow> string + string list"
  se_parse_time :: "string \<Rightarrow> string + 't"
  se_now :: "nat \<Rightarrow> string"
  se_fault :: "nat \<Rightarrow> bool"

record store =
  so_rows :: "table_row list"
  so_tick :: nat

definition empty_store :: store where
  "empty_store = \<lparr>so_rows = [], so_tick = 0\<rparr>"

text \<open>The columns an upsert writes; \<open>created_at\<close> is only written by the insert.\<close>

definition upsert_row :: "'t store_env \<Rightarrow> string \<Rightarrow> checkpoint_upsert \<Rightarrow> string \<Rightarrow> table_row" where
  "upsert_row env created cp now =
     \<lparr>rw_run_id = cu_run_id cp, rw_blueprint = cu_blueprint cp, rw_task = cu_task cp,
      rw_step = int (cu_step cp), rw_frontier = se_put_frontier env (cu_frontier cp),
      rw_state = cu_state cp, rw_status = run_state_as_str (cu_status cp),
      rw_created_at = created, rw_updated_at = now\<rparr>"

fun upsert_rows :: "'t store_env \<Rightarrow> checkpoint_upsert \<Rightarrow> string \<Rightarrow> table_row list \<Rightarrow> table_row list" where
  "upsert_rows env cp now [] = [upsert_row env now cp now]"
| "upsert_rows env cp now (r # rs) =
     (if rw_run_id r = cu_run_id cp then upsert_row env (rw_created_at r) cp now # rs
      else r # upsert_rows env cp now rs)"

definition store_call ::
    "'t store_env \<Rightarrow> (store \<Rightarrow> string + 'a \<times> store) \<Rightarrow> store \<Rightarrow> (string + 'a) \<times> store" where
  "store_call env f s =
     (let s1 = s\<lparr>so_tick := Suc (so_tick s)\<rparr>
      in if se_fault env (so_tick s) then (Inl ''store worker task failed'', s1)
         else (case f s1 of Inl e \<Rightarrow> (Inl e, s1) | Inr (a, s2) \<Rightarrow> (Inr a, s2)))"

definition upsert_checkpoint ::
    "'t store_env \<Rightarrow> checkpoint_upsert \<Rightarrow> store \<Rightarrow> (string + unit) \<times> store" where
  "upsert_checkpoint env cp s =
     (let now = se_now env (so_tick s)
      in store_call env (\<lambda>s1. if 2 ^ 63 \<le> cu_step cp then Inl ''insert checkpoint''
           else Inr ((), s1\<lparr>so_rows := upsert_rows env cp now (so_rows s1)\<rparr>)) s)"

definition set_checkpoint_status ::
    "'t store_env \<Rightarrow> string \<Rightarrow> run_state \<Rightarrow> store \<Rightarrow> (string + unit) \<times> store" where
  "set_checkpoint_status env run_id status s =
     (let now = se_now env (so_tick s)
      in store_call env (\<lambda>s1. Inr ((), s1\<lparr>so_rows :=
           map (\<lambda>r. if rw_run_id r = run_id
                    then r\<lparr>rw_status := run_state_as_str status, rw_updated_at := now\<rparr> else r)
               (so_rows s1)\<rparr>)) s)"

text \<open>A conversion failure names its column, a signed step below zero does not read as \<open>u64\<close>.\<close>

definition conv_err :: "nat \<Rightarrow> string \<Rightarrow> string" where
  "conv_err idx e = ''Conversion error from type Text at index: '' @ show_nat idx @ '', '' @ e"

definition row_to_record :: "'t store_env \<Rightarrow> table_row \<Rightarrow> string + 't checkpoint_record" where
  "row_to_record env r =
     (if rw_step r < 0 then Inl ''Integer out of range at index 3''
      else and_then (map_err (conv_err 4) (se_parse_frontier env (rw_frontier r))) (\<lambda>frontier.
           and_then (map_err (conv_err 6) (run_state_from_str (rw_status r))) (\<lambda>status.
           and_then (map_err (conv_err 7) (se_parse_time env (rw_created_at r))) (\<lambda>created.
           and_then (map_err (conv_err 8) (se_parse_time env (rw_updated_at r))) (\<lambda>updated.
             Inr \<lparr>cr_run_id = rw_run_id r, cr_blueprint = rw_blueprint r, cr_task = rw_task r,
                  cr_step = nat (rw_step r), cr_frontier = frontier, cr_state = rw_state r,
                  cr_status = status, cr_created_at = created, cr_updated_at = updated\<rparr>)))))"

definition read_checkpoint ::
    "'t store_env \<Rightarrow> string \<Rightarrow> table_row list \<Rightarrow> string + 't checkpoint_record option" where
  "read_checkpoint env run_id rows =
     (case find (\<lambda>r. rw_run_id r = run_id) rows of
        None \<Rightarrow> Inr None
      | Some r \<Rightarrow> map_err (\<lambda>e. ''read checkpoint: '' @ e) (and_then (row_to_record env r) (\<lambda>c. Inr (Some c))))"

definition get_checkpoint ::
    "'t store_env \<Rightarrow> string \<Rightarrow> store \<Rightarrow> (string + 't checkpoint_record option) \<times> store" where
  "get_checkpoint env run_id =
     store_call env (\<lambda>s1. and_then (read_checkpoint env run_id (so_rows s1)) (\<lambda>c. Inr (c, s1)))"

fun read_rows :: "'t store_env \<Rightarrow> table_row list \<Rightarrow> string + 't checkpoint_record list" where
  "read_rows env [] = Inr []"
| "read_rows env (r # rs) =
     and_then (map_err (\<lambda>e. ''read checkpoint row: '' @ e) (row_to_record env r)) (\<lambda>c.
     and_then (read_rows env rs) (\<lambda>cs. Inr (c # cs)))"

text \<open>Newest activity first, by the text of \<open>updated_at\<close>.\<close>

definition list_checkpoints ::
    "'t store_env \<Rightarrow> bool \<Rightarrow> store \<Rightarrow> (string + 't checkpoint_record list) \<times> store" where
  "list_checkpoints env resumable_only =
     store_call env (\<lambda>s1. and_then (read_rows env (rev (sort_key rw_updated_at
       (filter (\<lambda>r. resumable_only \<longrightarrow> rw_status r \<in> set [''running'', ''suspended'']) (so_rows s1)))))
       (\<lambda>cs. Inr (cs, s1)))"

definition delete_checkpoint :: "'t store_env \<Rightarrow> string \<Rightarrow> store \<Rightarrow> (string + unit) \<times> store" where
  "delete_checkpoint env run_id =
     store_call env (\<lambda>s1. Inr ((), s1\<lparr>so_rows := filter (\<lambda>r. rw_run_id r \<noteq> run_id) (so_rows s1)\<rparr>))"

section \<open>Lemmas\<close>

text \<open>The table invariant: one row per run, and the clock writes times that parse.\<close>

definition table_inv :: "'t store_env \<Rightarrow> store \<Rightarrow> bool" where
  "table_inv env s \<longleftrightarrow>
     distinct (map rw_run_id (so_rows s)) \<and>
     (\<forall>n. \<exists>t. se_parse_time env (se_now env n) = Inr t) \<and>
     (\<forall>r \<in> set (so_rows s). \<exists>m n. rw_created_at r = se_now env m \<and> rw_updated_at r = se_now env n)"

definition row_of :: "string \<Rightarrow> store \<Rightarrow> table_row option" where
  "row_of run_id s = find (\<lambda>r. rw_run_id r = run_id) (so_rows s)"

lemma upsert_rows_ids:
  "map rw_run_id (upsert_rows env cp now rs) =
     map rw_run_id rs @ (if cu_run_id cp \<in> rw_run_id ` set rs then [] else [cu_run_id cp])"
  by (induction rs) (auto simp: upsert_row_def)

lemma upsert_rows_find:
  "find (\<lambda>r. rw_run_id r = i) (upsert_rows env cp now rs) =
     (if i = cu_run_id cp
      then Some (upsert_row env (case find (\<lambda>r. rw_run_id r = i) rs of
                   Some r \<Rightarrow> rw_created_at r | None \<Rightarrow> now) cp now)
      else find (\<lambda>r. rw_run_id r = i) rs)"
  by (induction rs) (auto simp: upsert_row_def)

lemma upsert_rows_set:
  "r \<in> set (upsert_rows env cp now rs) \<Longrightarrow>
     r \<in> set rs \<or> r = upsert_row env now cp now \<or> (\<exists>q \<in> set rs. r = upsert_row env (rw_created_at q) cp now)"
  by (induction rs) (auto split: if_splits)

lemma upsert_cases:
  "snd (upsert_checkpoint env cp s) =
     (if fst (upsert_checkpoint env cp s) = Inr ()
      then \<lparr>so_rows = upsert_rows env cp (se_now env (so_tick s)) (so_rows s), so_tick = Suc (so_tick s)\<rparr>
      else s\<lparr>so_tick := Suc (so_tick s)\<rparr>)"
  by (cases s) (simp add: upsert_checkpoint_def store_call_def Let_def)

lemma set_status_cases:
  "snd (set_checkpoint_status env i status s) =
     (if fst (set_checkpoint_status env i status s) = Inr ()
      then \<lparr>so_rows = map (\<lambda>r. if rw_run_id r = i then r\<lparr>rw_status := run_state_as_str status,
               rw_updated_at := se_now env (so_tick s)\<rparr> else r) (so_rows s), so_tick = Suc (so_tick s)\<rparr>
      else s\<lparr>so_tick := Suc (so_tick s)\<rparr>)"
  by (cases s) (simp add: set_checkpoint_status_def store_call_def Let_def)

lemma table_inv_tick: "table_inv env s \<Longrightarrow> table_inv env (s\<lparr>so_tick := n\<rparr>)"
  by (simp add: table_inv_def)

lemma set_status_find:
  "row_of i (snd (set_checkpoint_status env j status s)) =
     (if i = j \<and> fst (set_checkpoint_status env j status s) = Inr ()
      then map_option (\<lambda>r. r\<lparr>rw_status := run_state_as_str status,
             rw_updated_at := se_now env (so_tick s)\<rparr>) (row_of i s)
      else row_of i s)"
proof -
  let ?f = "\<lambda>r. if rw_run_id r = j
      then r\<lparr>rw_status := run_state_as_str status, rw_updated_at := se_now env (so_tick s)\<rparr> else r"
  have "find (\<lambda>r. rw_run_id r = i) (map ?f rs) = map_option ?f (find (\<lambda>r. rw_run_id r = i) rs)"
    for rs :: "table_row list"
    by (induction rs) auto
  then show ?thesis
    by (cases "find (\<lambda>r. rw_run_id r = i) (so_rows s)")
      (auto simp: row_of_def set_status_cases dest: find_Some_mem)
qed

lemma table_inv_upsert:
  assumes "table_inv env s"
  shows "table_inv env (snd (upsert_checkpoint env cp s))"
proof (cases "fst (upsert_checkpoint env cp s) = Inr ()")
  case True
  let ?rs = "upsert_rows env cp (se_now env (so_tick s)) (so_rows s)"
  have "distinct (map rw_run_id ?rs)"
    using assms(1) by (auto simp: upsert_rows_ids table_inv_def)
  moreover have "\<exists>m n. rw_created_at r = se_now env m \<and> rw_updated_at r = se_now env n"
    if "r \<in> set ?rs" for r
    using upsert_rows_set [of r env cp "se_now env (so_tick s)" "so_rows s"] that assms(1)
    by (fastforce simp: upsert_row_def table_inv_def)
  ultimately show ?thesis using assms(1) True by (simp add: table_inv_def upsert_cases)
qed (use assms in \<open>simp add: upsert_cases table_inv_tick\<close>)

lemma table_inv_set_status:
  assumes "table_inv env s"
  shows "table_inv env (snd (set_checkpoint_status env i status s))"
proof -
  have "map rw_run_id (so_rows (snd (set_checkpoint_status env i status s))) = map rw_run_id (so_rows s)"
    by (simp add: set_status_cases comp_def if_distrib cong: if_cong)
  moreover have "\<exists>m n. rw_created_at r = se_now env m \<and> rw_updated_at r = se_now env n"
    if "r \<in> set (so_rows (snd (set_checkpoint_status env i status s)))" for r
    using that assms by (auto simp: table_inv_def set_status_cases split: if_splits)
  ultimately show ?thesis using assms by (simp add: table_inv_def)
qed

lemma table_inv_empty: "(\<And>n. \<exists>t. se_parse_time env (se_now env n) = Inr t) \<Longrightarrow> table_inv env empty_store"
  by (simp add: table_inv_def empty_store_def)

lemma read_checkpoint_upsert:
  assumes inv: "table_inv env s" and up: "fst (upsert_checkpoint env cp s) = Inr ()"
    and codec: "se_parse_frontier env (se_put_frontier env (cu_frontier cp)) = Inr (cu_frontier cp)"
  shows "\<exists>c u. read_checkpoint env (cu_run_id cp) (so_rows (snd (upsert_checkpoint env cp s))) = Inr (Some
     \<lparr>cr_run_id = cu_run_id cp, cr_blueprint = cu_blueprint cp, cr_task = cu_task cp,
      cr_step = cu_step cp, cr_frontier = cu_frontier cp, cr_state = cu_state cp,
      cr_status = cu_status cp, cr_created_at = c, cr_updated_at = u\<rparr>)"
proof -
  let ?now = "se_now env (so_tick s)"
  let ?created = "case find (\<lambda>r. rw_run_id r = cu_run_id cp) (so_rows s) of Some r \<Rightarrow> rw_created_at r | None \<Rightarrow> ?now"
  have "\<exists>m. ?created = se_now env m"
    using inv by (auto simp: table_inv_def split: option.split dest!: find_Some_mem)
  with inv obtain c u where "se_parse_time env ?created = Inr c" "se_parse_time env ?now = Inr u"
    unfolding table_inv_def by metis
  with codec up show ?thesis
    by (simp add: read_checkpoint_def upsert_cases upsert_rows_find row_to_record_def upsert_row_def)
qed

lemma read_checkpoint_upsert_other:
  "i \<noteq> cu_run_id cp \<Longrightarrow>
     read_checkpoint env i (so_rows (snd (upsert_checkpoint env cp s))) = read_checkpoint env i (so_rows s)"
  by (simp add: read_checkpoint_def upsert_cases upsert_rows_find)

lemma read_rows_Inr:
  "read_rows env rs = Inr cs \<Longrightarrow> list_all2 (\<lambda>r c. row_to_record env r = Inr c) rs cs"
proof (induction rs arbitrary: cs)
  case (Cons r rs)
  then show ?case by (cases "row_to_record env r") (auto simp: and_then_Inr_iff)
qed simp

lemma row_to_record_fields:
  assumes "row_to_record env r = Inr c"
  shows "cr_run_id c = rw_run_id r \<and> rw_status r = run_state_as_str (cr_status c)"
proof -
  have "\<And>st. run_state_from_str s = Inr st \<Longrightarrow> s = run_state_as_str st" for s
    by (auto simp: run_state_from_str_def split: if_splits)
  moreover from assms obtain st where "run_state_from_str (rw_status r) = Inr st" "cr_status c = st" "cr_run_id c = rw_run_id r"
    by (cases "run_state_from_str (rw_status r)") (auto simp: row_to_record_def and_then_Inr_iff split: if_splits)
  ultimately show ?thesis by auto
qed

lemma resumable_status: "run_state_as_str st \<in> set [''running'', ''suspended''] \<longleftrightarrow> is_resumable st"
  by (cases st) (simp_all add: is_resumable_def)

section \<open>Properties\<close>


text \<open>
  The listing of resumable runs: when every row reads back, the list holds exactly
  the runs whose stored status is running or suspended, each as often as the table has it,
  ordered by the time of the last update, newest first.
\<close>

theorem resumable_listing:
  assumes "list_checkpoints env True s = (Inr cs, s')"
  shows "\<exists>rs. mset rs = mset (filter (\<lambda>r. rw_status r = ''running'' \<or> rw_status r = ''suspended'') (so_rows s)) \<and>
    sorted (map rw_updated_at (rev rs)) \<and>
    list_all2 (\<lambda>r c. row_to_record env r = Inr c \<and> is_resumable (cr_status c)) rs cs"
proof -
  let ?p = "\<lambda>r. rw_status r \<in> set [''running'', ''suspended'']"
  let ?rs = "rev (sort_key rw_updated_at (filter ?p (so_rows s)))"
  from assms have "read_rows env ?rs = Inr cs"
    by (auto simp: list_checkpoints_def store_call_def Let_def and_then_def split: if_splits sum.splits)
  then have all: "list_all2 (\<lambda>r c. row_to_record env r = Inr c) ?rs cs" by (rule read_rows_Inr)
  have "list_all2 (\<lambda>r c. row_to_record env r = Inr c \<and> is_resumable (cr_status c)) ?rs cs"
  proof (rule list_all2_all_nthI)
    show "length ?rs = length cs" using all by (rule list_all2_lengthD)
    fix i assume i: "i < length ?rs"
    then have r: "row_to_record env (?rs ! i) = Inr (cs ! i)" by (rule list_all2_nthD [OF all])
    moreover have "?rs ! i \<in> set ?rs" using i by (rule nth_mem)
    then have "?p (?rs ! i)" by simp
    ultimately show "row_to_record env (?rs ! i) = Inr (cs ! i) \<and> is_resumable (cr_status (cs ! i))"
      using row_to_record_fields [OF r] resumable_status by metis
  qed
  moreover have "mset ?rs = mset (filter (\<lambda>r. rw_status r = ''running'' \<or> rw_status r = ''suspended'') (so_rows s))"
    by simp
  ultimately show ?thesis by (intro exI [of _ ?rs]) simp
qed

definition sample_env :: "nat store_env" where
  "sample_env = \<lparr>se_put_frontier = join '','', se_parse_frontier = (\<lambda>s. Inr [s]),
     se_parse_time = (\<lambda>s. Inr (length s)), se_now = (\<lambda>n. replicate n (CHR ''0'')), se_fault = (\<lambda>n. False)\<rparr>"

definition sample_upsert :: "string \<Rightarrow> run_state \<Rightarrow> checkpoint_upsert" where
  "sample_upsert i st = \<lparr>cu_run_id = i, cu_blueprint = ''b'', cu_task = ''t'', cu_step = 0,
     cu_frontier = [''start''], cu_state = ''{}'', cu_status = st\<rparr>"

theorem resumable_listing_witness:
  "\<exists>rs. mset rs = mset (filter (\<lambda>r. rw_status r = ''running'' \<or> rw_status r = ''suspended'')
       (so_rows (snd (upsert_checkpoint sample_env (sample_upsert ''r'' RsRunning) empty_store)))) \<and>
     sorted (map rw_updated_at (rev rs)) \<and>
     list_all2 (\<lambda>r c. row_to_record sample_env r = Inr c \<and> is_resumable (cr_status c)) rs
       [\<lparr>cr_run_id = ''r'', cr_blueprint = ''b'', cr_task = ''t'', cr_step = 0, cr_frontier = [''start''],
         cr_state = ''{}'', cr_status = RsRunning, cr_created_at = 0, cr_updated_at = 0\<rparr>]"
proof (rule resumable_listing)
  show "list_checkpoints sample_env True
      (snd (upsert_checkpoint sample_env (sample_upsert ''r'' RsRunning) empty_store)) =
    (Inr [\<lparr>cr_run_id = ''r'', cr_blueprint = ''b'', cr_task = ''t'', cr_step = 0, cr_frontier = [''start''],
         cr_state = ''{}'', cr_status = RsRunning, cr_created_at = 0, cr_updated_at = 0\<rparr>],
     snd (list_checkpoints sample_env True
      (snd (upsert_checkpoint sample_env (sample_upsert ''r'' RsRunning) empty_store))))"
    by (simp add: list_checkpoints_def store_call_def upsert_checkpoint_def empty_store_def
        sample_upsert_def sample_env_def upsert_row_def row_to_record_def run_state_from_str_def Let_def)
qed

end
