(* ===== verification/Nodes.thy ===== *)
theory Nodes
  imports Templating Agent_Loop
begin

text \<open>
  The nodes of a blueprint (\<open>boitata-orchestrator/src/nodes.rs\<close>, \<open>container.rs\<close>, \<open>human.rs\<close>,
  \<open>sandbox/mod.rs\<close>): the eight kinds, the commands the container nodes build, and what each
  node does when it runs.

  A node runs against the state it is given and an outside world \<open>'w\<close>.  Everything outside
  the program is a function of that world in the record \<open>node_ctx\<close>: the provider of the agent
  loop, the tools, the shell, the operator, the sandbox backend, the ACP turn, the process
  environment.  A run also returns the sandboxes it provisioned, which is what the per-run
  manager tracks.
\<close>

section \<open>Nodes\<close>

datatype human_mode = InputMode | ApprovalMode

datatype node =
    AgentNode (nd_name: string) string "string list option"
  | ToolNode (nd_name: string) string json
  | ScriptNode (nd_name: string) string
  | HumanNode (nd_name: string) string human_mode
  | ProvisionNode (nd_name: string) string "string list"
  | CheckoutNode (nd_name: string) string string "string option" string
  | ExecNode (nd_name: string) string string "string option"
  | AgentSandboxNode (nd_name: string) string string nat string

fun nd_kind :: "node \<Rightarrow> node_kind" where
  "nd_kind (AgentNode n p ts) = KindAgent"
| "nd_kind (ToolNode n t a) = KindTool"
| "nd_kind (ScriptNode n s) = KindScript"
| "nd_kind (HumanNode n p m) = KindHuman"
| "nd_kind (ProvisionNode n i e) = KindContainer"
| "nd_kind (CheckoutNode n c r g p) = KindContainer"
| "nd_kind (ExecNode n c r w) = KindContainer"
| "nd_kind (AgentSandboxNode n c p port cmd) = KindAgent"

text \<open>The constructors' defaults.\<close>

definition default_workspace :: string where
  "default_workspace = ''/workspace''"

definition default_agent_port :: nat where
  "default_agent_port = 9000"

definition default_agent_command :: string where
  "default_agent_command = ''boitata-agent''"

definition new_checkout :: "string \<Rightarrow> string \<Rightarrow> string \<Rightarrow> string option \<Rightarrow> string option \<Rightarrow> node" where
  "new_checkout name container repo git_ref path =
     CheckoutNode name container repo git_ref (unwrap_or default_workspace path)"

definition new_agent_sandbox ::
    "string \<Rightarrow> string \<Rightarrow> string \<Rightarrow> nat option \<Rightarrow> string option \<Rightarrow> node" where
  "new_agent_sandbox name container prompt port command =
     AgentSandboxNode name container prompt (unwrap_or default_agent_port port)
       (unwrap_or default_agent_command command)"

section \<open>Commands\<close>

definition sh_c :: "string \<Rightarrow> string list" where
  "sh_c script = [''sh'', ''-c'', script]"

definition checkout_command :: "string \<Rightarrow> string \<Rightarrow> string option \<Rightarrow> string list" where
  "checkout_command repo path git_ref =
     sh_c (''git clone '' @ shell_quote repo @ '' '' @ shell_quote path @
       (case git_ref of
          Some r \<Rightarrow> '' && git -C '' @ shell_quote path @ '' checkout '' @ shell_quote r
        | None \<Rightarrow> ''''))"

definition exec_command :: "string \<Rightarrow> state \<Rightarrow> string list" where
  "exec_command run s = sh_c (render_shell run s)"

definition pid_file :: string where
  "pid_file = ''/tmp/boitata-agent.pid''"

definition launch_command :: "string \<Rightarrow> nat \<Rightarrow> string list" where
  "launch_command command port =
     sh_c (''nohup '' @ shell_quote command @ '' --addr 0.0.0.0:'' @ show_nat port @
           '' >/tmp/boitata-agent.log 2>&1 & echo $! >'' @ pid_file)"

definition stop_command :: "string list" where
  "stop_command =
     sh_c (''kill '' @ [CHR 0x22] @ ''$(cat '' @ pid_file @ '' 2>/dev/null)'' @ [CHR 0x22] @
           '' 2>/dev/null || true'')"

text \<open>
  The environment a provision node forwards: for each requested name the process environment
  when it is set and not blank, else the resolved configuration, else nothing.
\<close>

definition resolve_env ::
    "(string \<rightharpoonup> string) \<Rightarrow> (string \<rightharpoonup> string) \<Rightarrow> string list \<Rightarrow> (string \<times> string) list" where
  "resolve_env getenv defaults names =
     List.map_filter (\<lambda>name. map_option (\<lambda>v. (name, v))
       (or_opt (opt_filter (\<lambda>v. v \<noteq> '''') (map_option trim (getenv name))) (defaults name))) names"

definition is_affirmative :: "string \<Rightarrow> bool" where
  "is_affirmative reply \<longleftrightarrow> to_ascii_lowercase (trim reply) \<in> {''y'', ''yes'', ''ok''}"

section \<open>The outside world of a node\<close>

record script_result =
  sr_code :: "int option"
  sr_output :: string

record agent_outcome =
  ao_success :: bool
  ao_message :: "string option"

record 'w sandbox_backend =
  sb_provision :: "string \<Rightarrow> (string \<times> string) list \<Rightarrow> 'w \<Rightarrow> (string + string) \<times> 'w"
  sb_exec :: "string \<Rightarrow> string list \<Rightarrow> string option \<Rightarrow> 'w \<Rightarrow> (string + int \<times> string) \<times> 'w"
  sb_endpoint :: "string \<Rightarrow> nat \<Rightarrow> 'w \<Rightarrow> (string + string) \<times> 'w"

text \<open>
  The readiness poll: connection attempts are numbered, \<open>rd_deadline\<close> is the first attempt
  made after the deadline; cancellation is seen before an attempt or while sleeping after it.
\<close>

record 'w readiness =
  rd_connect :: "string \<Rightarrow> nat \<Rightarrow> 'w \<Rightarrow> string + unit"
  rd_deadline :: "'w \<Rightarrow> nat"
  rd_cancelled :: "nat \<Rightarrow> 'w \<Rightarrow> bool"
  rd_woken :: "nat \<Rightarrow> 'w \<Rightarrow> bool"

record 'w node_ctx =
  cx_provider :: provider
  cx_tools :: "'w registry"
  cx_tool_order :: "string list"
  cx_audit :: bool
  cx_policy :: policy
  cx_system_prompt :: "string option"
  cx_max_iterations :: "nat option"
  cx_compact_threshold :: "f32 option"
  cx_env_defaults :: "string \<rightharpoonup> string"
  cx_default_prompt :: string
  cx_summary_prompt :: string
  cx_env :: "'w env"
  cx_getenv :: "string \<rightharpoonup> string"
  cx_run_script :: "string \<Rightarrow> 'w \<Rightarrow> (tool_error + script_result) \<times> 'w"
  cx_human :: "string \<Rightarrow> 'w \<Rightarrow> (string + string) \<times> 'w"
  cx_sandbox :: "'w sandbox_backend"
  cx_ready :: "'w readiness"
  cx_acp :: "string \<Rightarrow> string \<Rightarrow> 'w \<Rightarrow> (string + agent_outcome) \<times> 'w"

function wait_ready :: "'w readiness \<Rightarrow> string \<Rightarrow> 'w \<Rightarrow> nat \<Rightarrow> string + unit" where
  "wait_ready rd addr w n =
     (if rd_cancelled rd n w then Inl (''cancelled while waiting for the agent at '' @ addr)
      else (case rd_connect rd addr n w of
              Inr u \<Rightarrow> Inr ()
            | Inl e \<Rightarrow>
                if rd_deadline rd w \<le> n
                then Inl (''agent at '' @ addr @ '' did not become ready in time: '' @ e)
                else if rd_woken rd n w
                then Inl (''cancelled while waiting for the agent at '' @ addr)
                else wait_ready rd addr w (Suc n)))"
  by pat_completeness auto
termination
  by (relation "measure (\<lambda>(rd, addr, w, n). rd_deadline rd w - n)") auto

declare wait_ready.simps [simp del]

section \<open>Running a node\<close>

text \<open>
  A run is the result (\<open>Inl\<close> a hard error), the world after it and the sandboxes provisioned.
\<close>

type_synonym 'w node_run = "(string + update) \<times> 'w \<times> string list"

definition build_agent :: "'w node_ctx \<Rightarrow> 'w registry \<Rightarrow> 'w agent" where
  "build_agent cx tools =
     (let a0 = with_policy (new_agent (cx_provider cx) tools (cx_tool_order cx) (cx_default_prompt cx))
                 (cx_policy cx);
          a1 = (case cx_system_prompt cx of Some p \<Rightarrow> with_system_prompt a0 p | None \<Rightarrow> a0);
          a2 = (case cx_max_iterations cx of Some m \<Rightarrow> with_max_iterations a1 m | None \<Rightarrow> a1);
          a3 = (case cx_compact_threshold cx of Some x \<Rightarrow> with_compact_threshold a2 x | None \<Rightarrow> a2)
      in if cx_audit cx then with_audit a3 else a3)"

definition agent_update :: "string \<Rightarrow> task_result \<Rightarrow> update" where
  "agent_update name res =
     (let st = (if rs_success res then Ok else Failed);
          body = unwrap_or
            (if rs_success res then ''agent '' @ bt @ name @ bt @ '' produced no output''
             else ''agent '' @ bt @ name @ bt @ '' failed with no error message'')
            (or_opt (rs_final_message res) (rs_error res))
      in from_node name body st)"

definition agent_run :: "'w node_ctx \<Rightarrow> string \<Rightarrow> string \<Rightarrow> string list option \<Rightarrow> state \<Rightarrow> 'w \<Rightarrow> 'w node_run" where
  "agent_run cx name prompt tools s w =
     (case (case tools of
              Some names \<Rightarrow> map_err (\<lambda>e. ''agent node '' @ bt @ name @ bt @ '' lists an unknown tool: ''
                                      @ show_tool_error e) (registry_subset (cx_tools cx) names)
            | None \<Rightarrow> Inr (cx_tools cx)) of
        Inl e \<Rightarrow> (Inl e, w, [])
      | Inr reg \<Rightarrow>
          (case run_with_cancel (build_agent cx reg) (cx_env cx) (cx_summary_prompt cx)
                  (new_task (render prompt s)) w of
             (Inl e, r) \<Rightarrow> (Inl e, rn_world r, [])
           | (Inr res, r) \<Rightarrow> (Inr (agent_update name res), rn_world r, [])))"

definition tool_run :: "'w node_ctx \<Rightarrow> string \<Rightarrow> string \<Rightarrow> json \<Rightarrow> 'w \<Rightarrow> 'w node_run" where
  "tool_run cx name tool_name args w =
     (case execute_tool (cx_tools cx) tool_name args w of
        (Inr out, w1) \<Rightarrow> (Inr (from_node name (output_to_text out) Ok), w1, [])
      | (Inl e, w1) \<Rightarrow> (Inr (from_node name (''error: '' @ show_tool_error e) Failed), w1, []))"

definition script_run :: "'w node_ctx \<Rightarrow> string \<Rightarrow> string \<Rightarrow> state \<Rightarrow> 'w \<Rightarrow> 'w node_run" where
  "script_run cx name script s w =
     (case cx_run_script cx (render_shell script s) w of
        (Inr res, w1) \<Rightarrow>
          (Inr (from_node name (sr_output res) (if sr_code res = Some 0 then Ok else Failed)), w1, [])
      | (Inl e, w1) \<Rightarrow> (Inr (from_node name (''error: '' @ show_tool_error e) Failed), w1, []))"

definition human_run :: "'w node_ctx \<Rightarrow> string \<Rightarrow> string \<Rightarrow> human_mode \<Rightarrow> state \<Rightarrow> 'w \<Rightarrow> 'w node_run" where
  "human_run cx name prompt mode s w =
     (case cx_human cx (render prompt s) w of
        (Inl e, w1) \<Rightarrow> (Inl e, w1, [])
      | (Inr reply, w1) \<Rightarrow>
          (Inr (case mode of
                  InputMode \<Rightarrow> from_node name reply Ok
                | ApprovalMode \<Rightarrow>
                    if is_affirmative reply then from_node name ''approved'' Ok
                    else from_node name ''declined'' Failed), w1, []))"

definition provision_run :: "'w node_ctx \<Rightarrow> string \<Rightarrow> string \<Rightarrow> string list \<Rightarrow> state \<Rightarrow> 'w \<Rightarrow> 'w node_run" where
  "provision_run cx name img names s w =
     (case sb_provision (cx_sandbox cx) (render img s)
             (resolve_env (cx_getenv cx) (cx_env_defaults cx) names) w of
        (Inl e, w1) \<Rightarrow> (Inl e, w1, [])
      | (Inr i, w1) \<Rightarrow> (Inr (from_node name i Ok), w1, [i]))"

text \<open>Running a command in a sandbox, shared by the checkout and the exec node.\<close>

definition container_run ::
    "'w node_ctx \<Rightarrow> string \<Rightarrow> string \<Rightarrow> string list \<Rightarrow> string option \<Rightarrow> 'w \<Rightarrow> 'w node_run" where
  "container_run cx name i argv workdir w =
     (case sb_exec (cx_sandbox cx) i argv workdir w of
        (Inl e, w1) \<Rightarrow> (Inl e, w1, [])
      | (Inr (code, out), w1) \<Rightarrow> (Inr (from_node name out (if code = 0 then Ok else Failed)), w1, []))"

definition checkout_run ::
    "'w node_ctx \<Rightarrow> string \<Rightarrow> string \<Rightarrow> string \<Rightarrow> string option \<Rightarrow> string \<Rightarrow> state \<Rightarrow> 'w \<Rightarrow> 'w node_run" where
  "checkout_run cx name container repo git_ref path s w =
     container_run cx name (render container s)
       (checkout_command (render repo s) path (map_option (\<lambda>r. render r s) git_ref)) None w"

definition exec_node_run ::
    "'w node_ctx \<Rightarrow> string \<Rightarrow> string \<Rightarrow> string \<Rightarrow> string option \<Rightarrow> state \<Rightarrow> 'w \<Rightarrow> 'w node_run" where
  "exec_node_run cx name container run workdir s w =
     container_run cx name (render container s) (exec_command run s) workdir w"

text \<open>
  The agent inside a sandbox: launch, resolve the address, wait until it accepts, one ACP turn,
  then stop it whatever the turn's outcome; an error before the turn returns at once.
\<close>

definition outcome_update :: "string \<Rightarrow> agent_outcome \<Rightarrow> update" where
  "outcome_update name oc =
     from_node name
       (unwrap_or (if ao_success oc then ''agent '' @ bt @ name @ bt @ '' produced no output''
                   else ''agent '' @ bt @ name @ bt @ '' failed'') (ao_message oc))
       (if ao_success oc then Ok else Failed)"

definition agent_sandbox_run ::
    "'w node_ctx \<Rightarrow> string \<Rightarrow> string \<Rightarrow> string \<Rightarrow> nat \<Rightarrow> string \<Rightarrow> state \<Rightarrow> 'w \<Rightarrow> 'w node_run" where
  "agent_sandbox_run cx name container prompt port command s w =
     (let i = render container s in
      case sb_exec (cx_sandbox cx) i (launch_command command port) None w of
        (Inl e, w1) \<Rightarrow> (Inl e, w1, [])
      | (Inr res, w1) \<Rightarrow>
          (case sb_endpoint (cx_sandbox cx) i port w1 of
             (Inl e, w2) \<Rightarrow> (Inl e, w2, [])
           | (Inr addr, w2) \<Rightarrow>
               (case wait_ready (cx_ready cx) addr w2 0 of
                  Inl e \<Rightarrow> (Inl e, w2, [])
                | Inr u \<Rightarrow>
                    let (turn, w3) = cx_acp cx addr (render prompt s) w2;
                        (stopped, w4) = sb_exec (cx_sandbox cx) i stop_command None w3
                    in (case turn of Inl e \<Rightarrow> Inl e | Inr oc \<Rightarrow> Inr (outcome_update name oc), w4, []))))"

fun node_run :: "'w node_ctx \<Rightarrow> node \<Rightarrow> state \<Rightarrow> 'w \<Rightarrow> 'w node_run" where
  "node_run cx (AgentNode name prompt tools) s w = agent_run cx name prompt tools s w"
| "node_run cx (ToolNode name tool_name args) s w = tool_run cx name tool_name args w"
| "node_run cx (ScriptNode name script) s w = script_run cx name script s w"
| "node_run cx (HumanNode name prompt mode) s w = human_run cx name prompt mode s w"
| "node_run cx (ProvisionNode name img names) s w = provision_run cx name img names s w"
| "node_run cx (CheckoutNode name container repo git_ref path) s w =
     checkout_run cx name container repo git_ref path s w"
| "node_run cx (ExecNode name container run workdir) s w =
     exec_node_run cx name container run workdir s w"
| "node_run cx (AgentSandboxNode name container prompt port command) s w =
     agent_sandbox_run cx name container prompt port command s w"

section \<open>Lemmas\<close>

lemma node_run_shape:
  "case node_run cx nd s w of
     (Inl e, w1, ids) \<Rightarrow> ids = []
   | (Inr u, w1, ids) \<Rightarrow>
       \<exists>body st. u = from_node (nd_name nd) body st \<and>
         ids = (case nd of ProvisionNode n i es \<Rightarrow> [body] | _ \<Rightarrow> [])"
  by (cases nd)
    (auto simp: agent_run_def tool_run_def script_run_def human_run_def provision_run_def
      checkout_run_def exec_node_run_def container_run_def agent_sandbox_run_def agent_update_def outcome_update_def Let_def
      split: sum.split prod.split option.split human_mode.split)

definition digits :: "string \<Rightarrow> bool" where
  "digits s \<longleftrightarrow> list_all (\<lambda>c. c \<in> digit_char ` {..<10}) s"

lemma digits_show_nat: "digits (show_nat n)"
proof (induction n rule: show_nat.induct)
  case (1 n)
  then show ?case
    by (subst show_nat.simps) (auto simp: digits_def)
qed

lemma digit_step: "d < 10 \<Longrightarrow> sh_step Word (digit_char d) = (Word, [Active (digit_char d)])"
proof -
  assume "d < 10"
  then have "d \<in> {0, 1, 2, 3, 4, 5, 6, 7, 8, 9}" by auto
  then show ?thesis
    by (elim insertE emptyE; hypsubst) code_simp+
qed

lemma sh_scan_digits: "digits ds \<Longrightarrow> sh_scan Word ds = (Word, map Active ds)"
  by (induction ds) (auto simp: digits_def digit_step simp del: sh_step.simps)

text \<open>A piece of script text that neither quotes nor escapes is read as written.\<close>

lemma sh_scan_piece:
  assumes "sh_scan st piece = (st', outs)"
  shows "sh_scan st (piece @ rest) = (fst (sh_scan st' rest), outs @ snd (sh_scan st' rest))"
  using assms by (simp add: sh_scan_append Let_def split: prod.split)

lemma sh_scan_quoted:
  "unquoted st \<Longrightarrow> sh_scan st (shell_quote v @ rest) =
     (fst (sh_scan Word rest), map Literal v @ snd (sh_scan Word rest))"
  by (rule sh_scan_piece) (rule container_escape.escape_literal)

lemma git_clone_scan: "sh_scan Blank ''git clone '' = (Blank, map Active ''git clone '')"
  by code_simp

lemma space_scan: "sh_scan Word '' '' = (Blank, map Active '' '')"
  by code_simp

lemma git_and_scan: "sh_scan Word '' && git -C '' = (Blank, map Active '' && git -C '')"
  by code_simp

lemma checkout_scan: "sh_scan Word '' checkout '' = (Blank, map Active '' checkout '')"
  by code_simp

lemma nohup_scan: "sh_scan Blank ''nohup '' = (Blank, map Active ''nohup '')"
  by code_simp

lemma addr_scan: "sh_scan Word '' --addr 0.0.0.0:'' = (Word, map Active '' --addr 0.0.0.0:'')"
  by code_simp

lemma log_scan:
  "sh_scan Word ('' >/tmp/boitata-agent.log 2>&1 & echo $! >'' @ pid_file) =
     (Word, map Active ('' >/tmp/boitata-agent.log 2>&1 & echo $! >'' @ pid_file))"
  by code_simp

lemma unquoted_states [simp]: "unquoted Blank" "unquoted Word"
  by (simp_all add: unquoted_def)

lemma map_filter_Cons: "List.map_filter f (x # xs) = (case f x of None \<Rightarrow> [] | Some y \<Rightarrow> [y]) @ List.map_filter f xs"
  by (simp add: map_filter_simps split: option.split)

text \<open>
  A sandbox agent whose address never accepts: the launch ran, the stop command does not.  The
  world of this example lists the commands executed so far.
\<close>

definition log_backend :: "string list list sandbox_backend" where
  "log_backend = \<lparr>sb_provision = (\<lambda>img es w. (Inr ''box'', w)),
     sb_exec = (\<lambda>i argv wd w. (Inr (0, ''''), w @ [argv])),
     sb_endpoint = (\<lambda>i port w. (Inr ''10.0.0.2:9000'', w))\<rparr>"

lemma unready_agent_is_not_stopped:
  assumes "cx_sandbox cx = log_backend" "wait_ready (cx_ready cx) ''10.0.0.2:9000'' [launch_command command port] 0 = Inl e"
  shows "node_run cx (AgentSandboxNode name container prompt port command) s [] =
    (Inl e, [launch_command command port], [])"
  using assms by (simp add: agent_sandbox_run_def log_backend_def Let_def)

section \<open>Properties\<close>

text \<open>
  What a node may write: whatever its kind and whatever the outside world does, a
  node that returns an update emits exactly one transcript entry and one variable, both under
  its own name, with a status; a hard error provisions nothing, and the only sandboxes a run
  reports are the one whose id a provision node emits.
\<close>

theorem node_writes_its_own_channel:
  "case node_run cx nd s w of
     (Inl e, w1, ids) \<Rightarrow> ids = []
   | (Inr u, w1, ids) \<Rightarrow>
       \<exists>body st. up_messages u = [\<lparr>te_node = nd_name nd, te_text = body\<rparr>] \<and>
         up_vars u = [nd_name nd \<mapsto> body] \<and> up_status u = Some st \<and>
         ids = (case nd of ProvisionNode n i es \<Rightarrow> [body] | _ \<Rightarrow> [])"
  using node_run_shape [where cx = cx and nd = nd and s = s and w = w] by (force split: sum.splits prod.splits)

text \<open>
  Property C36.  No injection through the container commands: the shell reads the clone, checkout
  and launch scripts with exactly the operators the source writes, and the repository, path,
  reference and program as literal words.
\<close>

theorem container_commands_no_injection:
  "snd (sh_scan Blank (checkout_command repo path git_ref ! 2)) =
     map Active ''git clone '' @ map Literal repo @ map Active '' '' @ map Literal path @
     (case git_ref of
        None \<Rightarrow> []
      | Some r \<Rightarrow> map Active '' && git -C '' @ map Literal path @ map Active '' checkout '' @ map Literal r) \<and>
   snd (sh_scan Blank (launch_command command port ! 2)) =
     map Active ''nohup '' @ map Literal command @ map Active ('' --addr 0.0.0.0:'' @ show_nat port @
       '' >/tmp/boitata-agent.log 2>&1 & echo $! >'' @ pid_file)"
proof -
  have "sh_scan Blank (checkout_command repo path git_ref ! 2) =
     (Word, map Active ''git clone '' @ map Literal repo @ map Active '' '' @ map Literal path @
     (case git_ref of
        None \<Rightarrow> []
      | Some r \<Rightarrow> map Active '' && git -C '' @ map Literal path @ map Active '' checkout '' @ map Literal r))"
    unfolding checkout_command_def sh_c_def
    by (cases git_ref)
      (simp_all only: nth_Cons_0 nth_Cons_numeral nth_Cons_Suc numeral_2_eq_2 option.case
        sh_scan_piece [OF git_clone_scan] sh_scan_quoted unquoted_states sh_scan_piece [OF space_scan]
        sh_scan_piece [OF git_and_scan] sh_scan_piece [OF checkout_scan] fst_conv snd_conv
        append_Nil2 sh_scan.simps container_escape.escape_literal)
  moreover have "sh_scan Blank (launch_command command port ! 2) =
     (Word, map Active ''nohup '' @ map Literal command @ map Active '' --addr 0.0.0.0:'' @
       map Active (show_nat port) @ map Active ('' >/tmp/boitata-agent.log 2>&1 & echo $! >'' @ pid_file))"
    unfolding launch_command_def sh_c_def
    by (simp only: nth_Cons_0 nth_Cons_Suc numeral_2_eq_2 sh_scan_piece [OF nohup_scan] sh_scan_quoted
        unquoted_states sh_scan_piece [OF addr_scan] sh_scan_piece [OF sh_scan_digits [OF digits_show_nat]]
        log_scan fst_conv snd_conv)
  ultimately show ?thesis by (simp only: snd_conv map_append append_assoc simp_thms)
qed

text \<open>
  The environment forwarded into a sandbox: the pairs are for requested names only,
  in the requested order, one for each request that the process environment (not blank) or the
  configuration defines; a value is the trimmed process value when that is not blank, else
  the configured one; and a process value never reaches the sandbox blank.
\<close>

lemma forwarded_environment:
  "map fst (resolve_env getenv defaults names) =
     filter (\<lambda>n. case defaults n of Some d \<Rightarrow> True
       | None \<Rightarrow> \<exists>raw. getenv n = Some raw \<and> trim raw \<noteq> '''') names \<and>
   list_all (\<lambda>(n, v). if (\<exists>raw. getenv n = Some raw \<and> trim raw \<noteq> '''')
       then getenv n \<noteq> None \<and> v = trim (the (getenv n)) \<and> v \<noteq> ''''
       else defaults n = Some v) (resolve_env getenv defaults names)"
proof (induction names)
  case Nil
  then show ?case by (simp add: resolve_env_def map_filter_simps)
next
  case (Cons n ns)
  then show ?case
    by (cases "getenv n"; cases "defaults n"; cases "trim (the (getenv n)) = ''''")
      (simp_all add: resolve_env_def map_filter_Cons)
qed

end
