(* ===== verification/Graph.thy ===== *)
theory Graph
  imports Nodes
begin

text \<open>
  Blueprint graphs (the data half of \<open>boitata-orchestrator/src/lib.rs\<close>): routing, the builder
  and its validation, the successors of a node, and the small functions of the executor that
  only compute (audit rendering of routes, retry delay).

  A hash map whose iteration order matters is the list of its entries in insertion order; the
  order decides only which of several validation errors is reported.
\<close>

section \<open>Graphs\<close>

definition END :: string where
  "END = ''__end__''"

datatype routing = Static "string list" | Conditional "state \<Rightarrow> string list"

datatype blueprint_error = Invalid string | UnknownNode string | StepLimit nat

fun show_blueprint_error :: "blueprint_error \<Rightarrow> string" where
  "show_blueprint_error (Invalid m) = ''blueprint graph is invalid: '' @ m"
| "show_blueprint_error (UnknownNode n) = ''blueprint routed to unknown node '' @ bt @ n @ bt"
| "show_blueprint_error (StepLimit n) = ''blueprint exceeded its step limit ('' @ show_nat n @ '')''"

record graph =
  gr_name :: string
  gr_entry :: string
  gr_nodes :: "string \<rightharpoonup> node"
  gr_edges :: "string \<rightharpoonup> routing"

record graph_builder =
  gb_name :: string
  gb_entry :: string
  gb_nodes :: "string \<rightharpoonup> node"
  gb_edges :: "(string \<times> routing) list"
  gb_duplicate_nodes :: "string list"
  gb_edge_conflicts :: "string list"

definition new_builder :: "string \<Rightarrow> string \<Rightarrow> graph_builder" where
  "new_builder name entry =
     \<lparr>gb_name = name, gb_entry = entry, gb_nodes = Map.empty, gb_edges = [],
      gb_duplicate_nodes = [], gb_edge_conflicts = []\<rparr>"

definition gb_node :: "graph_builder \<Rightarrow> node \<Rightarrow> graph_builder" where
  "gb_node b nd =
     (let name = nd_name nd;
          b1 = b\<lparr>gb_nodes := (gb_nodes b)(name \<mapsto> nd)\<rparr>
      in if gb_nodes b name \<noteq> None
         then b1\<lparr>gb_duplicate_nodes := gb_duplicate_nodes b @ [name]\<rparr> else b1)"

text \<open>Insertion into the edge table: an existing source keeps its place.\<close>

fun put_edge :: "string \<Rightarrow> routing \<Rightarrow> (string \<times> routing) list \<Rightarrow> (string \<times> routing) list" where
  "put_edge k r [] = [(k, r)]"
| "put_edge k r ((k', r') # es) = (if k' = k then (k, r) # es else (k', r') # put_edge k r es)"

definition gb_edge :: "graph_builder \<Rightarrow> string \<Rightarrow> string \<Rightarrow> graph_builder" where
  "gb_edge b from_node_name to_name =
     (case map_of (gb_edges b) from_node_name of
        Some (Static targets) \<Rightarrow>
          b\<lparr>gb_edges := put_edge from_node_name (Static (targets @ [to_name])) (gb_edges b)\<rparr>
      | Some (Conditional r) \<Rightarrow> b\<lparr>gb_edge_conflicts := gb_edge_conflicts b @ [from_node_name]\<rparr>
      | None \<Rightarrow> b\<lparr>gb_edges := put_edge from_node_name (Static [to_name]) (gb_edges b)\<rparr>)"

definition gb_conditional :: "graph_builder \<Rightarrow> string \<Rightarrow> (state \<Rightarrow> string list) \<Rightarrow> graph_builder" where
  "gb_conditional b from_node_name router =
     (let b1 = b\<lparr>gb_edges := put_edge from_node_name (Conditional router) (gb_edges b)\<rparr>
      in if map_of (gb_edges b) from_node_name \<noteq> None
         then b1\<lparr>gb_edge_conflicts := gb_edge_conflicts b @ [from_node_name]\<rparr> else b1)"

definition dedup_names :: "string list \<Rightarrow> string option" where
  "dedup_names names = (if names = [] then None else Some (join '', '' (sort_dedup names)))"

definition known_target :: "(string \<rightharpoonup> node) \<Rightarrow> string \<Rightarrow> bool" where
  "known_target nodes i \<longleftrightarrow> i = END \<or> nodes i \<noteq> None"

fun check_targets :: "(string \<rightharpoonup> node) \<Rightarrow> string \<Rightarrow> string list \<Rightarrow> blueprint_error option" where
  "check_targets nodes src [] = None"
| "check_targets nodes src (t # ts) =
     (if \<not> known_target nodes t
      then Some (Invalid (''edge '' @ bt @ src @ bt @ '' -> '' @ bt @ t @ bt @ '' targets an unknown node''))
      else check_targets nodes src ts)"

fun check_edges :: "(string \<rightharpoonup> node) \<Rightarrow> (string \<times> routing) list \<Rightarrow> blueprint_error option" where
  "check_edges nodes [] = None"
| "check_edges nodes ((src, r) # es) =
     (if nodes src = None
      then Some (Invalid (''edge source '' @ bt @ src @ bt @ '' is not a node''))
      else (case (case r of Static ts \<Rightarrow> check_targets nodes src ts | Conditional f \<Rightarrow> None) of
              Some e \<Rightarrow> Some e
            | None \<Rightarrow> check_edges nodes es))"

definition gb_build :: "graph_builder \<Rightarrow> blueprint_error + graph" where
  "gb_build b =
     (case dedup_names (gb_duplicate_nodes b) of
        Some dupes \<Rightarrow> Inl (Invalid (''duplicate node name(s): '' @ dupes))
      | None \<Rightarrow>
          (case dedup_names (gb_edge_conflicts b) of
             Some dupes \<Rightarrow>
               Inl (Invalid (''node(s) with a conditional edge mixed with other edges: '' @ dupes))
           | None \<Rightarrow>
               if gb_nodes b (gb_entry b) = None
               then Inl (Invalid (''entry '' @ bt @ gb_entry b @ bt @ '' is not a node''))
               else (case check_edges (gb_nodes b) (gb_edges b) of
                       Some e \<Rightarrow> Inl e
                     | None \<Rightarrow> Inr \<lparr>gr_name = gb_name b, gr_entry = gb_entry b,
                                    gr_nodes = gb_nodes b, gr_edges = map_of (gb_edges b)\<rparr>)))"

section \<open>Routing\<close>

definition route_targets :: "graph \<Rightarrow> string \<Rightarrow> state \<Rightarrow> string list" where
  "route_targets g current s =
     (case gr_edges g current of
        Some (Static targets) \<Rightarrow> targets
      | Some (Conditional router) \<Rightarrow> router s
      | None \<Rightarrow> [END])"

definition route :: "graph \<Rightarrow> string \<Rightarrow> state \<Rightarrow> blueprint_error + string list" where
  "route g current s =
     (let targets = route_targets g current s
      in case find (\<lambda>t. t \<noteq> END \<and> gr_nodes g t = None) targets of
           Some t \<Rightarrow> Inl (UnknownNode t)
         | None \<Rightarrow> Inr targets)"

definition display_routes :: "string list \<Rightarrow> string" where
  "display_routes routes =
     (if routes = [] then ''END''
      else join ''+'' (map (\<lambda>t. if t = END then ''END'' else t) routes))"

text \<open>
  The delay before a retry in milliseconds.  \<open>saturating_mul\<close> never saturates: the factor is
  at most \<open>2 ^ 16\<close>.
\<close>

definition retry_backoff :: "nat \<Rightarrow> nat" where
  "retry_backoff attempt = min (250 * 2 ^ min (attempt - 1) 16) 5000"

section \<open>Lemmas\<close>

lemma map_of_put_edge: "map_of (put_edge k r es) = (map_of es)(k \<mapsto> r)"
  by (induction es) auto

lemma put_edge_keys: "fst ` set (put_edge k r es) = insert k (fst ` set es)"
  by (induction k r es rule: put_edge.induct) (auto split: if_splits)

lemma dedup_names_None: "dedup_names ns = None \<longleftrightarrow> ns = []"
  by (simp add: dedup_names_def)

lemma check_targets_None: "check_targets nodes src ts = None \<longleftrightarrow> list_all (known_target nodes) ts"
  by (induction ts) auto

definition routing_known :: "(string \<rightharpoonup> node) \<Rightarrow> routing \<Rightarrow> bool" where
  "routing_known nodes r = (case r of Static ts \<Rightarrow> list_all (known_target nodes) ts | Conditional f \<Rightarrow> True)"

lemma check_edges_None:
  "check_edges nodes es = None \<longleftrightarrow>
     list_all (\<lambda>(src, r). nodes src \<noteq> None \<and> routing_known nodes r) es"
proof (induction nodes es rule: check_edges.induct)
  case (2 nodes src r es)
  have "(case r of Static ts \<Rightarrow> check_targets nodes src ts | Conditional f \<Rightarrow> None) = None \<longleftrightarrow>
      routing_known nodes r"
    by (cases r) (simp_all add: routing_known_def check_targets_None)
  with 2 show ?case by (cases "nodes src") (auto split: option.split)
qed simp

lemma gb_build_Inr:
  "gb_build b = Inr g \<longleftrightarrow>
     gb_duplicate_nodes b = [] \<and> gb_edge_conflicts b = [] \<and> gb_nodes b (gb_entry b) \<noteq> None \<and>
     list_all (\<lambda>(src, r). gb_nodes b src \<noteq> None \<and> routing_known (gb_nodes b) r) (gb_edges b) \<and>
     g = \<lparr>gr_name = gb_name b, gr_entry = gb_entry b, gr_nodes = gb_nodes b, gr_edges = map_of (gb_edges b)\<rparr>"
proof -
  have "gb_build b = Inr g \<longleftrightarrow>
     dedup_names (gb_duplicate_nodes b) = None \<and> dedup_names (gb_edge_conflicts b) = None \<and>
     gb_nodes b (gb_entry b) \<noteq> None \<and> check_edges (gb_nodes b) (gb_edges b) = None \<and>
     g = \<lparr>gr_name = gb_name b, gr_entry = gb_entry b, gr_nodes = gb_nodes b, gr_edges = map_of (gb_edges b)\<rparr>"
    by (auto simp: gb_build_def split: option.splits)
  then show ?thesis by (simp add: dedup_names_None check_edges_None)
qed

lemma route_Inr:
  "route g n s = Inr ts \<longleftrightarrow> ts = route_targets g n s \<and> list_all (known_target (gr_nodes g)) ts"
  by (auto simp: route_def Let_def find_None_iff list_all_iff known_target_def
      dest: find_Some_mem split: option.splits)

lemma retry_backoff_range: "250 \<le> retry_backoff n \<and> retry_backoff n \<le> 5000"
proof -
  have "(1::nat) \<le> 2 ^ min (n - 1) 16" by simp
  then have "250 \<le> (250::nat) * 2 ^ min (n - 1) 16" by simp
  then show ?thesis by (simp add: retry_backoff_def)
qed

section \<open>Properties\<close>

text \<open>
  What \<open>build\<close> accepts: a builder compiles exactly when no node name was added
  twice, no source mixes a router with other edges, the entry is a node, and every edge leaves
  a node and, when its targets are fixed, leads to nodes or the end; the graph then has the
  builder's nodes and edges unchanged.
\<close>

theorem build_validates:
  "gb_build b = Inr g \<longleftrightarrow>
     gb_duplicate_nodes b = [] \<and> gb_edge_conflicts b = [] \<and> gb_nodes b (gb_entry b) \<noteq> None \<and>
     list_all (\<lambda>(src, r). gb_nodes b src \<noteq> None \<and>
        (case r of Static ts \<Rightarrow> list_all (known_target (gb_nodes b)) ts | Conditional f \<Rightarrow> True)) (gb_edges b) \<and>
     gr_name g = gb_name b \<and> gr_entry g = gb_entry b \<and> gr_nodes g = gb_nodes b \<and>
     gr_edges g = map_of (gb_edges b)"
  by (cases g) (simp add: gb_build_Inr routing_known_def)

end
