(* ===== verification/Yaml.thy ===== *)
theory Yaml
  imports Graph
begin

text \<open>
  The blueprint schema and its compilation (\<open>boitata-orchestrator/src/yaml.rs\<close>): node and edge
  definitions, their description for display, and \<open>into_graph\<close>.

  Reading YAML text into these definitions is the work of an external library; the model
  starts from the parsed definition.  The node map is the list of its entries in iteration
  order.  \<open>pretty\<close> is the pretty printer of JSON values.
\<close>

section \<open>Definitions\<close>

datatype node_def =
    DAgent string "string list option"
  | DTool string json
  | DScript string
  | DHuman string human_mode
  | DProvision string "string list"
  | DCheckout string string "string option" "string option"
  | DExec string string "string option"
  | DAgentSandbox string string "nat option" "string option"

record edge_def =
  ed_from :: string
  ed_to :: string
  ed_when :: "string option"

record blueprint_def =
  bd_name :: string
  bd_entry :: string
  bd_nodes :: "(string \<times> node_def) list"
  bd_edges :: "edge_def list"

definition empty_args :: json where
  "empty_args = JObj []"

datatype execution = Probabilistic | Deterministic | HumanStep

fun kind_str :: "node_def \<Rightarrow> string" where
  "kind_str (DAgent p ts) = ''agent''"
| "kind_str (DTool t a) = ''tool''"
| "kind_str (DScript r) = ''script''"
| "kind_str (DHuman p m) = ''human''"
| "kind_str (DProvision i e) = ''provision''"
| "kind_str (DCheckout c r g p) = ''checkout''"
| "kind_str (DExec c r w) = ''exec''"
| "kind_str (DAgentSandbox c p port cmd) = ''agent_sandbox''"

fun execution_of :: "node_def \<Rightarrow> execution" where
  "execution_of (DAgent p ts) = Probabilistic"
| "execution_of (DAgentSandbox c p port cmd) = Probabilistic"
| "execution_of (DHuman p m) = HumanStep"
| "execution_of (DTool t a) = Deterministic"
| "execution_of (DScript r) = Deterministic"
| "execution_of (DProvision i e) = Deterministic"
| "execution_of (DCheckout c r g p) = Deterministic"
| "execution_of (DExec c r w) = Deterministic"

fun detail :: "node_def \<Rightarrow> string option" where
  "detail (DAgent p ts) = None"
| "detail (DAgentSandbox c p port cmd) = None"
| "detail (DTool t a) = Some t"
| "detail (DScript r) = Some r"
| "detail (DHuman p m) = Some p"
| "detail (DProvision i e) = Some i"
| "detail (DCheckout c r g p) = Some r"
| "detail (DExec c r w) = Some r"

type_synonym config_field = "string \<times> string"

definition opt_field :: "string \<Rightarrow> string option \<Rightarrow> config_field list" where
  "opt_field k v = (case v of Some x \<Rightarrow> [(k, x)] | None \<Rightarrow> [])"

fun config :: "(json \<Rightarrow> string) \<Rightarrow> node_def \<Rightarrow> config_field list" where
  "config pretty (DAgent prompt tools) =
     (''prompt'', prompt) # opt_field ''tools'' (map_option (join '', '') tools)"
| "config pretty (DTool t args) =
     (''tool'', t) # (if args \<noteq> JNull \<and> as_object args \<noteq> Some [] then [(''args'', pretty args)] else [])"
| "config pretty (DScript run) = [(''run'', run)]"
| "config pretty (DHuman prompt mode) =
     [(''prompt'', prompt), (''mode'', case mode of InputMode \<Rightarrow> ''input'' | ApprovalMode \<Rightarrow> ''approval'')]"
| "config pretty (DProvision img env) =
     (''image'', img) # (if env \<noteq> [] then [(''env'', join '', '' env)] else [])"
| "config pretty (DCheckout container repo git_ref path) =
     [(''container'', container), (''repo'', repo)] @ opt_field ''ref'' git_ref @ opt_field ''path'' path"
| "config pretty (DExec container run workdir) =
     [(''container'', container), (''run'', run)] @ opt_field ''workdir'' workdir"
| "config pretty (DAgentSandbox container prompt port command) =
     [(''container'', container), (''prompt'', prompt)] @
     opt_field ''port'' (map_option show_nat port) @ opt_field ''command'' command"

section \<open>Description\<close>

record node_info =
  ni_id :: string
  ni_kind :: string
  ni_execution :: execution
  ni_detail :: "string option"
  ni_config :: "config_field list"

record edge_info =
  ei_from :: string
  ei_to :: string
  ei_when :: "string option"

record blueprint_graph =
  bg_name :: string
  bg_entry :: string
  bg_nodes :: "node_info list"
  bg_edges :: "edge_info list"

definition is_end :: "string \<Rightarrow> bool" where
  "is_end t \<longleftrightarrow> eq_ignore_ascii_case t ''END''"

text \<open>The sort is by the pair of the rank (the entry first) and the name.\<close>

definition describe_node :: "(json \<Rightarrow> string) \<Rightarrow> string \<times> node_def \<Rightarrow> node_info" where
  "describe_node pretty nd =
     \<lparr>ni_id = fst nd, ni_kind = kind_str (snd nd), ni_execution = execution_of (snd nd),
      ni_detail = detail (snd nd), ni_config = config pretty (snd nd)\<rparr>"

definition describe :: "(json \<Rightarrow> string) \<Rightarrow> blueprint_def \<Rightarrow> blueprint_graph" where
  "describe pretty def =
     (let infos = map (describe_node pretty) (bd_nodes def);
          entry_first = filter (\<lambda>n. ni_id n = bd_entry def) infos;
          others = filter (\<lambda>n. ni_id n \<noteq> bd_entry def) infos
      in \<lparr>bg_name = bd_name def, bg_entry = bd_entry def,
          bg_nodes = sort_key ni_id entry_first @ sort_key ni_id others,
          bg_edges = map (\<lambda>e. \<lparr>ei_from = ed_from e, ei_to = (if is_end (ed_to e) then ''END'' else ed_to e),
                                ei_when = ed_when e\<rparr>) (bd_edges def)\<rparr>)"

section \<open>Compilation\<close>

definition normalize_target :: "string \<Rightarrow> string" where
  "normalize_target t = (if is_end t then END else t)"

fun def_node :: "string \<Rightarrow> node_def \<Rightarrow> node" where
  "def_node name (DAgent prompt tools) = AgentNode name prompt tools"
| "def_node name (DTool t args) = ToolNode name t args"
| "def_node name (DScript run) = ScriptNode name run"
| "def_node name (DHuman prompt mode) = HumanNode name prompt mode"
| "def_node name (DProvision img env) = ProvisionNode name img env"
| "def_node name (DCheckout container repo git_ref path) = new_checkout name container repo git_ref path"
| "def_node name (DExec container run workdir) = ExecNode name container run workdir"
| "def_node name (DAgentSandbox container prompt port command) =
     new_agent_sandbox name container prompt port command"

definition add_node :: "graph_builder \<Rightarrow> string \<Rightarrow> node_def \<Rightarrow> graph_builder" where
  "add_node b name nd = gb_node b (def_node name nd)"

text \<open>The fold of a conditional group into the two successor lists of its router.\<close>

fun fold_when ::
    "string \<Rightarrow> string set \<Rightarrow> edge_def list \<Rightarrow> string list \<times> string list \<Rightarrow> string + string list \<times> string list" where
  "fold_when src known [] acc = Inr acc"
| "fold_when src known (e # es) (on_success, on_failure) =
     (let w = (case ed_when e of Some w \<Rightarrow> w | None \<Rightarrow> '''');
          target = normalize_target (ed_to e)
      in if target \<noteq> END \<and> target \<notin> known
         then Inl (''edge '' @ bt @ src @ bt @ '' -> '' @ bt @ target @ bt @ '' (when: '' @ w @ '') targets an unknown node'')
         else if w = ''success'' then fold_when src known es (on_success @ [target], on_failure)
         else if w = ''failure'' then fold_when src known es (on_success, on_failure @ [target])
         else Inl (''edge from '' @ bt @ src @ bt @ '' has unknown '' @ bt @ ''when: '' @ w @ bt @ '' (use success|failure)''))"

definition status_router :: "string list \<Rightarrow> string list \<Rightarrow> state \<Rightarrow> string list" where
  "status_router on_success on_failure s = (if status s = Some Failed then on_failure else on_success)"

definition add_conditional ::
    "graph_builder \<Rightarrow> string \<Rightarrow> edge_def list \<Rightarrow> string set \<Rightarrow> string + graph_builder" where
  "add_conditional b src grp known =
     and_then (fold_when src known grp ([], [])) (\<lambda>(on_success, on_failure).
       Inr (gb_conditional b src (status_router on_success on_failure)))"

definition add_group ::
    "graph_builder \<Rightarrow> string \<Rightarrow> edge_def list \<Rightarrow> string set \<Rightarrow> string + graph_builder" where
  "add_group b src grp known =
     (if src \<notin> known then Inl (''edge source '' @ bt @ src @ bt @ '' is not a node'')
      else
        let has_conditional = list_ex (\<lambda>e. ed_when e \<noteq> None) grp;
            has_unconditional = list_ex (\<lambda>e. ed_when e = None) grp
        in if has_conditional \<and> has_unconditional
           then Inl (''node '' @ bt @ src @ bt @ '' mixes conditional ('' @ bt @ ''when'' @ bt @
                     '') and unconditional edges; make them all conditional'')
           else if has_conditional then add_conditional b src grp known
           else Inr (foldl (\<lambda>b e. gb_edge b src (normalize_target (ed_to e))) b grp))"

fun add_groups ::
    "graph_builder \<Rightarrow> edge_def list \<Rightarrow> string set \<Rightarrow> string list \<Rightarrow> string + graph_builder" where
  "add_groups b edges known [] = Inr b"
| "add_groups b edges known (src # order) =
     and_then (add_group b src (filter (\<lambda>e. ed_from e = src) edges) known)
       (\<lambda>b1. add_groups b1 edges known order)"

text \<open>The sources in the order of their first edge.\<close>

definition source_order :: "edge_def list \<Rightarrow> string list" where
  "source_order edges =
     foldl (\<lambda>order e. if ed_from e \<in> set order then order else order @ [ed_from e]) [] edges"

definition add_edges :: "graph_builder \<Rightarrow> edge_def list \<Rightarrow> string set \<Rightarrow> string + graph_builder" where
  "add_edges b edges known = add_groups b edges known (source_order edges)"

definition into_graph :: "blueprint_def \<Rightarrow> string + graph" where
  "into_graph def =
     (let known = set (map fst (bd_nodes def));
          b = foldl (\<lambda>b (name, nd). add_node b name nd)
                (new_builder (bd_name def) (bd_entry def)) (bd_nodes def)
      in and_then (add_edges b (bd_edges def) known) (\<lambda>b1. map_err show_blueprint_error (gb_build b1)))"

section \<open>What a definition routes to\<close>

text \<open>The successors a definition asks for, read off its edges.\<close>

definition edges_from :: "blueprint_def \<Rightarrow> string \<Rightarrow> edge_def list" where
  "edges_from def n = filter (\<lambda>e. ed_from e = n) (bd_edges def)"

definition wanted :: "state \<Rightarrow> edge_def \<Rightarrow> bool" where
  "wanted s e = (case ed_when e of None \<Rightarrow> True
     | Some w \<Rightarrow> w = (if status s = Some Failed then ''failure'' else ''success''))"

definition spec_targets :: "blueprint_def \<Rightarrow> string \<Rightarrow> state \<Rightarrow> string list" where
  "spec_targets def n s =
     (if edges_from def n = [] then [END]
      else map (\<lambda>e. normalize_target (ed_to e)) (filter (wanted s) (edges_from def n)))"

definition when_targets :: "string \<Rightarrow> edge_def list \<Rightarrow> string list" where
  "when_targets w es = map (\<lambda>e. normalize_target (ed_to e)) (filter (\<lambda>e. ed_when e = Some w) es)"

definition grp_routing :: "edge_def list \<Rightarrow> routing" where
  "grp_routing grp =
     (if list_ex (\<lambda>e. ed_when e \<noteq> None) grp
      then Conditional (status_router (when_targets ''success'' grp) (when_targets ''failure'' grp))
      else Static (map (\<lambda>e. normalize_target (ed_to e)) grp))"

lemma source_order_snoc:
  "source_order (es @ [e]) = (if ed_from e \<in> set (source_order es) then source_order es
                              else source_order es @ [ed_from e])"
  by (simp add: source_order_def)

lemma source_order_props: "set (source_order es) = ed_from ` set es \<and> distinct (source_order es)"
proof (induction es rule: rev_induct)
  case Nil
  then show ?case by (simp add: source_order_def)
next
  case (snoc e es)
  then show ?case by (auto simp: source_order_snoc)
qed

lemma fold_when_Inr:
  assumes "fold_when src known es (ss, fs) = Inr (ss', fs')" "list_all (\<lambda>e. ed_when e \<noteq> None) es"
  shows "ss' = ss @ when_targets ''success'' es \<and> fs' = fs @ when_targets ''failure'' es \<and>
    list_all (\<lambda>e. (normalize_target (ed_to e) = END \<or> normalize_target (ed_to e) \<in> known) \<and>
                  (ed_when e = Some ''success'' \<or> ed_when e = Some ''failure'')) es"
  using assms
proof (induction es arbitrary: ss fs)
  case Nil
  then show ?case by (simp add: when_targets_def)
next
  case (Cons e es)
  then obtain w where w: "ed_when e = Some w" by auto
  let ?t = "normalize_target (ed_to e)"
  have rest: "list_all (\<lambda>e. ed_when e \<noteq> None) es" using Cons.prems(2) by simp
  from Cons.prems(1) w consider
      "w = ''success''" "fold_when src known es (ss @ [?t], fs) = Inr (ss', fs')" "?t = END \<or> ?t \<in> known"
    | "w = ''failure''" "fold_when src known es (ss, fs @ [?t]) = Inr (ss', fs')" "?t = END \<or> ?t \<in> known"
    by (auto simp: Let_def split: if_splits)
  then show ?case
  proof cases
    case 1
    from Cons.IH [OF 1(2) rest] 1 w show ?thesis by (simp add: when_targets_def)
  next
    case 2
    from Cons.IH [OF 2(2) rest] 2 w show ?thesis by (simp add: when_targets_def)
  qed
qed

text \<open>One group installs its routing and touches nothing else of the builder.\<close>

definition same_nodes :: "graph_builder \<Rightarrow> graph_builder \<Rightarrow> bool" where
  "same_nodes b b1 \<longleftrightarrow> gb_nodes b1 = gb_nodes b \<and> gb_edge_conflicts b1 = gb_edge_conflicts b \<and>
     gb_name b1 = gb_name b \<and> gb_entry b1 = gb_entry b \<and> gb_duplicate_nodes b1 = gb_duplicate_nodes b"

lemma same_nodes_trans: "same_nodes a b \<Longrightarrow> same_nodes b c \<Longrightarrow> same_nodes a c"
  by (simp add: same_nodes_def)

lemma gb_edge_more:
  assumes "map_of (gb_edges b) src = Some (Static ts)"
  shows "map_of (gb_edges (gb_edge b src t)) = (map_of (gb_edges b))(src \<mapsto> Static (ts @ [t]))"
    "same_nodes b (gb_edge b src t)"
  using assms by (simp_all add: gb_edge_def map_of_put_edge same_nodes_def)

lemma gb_edge_first:
  assumes "map_of (gb_edges b) src = None"
  shows "map_of (gb_edges (gb_edge b src t)) = (map_of (gb_edges b))(src \<mapsto> Static [t])"
    "same_nodes b (gb_edge b src t)"
  using assms by (simp_all add: gb_edge_def map_of_put_edge same_nodes_def)

definition add_targets :: "graph_builder \<Rightarrow> string \<Rightarrow> edge_def list \<Rightarrow> graph_builder" where
  "add_targets b src es = foldl (\<lambda>b e. gb_edge b src (normalize_target (ed_to e))) b es"

lemma add_targets_Cons:
  "add_targets b src (e # es) = add_targets (gb_edge b src (normalize_target (ed_to e))) src es"
  by (simp add: add_targets_def)

lemma add_targets_more:
  assumes "map_of (gb_edges b) src = Some (Static ts)"
  shows "map_of (gb_edges (add_targets b src es)) =
      (map_of (gb_edges b))(src \<mapsto> Static (ts @ map (\<lambda>e. normalize_target (ed_to e)) es)) \<and>
    same_nodes b (add_targets b src es)"
  using assms
proof (induction es arbitrary: b ts)
  case Nil
  then show ?case by (simp add: add_targets_def same_nodes_def fun_upd_idem)
next
  case (Cons e es)
  let ?b = "gb_edge b src (normalize_target (ed_to e))"
  note m = gb_edge_more [OF Cons.prems, of "normalize_target (ed_to e)"]
  have "map_of (gb_edges ?b) src = Some (Static (ts @ [normalize_target (ed_to e)]))"
    unfolding m(1) by simp
  from Cons.IH [OF this] m(2) show ?case
    unfolding add_targets_Cons m(1)
    by (simp only: fun_upd_upd append_assoc append.simps list.map) (auto intro: same_nodes_trans)
qed

definition grp_ok :: "string set \<Rightarrow> edge_def list \<Rightarrow> bool" where
  "grp_ok known grp \<longleftrightarrow>
     (if list_ex (\<lambda>e. ed_when e \<noteq> None) grp
      then list_all (\<lambda>e. (normalize_target (ed_to e) = END \<or> normalize_target (ed_to e) \<in> known) \<and>
                  (ed_when e = Some ''success'' \<or> ed_when e = Some ''failure'')) grp
      else True)"

lemma add_group_Inr:
  assumes "add_group b src grp known = Inr b1" "map_of (gb_edges b) src = None" "grp \<noteq> []"
  shows "src \<in> known \<and> same_nodes b b1 \<and> grp_ok known grp \<and>
    map_of (gb_edges b1) = (map_of (gb_edges b))(src \<mapsto> grp_routing grp)"
proof (cases "list_ex (\<lambda>e. ed_when e \<noteq> None) grp")
  case True
  with assms(1) have all: "list_all (\<lambda>e. ed_when e \<noteq> None) grp"
    by (auto simp: add_group_def Let_def list_all_iff list_ex_iff split: if_splits)
  from True assms(1) have "add_conditional b src grp known = Inr b1" "src \<in> known"
    by (auto simp: add_group_def Let_def split: if_splits)
  then obtain ss fs where f: "fold_when src known grp ([], []) = Inr (ss, fs)"
    and b1: "b1 = gb_conditional b src (status_router ss fs)"
    by (auto simp: add_conditional_def and_then_Inr_iff)
  from fold_when_Inr [OF f all] b1 assms(2) True \<open>src \<in> known\<close> show ?thesis
    by (simp add: gb_conditional_def grp_routing_def grp_ok_def same_nodes_def map_of_put_edge)
next
  case False
  obtain e es where grp: "grp = e # es" using assms(3) by (cases grp) auto
  let ?b = "gb_edge b src (normalize_target (ed_to e))"
  from assms(1) False have b1: "src \<in> known" "b1 = add_targets ?b src es"
    by (auto simp: add_group_def Let_def grp add_targets_def split: if_splits)
  note m = gb_edge_first [OF assms(2), of "normalize_target (ed_to e)"]
  have "map_of (gb_edges ?b) src = Some (Static [normalize_target (ed_to e)])"
    unfolding m(1) by simp
  from add_targets_more [OF this, of es] b1(1) m(2) False show ?thesis
    unfolding b1(2) m(1) grp_ok_def grp_routing_def
    by (simp only: fun_upd_upd if_False grp list.map append.simps) (auto intro: same_nodes_trans)
qed

lemma add_groups_Inr:
  assumes "add_groups b edges known order = Inr b1" "distinct order"
    and "\<And>k. k \<in> set order \<Longrightarrow> map_of (gb_edges b) k = None \<and> filter (\<lambda>e. ed_from e = k) edges \<noteq> []"
  shows "same_nodes b b1 \<and> set order \<subseteq> known \<and>
    (\<forall>k \<in> set order. grp_ok known (filter (\<lambda>e. ed_from e = k) edges)) \<and>
    (\<forall>k. map_of (gb_edges b1) k =
       (if k \<in> set order then Some (grp_routing (filter (\<lambda>e. ed_from e = k) edges)) else map_of (gb_edges b) k))"
  using assms
proof (induction order arbitrary: b)
  case Nil
  then show ?case by (simp add: same_nodes_def)
next
  case (Cons src order)
  let ?grp = "filter (\<lambda>e. ed_from e = src) edges"
  from Cons.prems(1) obtain b0 where b0: "add_group b src ?grp known = Inr b0"
    "add_groups b0 edges known order = Inr b1"
    by (auto simp: and_then_Inr_iff)
  from add_group_Inr [OF b0(1)] Cons.prems(3) [of src]
  have g: "src \<in> known" "same_nodes b b0" "grp_ok known ?grp"
    "map_of (gb_edges b0) = (map_of (gb_edges b))(src \<mapsto> grp_routing ?grp)" by auto
  have "map_of (gb_edges b0) k = None \<and> filter (\<lambda>e. ed_from e = k) edges \<noteq> []" if "k \<in> set order" for k
    using that Cons.prems(2,3) g(4) by auto
  from Cons.IH [OF b0(2) _ this] Cons.prems(2) g show ?case
    by (auto simp: same_nodes_def)
qed

section \<open>The compiled graph\<close>

lemma def_node_name [simp]: "nd_name (def_node n d) = n"
  by (cases d) (simp_all add: new_checkout_def new_agent_sandbox_def)

definition add_nodes :: "graph_builder \<Rightarrow> (string \<times> node_def) list \<Rightarrow> graph_builder" where
  "add_nodes b ns = foldl (\<lambda>b (name, nd). add_node b name nd) b ns"

lemma add_nodes_frame:
  "gb_edges (add_nodes b ns) = gb_edges b \<and> gb_edge_conflicts (add_nodes b ns) = gb_edge_conflicts b \<and>
   gb_name (add_nodes b ns) = gb_name b \<and> gb_entry (add_nodes b ns) = gb_entry b"
  by (induction ns arbitrary: b)
    (auto simp: add_nodes_def add_node_def gb_node_def Let_def)

lemma add_nodes_Cons: "add_nodes b (p # ns) = add_nodes (add_node b (fst p) (snd p)) ns"
  by (simp add: add_nodes_def case_prod_beta)

lemma add_nodes_dups: "gb_duplicate_nodes (add_nodes b ns) = [] \<Longrightarrow> gb_duplicate_nodes b = []"
proof (induction ns arbitrary: b)
  case (Cons p ns)
  from Cons.IH [of "add_node b (fst p) (snd p)"] Cons.prems show ?case
    by (auto simp: add_nodes_Cons add_node_def gb_node_def Let_def split: if_splits)
qed (simp add: add_nodes_def)

lemma add_nodes_nodes:
  "gb_duplicate_nodes (add_nodes b ns) = [] \<Longrightarrow>
     gb_nodes (add_nodes b ns) = gb_nodes b ++ (\<lambda>k. map_option (def_node k) (map_of ns k)) \<and>
     distinct (map fst ns) \<and> fst ` set ns \<inter> dom (gb_nodes b) = {}"
proof (induction ns arbitrary: b)
  case Nil
  then show ?case by (simp add: add_nodes_def)
next
  case (Cons p ns)
  obtain n d where p: "p = (n, d)" by (cases p)
  let ?b = "add_node b n d"
  from Cons.prems have dups: "gb_duplicate_nodes (add_nodes ?b ns) = []" by (simp add: add_nodes_Cons p)
  from add_nodes_dups [OF this] have fresh: "gb_nodes b n = None"
    by (auto simp: add_node_def gb_node_def Let_def split: if_splits)
  have nodes: "gb_nodes ?b = (gb_nodes b)(n \<mapsto> def_node n d)"
    by (simp add: add_node_def gb_node_def Let_def)
  from Cons.IH [OF dups] fresh show ?case
    unfolding add_nodes_Cons p fst_conv snd_conv nodes
    by (fastforce simp: map_add_def fun_eq_iff map_of_eq_None_iff split: option.split)
qed

text \<open>Everything a successful compilation establishes.\<close>

lemma into_graph_Inr:
  assumes "into_graph def = Inr g"
  shows "gr_name g = bd_name def" "gr_entry g = bd_entry def"
    "gr_nodes g = (\<lambda>k. map_option (def_node k) (map_of (bd_nodes def) k))"
    "distinct (map fst (bd_nodes def))"
    "gr_nodes g (gr_entry g) \<noteq> None"
    "gr_edges g k = (if edges_from def k = [] then None else Some (grp_routing (edges_from def k)))"
    "edges_from def k \<noteq> [] \<Longrightarrow> gr_nodes g k \<noteq> None \<and> grp_ok (dom (gr_nodes g)) (edges_from def k)"
    "edges_from def k \<noteq> [] \<Longrightarrow> routing_known (gr_nodes g) (grp_routing (edges_from def k))"
proof -
  let ?known = "set (map fst (bd_nodes def))"
  let ?b = "add_nodes (new_builder (bd_name def) (bd_entry def)) (bd_nodes def)"
  from assms obtain b1 where b1: "add_edges ?b (bd_edges def) ?known = Inr b1" "gb_build b1 = Inr g"
    by (auto simp: into_graph_def Let_def and_then_Inr_iff add_nodes_def)
  have empty: "map_of (gb_edges ?b) k = None" for k by (simp add: add_nodes_frame new_builder_def)
  have src: "filter (\<lambda>e. ed_from e = k) (bd_edges def) \<noteq> []" if "k \<in> set (source_order (bd_edges def))" for k
    using that source_order_props [of "bd_edges def"] by (auto simp: filter_empty_conv)
  from add_groups_Inr [OF b1(1) [unfolded add_edges_def]] source_order_props [of "bd_edges def"] empty src
  have e: "same_nodes ?b b1" "ed_from ` set (bd_edges def) \<subseteq> ?known"
    "\<forall>k \<in> ed_from ` set (bd_edges def). grp_ok ?known (edges_from def k)"
    "\<forall>k. map_of (gb_edges b1) k =
       (if k \<in> ed_from ` set (bd_edges def) then Some (grp_routing (edges_from def k)) else None)"
    by (auto simp: edges_from_def)
  from b1(2) have g: "gb_duplicate_nodes b1 = []" "gb_nodes b1 (gb_entry b1) \<noteq> None"
    "list_all (\<lambda>(src, r). gb_nodes b1 src \<noteq> None \<and> routing_known (gb_nodes b1) r) (gb_edges b1)"
    "gr_name g = gb_name b1" "gr_entry g = gb_entry b1" "gr_nodes g = gb_nodes b1"
    "gr_edges g = map_of (gb_edges b1)"
    by (auto simp: gb_build_Inr)
  have "gb_duplicate_nodes ?b = []" using g(1) e(1) by (simp add: same_nodes_def)
  note n = add_nodes_nodes [OF this]
  show nodes: "gr_nodes g = (\<lambda>k. map_option (def_node k) (map_of (bd_nodes def) k))"
    using n e(1) g(6) by (simp add: same_nodes_def new_builder_def)
  show "distinct (map fst (bd_nodes def))" using n by blast
  show "gr_name g = bd_name def" "gr_entry g = bd_entry def"
    using g e(1) by (simp_all add: same_nodes_def add_nodes_frame new_builder_def)
  show "gr_nodes g (gr_entry g) \<noteq> None" using g by simp
  have dom: "dom (gr_nodes g) = ?known"
    by (auto simp: nodes dom_def map_of_eq_None_iff image_iff)
  have nonempty: "k \<in> ed_from ` set (bd_edges def) \<longleftrightarrow> edges_from def k \<noteq> []" for k
    by (auto simp: edges_from_def filter_empty_conv)
  have edges: "gr_edges g k = (if k \<in> ed_from ` set (bd_edges def)
      then Some (grp_routing (edges_from def k)) else None)"
    unfolding g(7) by (rule e(4) [rule_format])
  show "gr_edges g k = (if edges_from def k = [] then None else Some (grp_routing (edges_from def k)))"
    unfolding edges nonempty by simp
  show "gr_nodes g k \<noteq> None \<and> grp_ok (dom (gr_nodes g)) (edges_from def k)" if "edges_from def k \<noteq> []"
  proof -
    have k: "k \<in> ed_from ` set (bd_edges def)" unfolding nonempty by (rule that)
    then have "k \<in> dom (gr_nodes g)" unfolding dom by (rule subsetD [OF e(2)])
    moreover have "grp_ok (dom (gr_nodes g)) (edges_from def k)"
      unfolding dom using e(3) k by (rule bspec)
    ultimately show ?thesis by auto
  qed
  show "routing_known (gr_nodes g) (grp_routing (edges_from def k))" if "edges_from def k \<noteq> []"
  proof -
    have "map_of (gb_edges b1) k = Some (grp_routing (edges_from def k))"
      using edges that unfolding nonempty g(7) by simp
    with g(3,6) show ?thesis by (auto simp: list_all_iff dest: map_of_SomeD)
  qed
qed

lemma grp_targets:
  assumes "grp_ok (dom nodes) es" "routing_known nodes (grp_routing es)"
  shows "(case grp_routing es of Static ts \<Rightarrow> ts | Conditional f \<Rightarrow> f s) =
      map (\<lambda>e. normalize_target (ed_to e)) (filter (wanted s) es) \<and>
    list_all (known_target nodes) (map (\<lambda>e. normalize_target (ed_to e)) (filter (wanted s) es))"
proof (cases "list_ex (\<lambda>e. ed_when e \<noteq> None) es")
  case True
  with assms(1) have ok: "list_all (\<lambda>e. (normalize_target (ed_to e) = END \<or>
        normalize_target (ed_to e) \<in> dom nodes) \<and>
      (ed_when e = Some ''success'' \<or> ed_when e = Some ''failure'')) es"
    by (simp add: grp_ok_def)
  let ?w = "if status s = Some Failed then ''failure'' else ''success''"
  have "filter (\<lambda>e. ed_when e = Some ?w) es = filter (wanted s) es"
    using ok by (intro filter_cong) (auto simp: wanted_def list_all_iff)
  moreover have "(case grp_routing es of Static ts \<Rightarrow> ts | Conditional f \<Rightarrow> f s) = when_targets ?w es"
    using True by (simp add: grp_routing_def status_router_def)
  ultimately show ?thesis
    using ok by (auto simp: when_targets_def list_all_iff known_target_def)
next
  case False
  then have "filter (wanted s) es = es"
    by (intro filter_True) (auto simp: wanted_def list_ex_iff split: option.split)
  with False assms(2) show ?thesis by (simp add: grp_routing_def routing_known_def)
qed

lemma into_graph_routes:
  assumes "into_graph def = Inr g"
  shows "route g n s = Inr (spec_targets def n s)"
proof (cases "edges_from def n = []")
  case True
  with into_graph_Inr(6) [OF assms, of n] show ?thesis
    by (simp add: route_Inr route_targets_def spec_targets_def known_target_def)
next
  case False
  from into_graph_Inr(7) [OF assms False] into_graph_Inr(8) [OF assms False]
  have t: "(case grp_routing (edges_from def n) of Static ts \<Rightarrow> ts | Conditional f \<Rightarrow> f s) = spec_targets def n s"
    "list_all (known_target (gr_nodes g)) (spec_targets def n s)"
    using grp_targets [of "gr_nodes g" "edges_from def n" s] False by (auto simp: spec_targets_def)
  with into_graph_Inr(6) [OF assms, of n] False show ?thesis
    by (simp add: route_Inr route_targets_def)
qed

lemma filter_unique_key:
  "distinct (map fst xs) \<Longrightarrow> (k, v) \<in> set xs \<Longrightarrow> filter (\<lambda>p. fst p = k) xs = [(k, v)]"
proof (induction xs)
  case (Cons p xs)
  then show ?case
    by (cases "fst p = k") (auto simp: filter_empty_conv image_iff)
qed simp

lemma execution_kind:
  "execution_of d = (case nd_kind (def_node n d) of
     KindAgent \<Rightarrow> Probabilistic | KindHuman \<Rightarrow> HumanStep | _ \<Rightarrow> Deterministic)"
  by (cases d) (simp_all add: new_checkout_def new_agent_sandbox_def)

section \<open>Properties\<close>

text \<open>
  Property C11.  Compilation is faithful: when a definition compiles, the graph has exactly the
  defined nodes under their names, its entry is one of them, and out of any node in any state
  it routes, without ever failing, to exactly the targets of that node's edges whose condition
  matches the last status (a missing status counts as success), or to the end when the node has
  no edges.
\<close>

theorem yaml_compiles_faithfully:
  assumes "into_graph def = Inr g"
  shows "gr_nodes g = (\<lambda>k. map_option (def_node k) (map_of (bd_nodes def) k)) \<and>
    distinct (map fst (bd_nodes def)) \<and>
    gr_entry g = bd_entry def \<and> gr_nodes g (gr_entry g) \<noteq> None \<and>
    route g n s = Inr (spec_targets def n s)"
  using into_graph_Inr(2-5) [OF assms] into_graph_routes [OF assms] by blast

definition sample_def :: blueprint_def where
  "sample_def =
     \<lparr>bd_name = ''fix'', bd_entry = ''fix'',
      bd_nodes = [(''fix'', DAgent ''Fix it. {task}'' None), (''verify'', DScript ''cargo test'')],
      bd_edges = [\<lparr>ed_from = ''fix'', ed_to = ''verify'', ed_when = None\<rparr>,
                  \<lparr>ed_from = ''verify'', ed_to = ''fix'', ed_when = Some ''failure''\<rparr>,
                  \<lparr>ed_from = ''verify'', ed_to = ''End'', ed_when = Some ''success''\<rparr>]\<rparr>"

lemma sample_compiles: "\<exists>g. into_graph sample_def = Inr g"
proof -
  have sample_targets: "normalize_target ''fix'' = ''fix''" "normalize_target ''verify'' = ''verify''"
    "normalize_target ''End'' = ''__end__''"
    by code_simp+
  have "\<not> isl (into_graph sample_def)"
    by (simp add: into_graph_def sample_def_def add_node_def gb_node_def new_builder_def add_edges_def
        source_order_def add_group_def add_conditional_def gb_edge_def gb_conditional_def gb_build_def
        dedup_names_def sample_targets known_target_def END_def Let_def)
  then show ?thesis by (cases "into_graph sample_def") auto
qed

theorem yaml_compiles_faithfully_witness:
  "\<exists>g. into_graph sample_def = Inr g \<and>
     route g ''verify'' (new_state ''t'') = Inr [END] \<and>
     route g ''verify'' ((new_state ''t'')\<lparr>status := Some Failed\<rparr>) = Inr [''fix'']"
proof -
  from sample_compiles obtain g where g: "into_graph sample_def = Inr g" by blast
  have "spec_targets sample_def ''verify'' (new_state ''t'') = [END]"
    "spec_targets sample_def ''verify'' ((new_state ''t'')\<lparr>status := Some Failed\<rparr>) = [''fix'']"
    by code_simp+
  then have "route g ''verify'' (new_state ''t'') = Inr [END]"
    "route g ''verify'' ((new_state ''t'')\<lparr>status := Some Failed\<rparr>) = Inr [''fix'']"
    using yaml_compiles_faithfully [OF g, of "''verify''"] by simp_all
  with g show ?thesis by (intro exI [of _ g] conjI)
qed

text \<open>
  The description agrees with the compiled graph: the entry comes first, the other
  nodes follow in strictly increasing order of their names, together they are exactly the
  graph's nodes, and a step is shown as probabilistic exactly when it runs an agent and as
  human exactly when it asks the operator.
\<close>

theorem describe_agrees:
  assumes "into_graph def = Inr g"
  shows "\<exists>first rest. bg_nodes (describe pretty def) = first # rest \<and> ni_id first = gr_entry g \<and>
    sorted_wrt (<) (map ni_id rest) \<and>
    ni_id ` set (first # rest) = dom (gr_nodes g) \<and>
    list_all (\<lambda>i. ni_execution i =
        (case nd_kind (the (gr_nodes g (ni_id i))) of
           KindAgent \<Rightarrow> Probabilistic | KindHuman \<Rightarrow> HumanStep | _ \<Rightarrow> Deterministic)) (first # rest)"
proof -
  note g = into_graph_Inr [OF assms]
  let ?infos = "map (describe_node pretty) (bd_nodes def)"
  let ?others = "sort_key ni_id (filter (\<lambda>n. ni_id n \<noteq> bd_entry def) ?infos)"
  have ids: "map ni_id ?infos = map fst (bd_nodes def)" by (simp add: describe_node_def)
  have "bd_entry def \<in> set (map fst (bd_nodes def))"
    using g(2,3,5) by (auto simp: map_of_eq_None_iff)
  then obtain d where d: "(bd_entry def, d) \<in> set (bd_nodes def)" by auto
  let ?first = "describe_node pretty (bd_entry def, d)"
  have entry: "filter (\<lambda>n. ni_id n = bd_entry def) (map (describe_node pretty) ns) =
      map (describe_node pretty) (filter (\<lambda>p. fst p = bd_entry def) ns)"
    "filter (\<lambda>n. ni_id n \<noteq> bd_entry def) (map (describe_node pretty) ns) =
      map (describe_node pretty) (filter (\<lambda>p. fst p \<noteq> bd_entry def) ns)" for ns
    by (induction ns) (simp_all add: describe_node_def)
  have "filter (\<lambda>p. fst p = bd_entry def) (bd_nodes def) = [(bd_entry def, d)]"
    using g(4) d by (rule filter_unique_key)
  then have nodes: "bg_nodes (describe pretty def) = ?first # ?others"
    by (simp add: describe_def Let_def entry)
  have "distinct (map ni_id ?others)"
  proof -
    have "distinct ?infos" "inj_on ni_id (set ?infos)"
      using g(4) unfolding ids [symmetric] distinct_map by blast+
    moreover from this(1) have "distinct (filter (\<lambda>n. ni_id n \<noteq> bd_entry def) ?infos)"
      by (rule distinct_filter)
    moreover have "inj_on ni_id (set (filter (\<lambda>n. ni_id n \<noteq> bd_entry def) ?infos))"
      using calculation(2) by (rule inj_on_subset) (rule filter_is_subset)
    ultimately show ?thesis unfolding distinct_map distinct_sort set_sort by blast
  qed
  then have sorted: "sorted_wrt (<) (map ni_id ?others)"
    by (simp add: strict_sorted_iff)
  have sets: "set (?first # ?others) = describe_node pretty ` set (bd_nodes def)"
  proof -
    have "?first \<in> describe_node pretty ` set (bd_nodes def)" using d by (rule imageI)
    moreover have "describe_node pretty p \<in> set (?first # ?others)" if "p \<in> set (bd_nodes def)" for p
    proof (cases "fst p = bd_entry def")
      case True
      then have "p = (bd_entry def, d)"
        using that d g(4) by (cases p) (auto dest: eq_key_imp_eq_value)
      then show ?thesis by simp
    next
      case False
      then have "describe_node pretty p \<in> set ?others" using that by (simp add: describe_node_def)
      then show ?thesis by simp
    qed
    ultimately show ?thesis by auto
  qed
  have dom: "ni_id ` set (?first # ?others) = dom (gr_nodes g)"
  proof -
    have "ni_id ` set (?first # ?others) = set (map ni_id ?infos)" unfolding sets by (simp add: image_image)
    also have "\<dots> = fst ` set (bd_nodes def)" unfolding ids by simp
    also have "\<dots> = dom (gr_nodes g)" unfolding g(3) by (simp add: dom_map_option dom_map_of_conv_image_fst)
    finally show ?thesis .
  qed
  have "list_all (\<lambda>i. ni_execution i =
        (case nd_kind (the (gr_nodes g (ni_id i))) of
           KindAgent \<Rightarrow> Probabilistic | KindHuman \<Rightarrow> HumanStep | _ \<Rightarrow> Deterministic)) (?first # ?others)"
    unfolding list_all_iff sets
    by (auto simp: g(3) describe_node_def map_of_is_SomeI [OF g(4)] execution_kind)
  moreover have "ni_id ?first = gr_entry g" by (simp add: describe_node_def g(2))
  ultimately show ?thesis using nodes sorted dom by blast
qed

theorem describe_agrees_witness:
  "ni_id (hd (bg_nodes (describe (\<lambda>j. '''') sample_def))) = ''fix''"
proof -
  from sample_compiles obtain g where g: "into_graph sample_def = Inr g" by blast
  have "gr_entry g = ''fix''" using into_graph_Inr(2) [OF g] by (simp add: sample_def_def)
  with describe_agrees [OF g, of "\<lambda>j. ''''"] show ?thesis by auto
qed

end
