(* ===== verification/Checkpoint.thy ===== *)
theory Checkpoint
  imports Blueprint_State Store
begin

text \<open>
  Durable checkpoints (\<open>boitata-orchestrator/src/checkpoint.rs\<close>): the snapshot of a run, the
  \<open>Checkpointer\<close> trait and its implementation over the store.

  The trait is the record \<open>checkpointer_ops\<close> of its three operations and the locale
  \<open>checkpointer\<close> is the contract the executor relies on: what is loaded after a save and
  after a status change, and that other runs are untouched.  An operation may fail; then it
  leaves every stored snapshot as it was.  The locale is interpreted on the SQLite
  checkpointer.  The JSON codec of a state is the record \<open>state_codec\<close>.
\<close>

section \<open>Snapshots\<close>

record checkpoint =
  cp_run_id :: string
  cp_blueprint :: string
  cp_step :: nat
  cp_frontier :: "string list"
  cp_state :: state

record loaded_checkpoint =
  ld_checkpoint :: checkpoint
  ld_resumable :: bool

datatype checkpoint_status = CkSuspended | CkCompleted | CkFailed

fun to_run_state :: "checkpoint_status \<Rightarrow> run_state" where
  "to_run_state CkSuspended = RsSuspended"
| "to_run_state CkCompleted = RsCompleted"
| "to_run_state CkFailed = RsFailed"

record 'k checkpointer_ops =
  ck_save :: "checkpoint \<Rightarrow> 'k \<Rightarrow> (string + unit) \<times> 'k"
  ck_load :: "string \<Rightarrow> 'k \<Rightarrow> (string + loaded_checkpoint option) \<times> 'k"
  ck_set_status :: "string \<Rightarrow> checkpoint_status \<Rightarrow> 'k \<Rightarrow> (string + unit) \<times> 'k"

section \<open>The contract\<close>

text \<open>
  \<open>stored k i\<close> is what a load that does not fail returns; \<open>storable\<close> says which snapshots
  the codecs carry; \<open>valid\<close> is the provider's invariant.
\<close>

locale checkpointer =
  fixes ops :: "'k checkpointer_ops"
    and valid :: "'k \<Rightarrow> bool"
    and storable :: "checkpoint \<Rightarrow> bool"
    and stored :: "'k \<Rightarrow> string \<Rightarrow> string + loaded_checkpoint option"
  assumes save_valid: "valid k \<Longrightarrow> valid (snd (ck_save ops cp k))"
    and set_valid: "valid k \<Longrightarrow> valid (snd (ck_set_status ops i st k))"
    and load_valid: "valid k \<Longrightarrow> valid (snd (ck_load ops i k))"
    and load_stored: "fst (ck_load ops i k) = Inr res \<Longrightarrow> stored k i = Inr res"
    and load_keeps: "stored (snd (ck_load ops i k)) j = stored k j"
    and save_stored: "valid k \<Longrightarrow> storable cp \<Longrightarrow> fst (ck_save ops cp k) = Inr () \<Longrightarrow>
      stored (snd (ck_save ops cp k)) (cp_run_id cp) = Inr (Some \<lparr>ld_checkpoint = cp, ld_resumable = True\<rparr>)"
    and save_other: "i \<noteq> cp_run_id cp \<Longrightarrow> stored (snd (ck_save ops cp k)) i = stored k i"
    and save_failed: "fst (ck_save ops cp k) \<noteq> Inr () \<Longrightarrow> stored (snd (ck_save ops cp k)) i = stored k i"
    and set_stored: "valid k \<Longrightarrow> stored k i = Inr (Some l) \<Longrightarrow> fst (ck_set_status ops i st k) = Inr () \<Longrightarrow>
      stored (snd (ck_set_status ops i st k)) i = Inr (Some (l\<lparr>ld_resumable := st = CkSuspended\<rparr>))"
    and set_none: "stored k i = Inr None \<Longrightarrow> stored (snd (ck_set_status ops i st k)) i = Inr None"
    and set_other: "j \<noteq> i \<Longrightarrow> stored (snd (ck_set_status ops i st k)) j = stored k j"
    and set_failed: "fst (ck_set_status ops i st k) \<noteq> Inr () \<Longrightarrow>
      stored (snd (ck_set_status ops i st k)) j = stored k j"
begin

text \<open>
  The snapshot of a run, whatever happens afterwards: a save that fails keeps the last one, a
  status change only touches the resumable flag.
\<close>

lemma save_keeps_or_replaces:
  assumes "valid k" "storable cp"
  shows "stored (snd (ck_save ops cp k)) (cp_run_id cp) = Inr (Some \<lparr>ld_checkpoint = cp, ld_resumable = True\<rparr>)
    \<or> stored (snd (ck_save ops cp k)) (cp_run_id cp) = stored k (cp_run_id cp)"
  using save_stored [OF assms] save_failed by blast

lemma set_keeps_snapshot:
  assumes "valid k" "stored k i = Inr (Some l)"
  shows "\<exists>b. stored (snd (ck_set_status ops i st k)) i = Inr (Some (l\<lparr>ld_resumable := b\<rparr>))"
proof (cases "fst (ck_set_status ops i st k) = Inr ()")
  case True
  then show ?thesis using set_stored [OF assms] by blast
next
  case False
  then have "stored (snd (ck_set_status ops i st k)) i = Inr (Some (l\<lparr>ld_resumable := ld_resumable l\<rparr>))"
    using assms(2) by (simp add: set_failed)
  then show ?thesis by blast
qed

end

section \<open>The SQLite checkpointer\<close>

record state_codec =
  sc_put :: "state \<Rightarrow> string + string"
  sc_get :: "string \<Rightarrow> string + state"

definition sqlite_save ::
    "'t store_env \<Rightarrow> state_codec \<Rightarrow> checkpoint \<Rightarrow> store \<Rightarrow> (string + unit) \<times> store" where
  "sqlite_save env codec cp s =
     (case sc_put codec (cp_state cp) of
        Inl e \<Rightarrow> (Inl e, s)
      | Inr body \<Rightarrow>
          upsert_checkpoint env
            \<lparr>cu_run_id = cp_run_id cp, cu_blueprint = cp_blueprint cp, cu_task = state.task (cp_state cp),
             cu_step = cp_step cp, cu_frontier = cp_frontier cp, cu_state = body,
             cu_status = RsRunning\<rparr> s)"

definition record_to_checkpoint :: "state_codec \<Rightarrow> 't checkpoint_record \<Rightarrow> string + loaded_checkpoint" where
  "record_to_checkpoint codec r =
     and_then (map_err (\<lambda>e. ''deserializing state for checkpoint '' @ [CHR 0x60] @ cr_run_id r @ [CHR 0x60]
                 @ '': '' @ e) (sc_get codec (cr_state r))) (\<lambda>st.
       Inr \<lparr>ld_checkpoint = \<lparr>cp_run_id = cr_run_id r, cp_blueprint = cr_blueprint r, cp_step = cr_step r,
              cp_frontier = cr_frontier r, cp_state = st\<rparr>,
            ld_resumable = is_resumable (cr_status r)\<rparr>)"

definition loaded_of :: "state_codec \<Rightarrow> 't checkpoint_record option \<Rightarrow> string + loaded_checkpoint option" where
  "loaded_of codec rec =
     (case rec of None \<Rightarrow> Inr None
      | Some r \<Rightarrow> and_then (record_to_checkpoint codec r) (\<lambda>l. Inr (Some l)))"

definition sqlite_load ::
    "'t store_env \<Rightarrow> state_codec \<Rightarrow> string \<Rightarrow> store \<Rightarrow> (string + loaded_checkpoint option) \<times> store" where
  "sqlite_load env codec run_id s =
     (let (res, s1) = get_checkpoint env run_id s in (and_then res (loaded_of codec), s1))"

definition sqlite_set_status ::
    "'t store_env \<Rightarrow> string \<Rightarrow> checkpoint_status \<Rightarrow> store \<Rightarrow> (string + unit) \<times> store" where
  "sqlite_set_status env run_id st s = set_checkpoint_status env run_id (to_run_state st) s"

definition sqlite_ops :: "'t store_env \<Rightarrow> state_codec \<Rightarrow> store checkpointer_ops" where
  "sqlite_ops env codec =
     \<lparr>ck_save = sqlite_save env codec, ck_load = sqlite_load env codec,
      ck_set_status = sqlite_set_status env\<rparr>"

definition sqlite_stored ::
    "'t store_env \<Rightarrow> state_codec \<Rightarrow> store \<Rightarrow> string \<Rightarrow> string + loaded_checkpoint option" where
  "sqlite_stored env codec s i = and_then (read_checkpoint env i (so_rows s)) (loaded_of codec)"

text \<open>A snapshot whose state and frontier survive their codecs.\<close>

definition sqlite_storable :: "'t store_env \<Rightarrow> state_codec \<Rightarrow> checkpoint \<Rightarrow> bool" where
  "sqlite_storable env codec cp \<longleftrightarrow>
     (\<exists>body. sc_put codec (cp_state cp) = Inr body \<and> sc_get codec body = Inr (cp_state cp)) \<and>
     se_parse_frontier env (se_put_frontier env (cp_frontier cp)) = Inr (cp_frontier cp)"

lemma get_checkpoint_fst:
  "fst (get_checkpoint env i s) = Inr c \<Longrightarrow> read_checkpoint env i (so_rows s) = Inr c"
  by (auto simp: get_checkpoint_def store_call_def Let_def and_then_def split: if_splits sum.splits)

lemma get_checkpoint_rows: "so_rows (snd (get_checkpoint env i s)) = so_rows s"
  by (auto simp: get_checkpoint_def store_call_def Let_def and_then_def split: if_splits sum.splits)

lemma sqlite_save_stored:
  assumes "table_inv env s" "sqlite_storable env codec cp" "fst (sqlite_save env codec cp s) = Inr ()"
  shows "sqlite_stored env codec (snd (sqlite_save env codec cp s)) (cp_run_id cp) =
    Inr (Some \<lparr>ld_checkpoint = cp, ld_resumable = True\<rparr>)"
proof -
  from assms(2) obtain body where body: "sc_put codec (cp_state cp) = Inr body"
    "sc_get codec body = Inr (cp_state cp)"
    "se_parse_frontier env (se_put_frontier env (cp_frontier cp)) = Inr (cp_frontier cp)"
    by (auto simp: sqlite_storable_def)
  let ?up = "\<lparr>cu_run_id = cp_run_id cp, cu_blueprint = cp_blueprint cp, cu_task = state.task (cp_state cp),
             cu_step = cp_step cp, cu_frontier = cp_frontier cp, cu_state = body, cu_status = RsRunning\<rparr>"
  have eq: "sqlite_save env codec cp s = upsert_checkpoint env ?up s"
    by (simp add: sqlite_save_def body)
  from read_checkpoint_upsert [OF assms(1), of ?up] assms(3) body(3) eq body(2)
  show ?thesis
    by (auto simp: sqlite_stored_def loaded_of_def record_to_checkpoint_def is_resumable_def)
qed

lemma sqlite_save_rows:
  "fst (sqlite_save env codec cp s) \<noteq> Inr () \<or> i \<noteq> cp_run_id cp \<Longrightarrow>
     sqlite_stored env codec (snd (sqlite_save env codec cp s)) i = sqlite_stored env codec s i"
  by (cases "sc_put codec (cp_state cp)")
    (auto simp: sqlite_save_def sqlite_stored_def read_checkpoint_def upsert_cases upsert_rows_find)

lemma sqlite_set_rows:
  assumes "sqlite_stored env codec s i = Inr (Some l)" "table_inv env s"
    and "fst (sqlite_set_status env i st s) = Inr ()"
  shows "sqlite_stored env codec (snd (sqlite_set_status env i st s)) i =
    Inr (Some (l\<lparr>ld_resumable := st = CkSuspended\<rparr>))"
proof -
  from assms(1) obtain r c where r: "row_of i s = Some r" "row_to_record env r = Inr c"
    "record_to_checkpoint codec c = Inr l"
    by (fastforce simp: sqlite_stored_def read_checkpoint_def loaded_of_def row_of_def and_then_Inr_iff
        split: option.splits)
  let ?r' = "r\<lparr>rw_status := run_state_as_str (to_run_state st), rw_updated_at := se_now env (so_tick s)\<rparr>"
  have row: "row_of i (snd (sqlite_set_status env i st s)) = Some ?r'"
    using assms(3) r(1) by (simp add: sqlite_set_status_def set_status_find)
  from assms(2) obtain u where u: "se_parse_time env (se_now env (so_tick s)) = Inr u"
    by (auto simp: table_inv_def)
  have "row_to_record env ?r' = Inr (c\<lparr>cr_status := to_run_state st, cr_updated_at := u\<rparr>)"
    using r(2) u by (auto simp: row_to_record_def and_then_Inr_iff split: if_splits)
  with r(3) row show ?thesis
    by (cases st) (auto simp: sqlite_stored_def read_checkpoint_def loaded_of_def row_of_def
        record_to_checkpoint_def and_then_Inr_iff is_resumable_def)
qed

lemma sqlite_set_other:
  "fst (sqlite_set_status env i st s) \<noteq> Inr () \<or> j \<noteq> i \<Longrightarrow>
     sqlite_stored env codec (snd (sqlite_set_status env i st s)) j = sqlite_stored env codec s j"
  using set_status_find [of j env i "to_run_state st" s]
  by (auto simp: sqlite_stored_def read_checkpoint_def sqlite_set_status_def row_of_def)

lemma sqlite_set_none:
  "sqlite_stored env codec s i = Inr None \<Longrightarrow>
     sqlite_stored env codec (snd (sqlite_set_status env i st s)) i = Inr None"
  using set_status_find [of i env i "to_run_state st" s]
  by (auto simp: sqlite_stored_def read_checkpoint_def sqlite_set_status_def row_of_def loaded_of_def
      and_then_Inr_iff split: option.splits if_splits)

lemma sqlite_set_inv: "table_inv env s \<Longrightarrow> table_inv env (snd (sqlite_set_status env i st s))"
  by (simp add: sqlite_set_status_def table_inv_set_status)

interpretation sqlite: checkpointer "sqlite_ops env codec" "table_inv env" "sqlite_storable env codec"
    "sqlite_stored env codec" for env codec
proof unfold_locales
  fix k i l
  assume "fst (ck_load (sqlite_ops env codec) i k) = Inr l"
  then show "sqlite_stored env codec k i = Inr l"
    using get_checkpoint_fst [of env i k]
    by (auto simp: sqlite_ops_def sqlite_load_def sqlite_stored_def and_then_Inr_iff split: prod.splits)
next
  fix k i j
  show "sqlite_stored env codec (snd (ck_load (sqlite_ops env codec) i k)) j = sqlite_stored env codec k j"
    using get_checkpoint_rows [of env i k]
    by (auto simp: sqlite_ops_def sqlite_load_def sqlite_stored_def split: prod.split)
next
  fix k i
  assume "table_inv env k"
  then show "table_inv env (snd (ck_load (sqlite_ops env codec) i k))"
    using get_checkpoint_rows [of env i k]
    by (auto simp: sqlite_ops_def sqlite_load_def table_inv_def split: prod.split)
next
  fix k cp
  assume "table_inv env k"
  then show "table_inv env (snd (ck_save (sqlite_ops env codec) cp k))"
    by (simp add: sqlite_ops_def sqlite_save_def table_inv_upsert split: sum.split)
qed (simp_all add: sqlite_ops_def sqlite_save_stored sqlite_save_rows sqlite_set_rows sqlite_set_other
    sqlite_set_inv sqlite_set_none)

section \<open>Properties\<close>

text \<open>
  Property C33.  A saved snapshot comes back: after a save that succeeds, a load that succeeds
  returns exactly that snapshot, marked resumable; after the run's status is then set, a load
  returns the same snapshot, resumable exactly when the status is suspended; and no other
  run's snapshot changes.
\<close>

theorem checkpoint_roundtrip:
  assumes "table_inv env s" and "sqlite_storable env codec cp"
    and "sqlite_save env codec cp s = (Inr (), s1)"
    and "sqlite_load env codec (cp_run_id cp) s1 = (Inr loaded, s2)"
    and "sqlite_set_status env (cp_run_id cp) st s2 = (Inr (), s3)"
    and "sqlite_load env codec (cp_run_id cp) s3 = (Inr loaded2, s4)"
  shows "loaded = Some \<lparr>ld_checkpoint = cp, ld_resumable = True\<rparr> \<and>
    loaded2 = Some \<lparr>ld_checkpoint = cp, ld_resumable = (st = CkSuspended)\<rparr> \<and>
    (\<forall>j. j \<noteq> cp_run_id cp \<longrightarrow> sqlite_stored env codec s4 j = sqlite_stored env codec s j)"
proof -
  let ?ops = "sqlite_ops env codec"
  have ops: "ck_save ?ops cp s = (Inr (), s1)" "ck_load ?ops (cp_run_id cp) s1 = (Inr loaded, s2)"
    "ck_set_status ?ops (cp_run_id cp) st s2 = (Inr (), s3)" "ck_load ?ops (cp_run_id cp) s3 = (Inr loaded2, s4)"
    using assms(3-6) by (simp_all add: sqlite_ops_def)
  have saved: "sqlite_stored env codec s1 (cp_run_id cp) = Inr (Some \<lparr>ld_checkpoint = cp, ld_resumable = True\<rparr>)"
    using sqlite.save_stored [OF assms(1,2)] ops(1) by (metis fst_conv snd_conv)
  have v: "table_inv env s2" "sqlite_stored env codec s2 = sqlite_stored env codec s1"
    using sqlite.save_valid [OF assms(1), of codec cp] sqlite.load_valid [of env s1 codec "cp_run_id cp"]
      sqlite.load_keeps [of env codec "cp_run_id cp" s1] ops by auto
  have set: "sqlite_stored env codec s3 (cp_run_id cp) =
      Inr (Some \<lparr>ld_checkpoint = cp, ld_resumable = (st = CkSuspended)\<rparr>)"
    using sqlite.set_stored [OF v(1), of codec "cp_run_id cp" "\<lparr>ld_checkpoint = cp, ld_resumable = True\<rparr>" st] saved v(2) ops(3) by simp
  have "loaded = Some \<lparr>ld_checkpoint = cp, ld_resumable = True\<rparr>"
    using sqlite.load_stored [of env codec "cp_run_id cp" s1 loaded] ops(2) saved by simp
  moreover have "loaded2 = Some \<lparr>ld_checkpoint = cp, ld_resumable = (st = CkSuspended)\<rparr>"
    using sqlite.load_stored [of env codec "cp_run_id cp" s3 loaded2] ops(4) set by simp
  moreover have "sqlite_stored env codec s4 j = sqlite_stored env codec s j" if "j \<noteq> cp_run_id cp" for j
    using sqlite.save_other [OF that, of env codec s] sqlite.set_other [OF that, of env codec st s2]
      sqlite.load_keeps [of env codec "cp_run_id cp" s3 j] v(2) ops by simp
  ultimately show ?thesis by blast
qed

definition sample_checkpoint :: checkpoint where
  "sample_checkpoint = \<lparr>cp_run_id = ''r'', cp_blueprint = ''b'', cp_step = 1, cp_frontier = [''start''],
     cp_state = new_state ''t''\<rparr>"

definition sample_codec :: state_codec where
  "sample_codec = \<lparr>sc_put = (\<lambda>s. Inr (state.task s)), sc_get = (\<lambda>t. Inr (new_state t))\<rparr>"

theorem checkpoint_roundtrip_witness:
  "fst (sqlite_load sample_env sample_codec ''r''
      (snd (sqlite_set_status sample_env ''r'' CkCompleted
        (snd (sqlite_load sample_env sample_codec ''r''
          (snd (sqlite_save sample_env sample_codec sample_checkpoint empty_store))))))) =
   Inr (Some \<lparr>ld_checkpoint = sample_checkpoint, ld_resumable = False\<rparr>) \<and>
   sqlite_stored sample_env sample_codec empty_store ''q'' = Inr None"
proof -
  let ?s1 = "snd (sqlite_save sample_env sample_codec sample_checkpoint empty_store)"
  let ?s2 = "snd (sqlite_load sample_env sample_codec ''r'' ?s1)"
  let ?s3 = "snd (sqlite_set_status sample_env ''r'' CkCompleted ?s2)"
  let ?l = "\<lambda>b. Some \<lparr>ld_checkpoint = sample_checkpoint, ld_resumable = b\<rparr>"
  have i: "cp_run_id sample_checkpoint = ''r''" by (simp add: sample_checkpoint_def)
  have inv: "table_inv sample_env empty_store" by (rule table_inv_empty) (simp add: sample_env_def)
  have cp: "sqlite_storable sample_env sample_codec sample_checkpoint"
    by (simp add: sqlite_storable_def sample_env_def sample_codec_def sample_checkpoint_def new_state_def)
  note defs = sqlite_save_def sqlite_load_def sqlite_set_status_def upsert_checkpoint_def
    set_checkpoint_status_def get_checkpoint_def read_checkpoint_def store_call_def row_to_record_def
    upsert_row_def loaded_of_def record_to_checkpoint_def is_resumable_def run_state_from_str_def
    sample_env_def sample_codec_def sample_checkpoint_def empty_store_def new_state_def Let_def
  have save: "sqlite_save sample_env sample_codec sample_checkpoint empty_store = (Inr (), ?s1)"
    by (simp add: defs)
  have load: "sqlite_load sample_env sample_codec ''r'' ?s1 = (Inr (?l True), ?s2)"
    by (simp add: defs)
  have set: "sqlite_set_status sample_env ''r'' CkCompleted ?s2 = (Inr (), ?s3)"
    by (simp add: defs)
  have load2: "sqlite_load sample_env sample_codec ''r'' ?s3 =
      (Inr (?l False), snd (sqlite_load sample_env sample_codec ''r'' ?s3))"
    by (simp add: defs)
  from checkpoint_roundtrip [OF inv cp save _ _ _, unfolded i, OF load set load2]
  have "sqlite_stored sample_env sample_codec (snd (sqlite_load sample_env sample_codec ''r'' ?s3)) ''q'' =
      sqlite_stored sample_env sample_codec empty_store ''q''"
    by simp
  moreover have "sqlite_stored sample_env sample_codec (snd (sqlite_load sample_env sample_codec ''r'' ?s3)) ''q''
      = Inr None"
    by (simp add: defs sqlite_stored_def)
  moreover have "fst (sqlite_load sample_env sample_codec ''r'' ?s3) = Inr (?l False)"
    by (subst load2) simp
  ultimately show ?thesis by (metis)
qed

end
