(* ===== verification/Executor.thy ===== *)
theory Executor
  imports Yaml Checkpoint
begin

text \<open>
  The blueprint executor (\<open>boitata-orchestrator/src/lib.rs\<close>): one super-step, its retries, the
  loop of super-steps, fresh and resumed runs, and the cleanup around them.

  A run is concurrent and talks to the outside; both are a \<open>schedule\<close>.  For each super-step,
  attempt and node it has the world that node observes, the node's place in the completion
  order, whether it panics, and how many of its sandboxes are registered by the time a panic
  unwinds the super-step; for each attempt, whether the run's token is cancelled when the
  attempt is over, and whether it is cancelled during the back-off before a retry.  The
  frontier runs all nodes to completion; the first hard error in completion order is the one
  reported.  The events are the executor's own: an agent node also writes to the same sink, and
  \<open>Agent_Loop\<close> describes those.

  \<open>xr_attempts\<close>, \<open>xr_saved\<close> and \<open>xr_created\<close> record which frontiers ran, which snapshots were
  handed to the checkpointer and which sandboxes were created; nothing reads them back.
\<close>

section \<open>The executor and its surroundings\<close>

record ('w, 'k) executor =
  ex_provider :: provider
  ex_tools :: "'w registry"
  ex_tool_order :: "string list"
  ex_audit :: bool
  ex_policy :: policy
  ex_system_prompt :: "string option"
  ex_max_iterations :: "nat option"
  ex_compact_threshold :: "f32 option"
  ex_max_steps :: nat
  ex_max_retries :: nat
  ex_env_defaults :: "string \<rightharpoonup> string"
  ex_checkpointer :: "'k checkpointer_ops option"
  ex_run_id :: "string option"
  ex_blueprint_label :: "string option"

definition default_max_steps :: nat where
  "default_max_steps = 50"

definition new_executor :: "provider \<Rightarrow> 'w registry \<Rightarrow> string list \<Rightarrow> ('w, 'k) executor" where
  "new_executor p tools order =
     \<lparr>ex_provider = p, ex_tools = tools, ex_tool_order = order, ex_audit = False,
      ex_policy = policy_allow_all, ex_system_prompt = None, ex_max_iterations = None,
      ex_compact_threshold = None, ex_max_steps = default_max_steps, ex_max_retries = 0,
      ex_env_defaults = Map.empty, ex_checkpointer = None, ex_run_id = None, ex_blueprint_label = None\<rparr>"

definition ex_with_max_retries :: "('w, 'k) executor \<Rightarrow> nat option \<Rightarrow> ('w, 'k) executor" where
  "ex_with_max_retries ex n = ex\<lparr>ex_max_retries := unwrap_or 0 n\<rparr>"

definition ex_with_checkpointer :: "('w, 'k) executor \<Rightarrow> 'k checkpointer_ops \<Rightarrow> ('w, 'k) executor" where
  "ex_with_checkpointer ex x = ex\<lparr>ex_checkpointer := Some x\<rparr>"

definition ex_with_run_id :: "('w, 'k) executor \<Rightarrow> string \<Rightarrow> ('w, 'k) executor" where
  "ex_with_run_id ex x = ex\<lparr>ex_run_id := Some x\<rparr>"

definition ex_with_blueprint_label :: "('w, 'k) executor \<Rightarrow> string \<Rightarrow> ('w, 'k) executor" where
  "ex_with_blueprint_label ex x = ex\<lparr>ex_blueprint_label := Some x\<rparr>"

definition ex_with_env_defaults :: "('w, 'k) executor \<Rightarrow> (string \<rightharpoonup> string) \<Rightarrow> ('w, 'k) executor" where
  "ex_with_env_defaults ex x = ex\<lparr>ex_env_defaults := x\<rparr>"

definition ex_with_audit :: "('w, 'k) executor \<Rightarrow> ('w, 'k) executor" where
  "ex_with_audit ex = ex\<lparr>ex_audit := True\<rparr>"

definition ex_with_policy :: "('w, 'k) executor \<Rightarrow> policy \<Rightarrow> ('w, 'k) executor" where
  "ex_with_policy ex x = ex\<lparr>ex_policy := x\<rparr>"

definition ex_with_system_prompt :: "('w, 'k) executor \<Rightarrow> string option \<Rightarrow> ('w, 'k) executor" where
  "ex_with_system_prompt ex x = ex\<lparr>ex_system_prompt := x\<rparr>"

definition ex_with_max_iterations :: "('w, 'k) executor \<Rightarrow> nat option \<Rightarrow> ('w, 'k) executor" where
  "ex_with_max_iterations ex x = ex\<lparr>ex_max_iterations := x\<rparr>"

definition ex_with_compact_threshold :: "('w, 'k) executor \<Rightarrow> f32 option \<Rightarrow> ('w, 'k) executor" where
  "ex_with_compact_threshold ex x = ex\<lparr>ex_compact_threshold := x\<rparr>"

definition ex_with_max_steps :: "('w, 'k) executor \<Rightarrow> nat \<Rightarrow> ('w, 'k) executor" where
  "ex_with_max_steps ex x = ex\<lparr>ex_max_steps := x\<rparr>"

definition blueprint_label :: "('w, 'k) executor \<Rightarrow> graph \<Rightarrow> string" where
  "blueprint_label ex g = unwrap_or (gr_name g) (ex_blueprint_label ex)"

text \<open>What the run reaches outside the program, beside the provider and the tools.\<close>

record 'w outside =
  os_default_prompt :: string
  os_summary_prompt :: string
  os_env :: "'w env"
  os_getenv :: "string \<rightharpoonup> string"
  os_run_script :: "string \<Rightarrow> 'w \<Rightarrow> (tool_error + script_result) \<times> 'w"
  os_human :: "string \<Rightarrow> 'w \<Rightarrow> (string + string) \<times> 'w"
  os_sandbox :: "'w sandbox_backend"
  os_ready :: "'w readiness"
  os_acp :: "string \<Rightarrow> string \<Rightarrow> 'w \<Rightarrow> (string + agent_outcome) \<times> 'w"

definition node_ctx_of :: "('w, 'k) executor \<Rightarrow> 'w outside \<Rightarrow> 'w node_ctx" where
  "node_ctx_of ex os =
     \<lparr>cx_provider = ex_provider ex, cx_tools = ex_tools ex, cx_tool_order = ex_tool_order ex,
      cx_audit = ex_audit ex, cx_policy = ex_policy ex, cx_system_prompt = ex_system_prompt ex,
      cx_max_iterations = ex_max_iterations ex, cx_compact_threshold = ex_compact_threshold ex,
      cx_env_defaults = ex_env_defaults ex, cx_default_prompt = os_default_prompt os,
      cx_summary_prompt = os_summary_prompt os, cx_env = os_env os, cx_getenv = os_getenv os,
      cx_run_script = os_run_script os, cx_human = os_human os, cx_sandbox = os_sandbox os,
      cx_ready = os_ready os, cx_acp = os_acp os\<rparr>"

record 'w schedule =
  sd_world :: "nat \<Rightarrow> nat \<Rightarrow> string \<Rightarrow> 'w"
  sd_rank :: "nat \<Rightarrow> nat \<Rightarrow> string \<Rightarrow> nat"
  sd_panics :: "nat \<Rightarrow> nat \<Rightarrow> string \<Rightarrow> bool"
  sd_registered :: "nat \<Rightarrow> nat \<Rightarrow> string \<Rightarrow> nat"
  sd_cancelled :: "nat \<Rightarrow> nat \<Rightarrow> bool"
  sd_woken :: "nat \<Rightarrow> nat \<Rightarrow> bool"

section \<open>One super-step\<close>

record ran_node =
  ra_name :: string
  ra_kind :: node_kind
  ra_status :: node_status
  ra_output :: string

datatype run_error =
    BlueprintErr blueprint_error
  | NodeErr string node_kind string
  | RoutingErr string blueprint_error
  | ResumeErr string

fun show_run_error :: "run_error \<Rightarrow> string" where
  "show_run_error (BlueprintErr e) = show_blueprint_error e"
| "show_run_error (NodeErr n k cause) = ''blueprint node '' @ bt @ n @ bt @ '' failed: '' @ cause"
| "show_run_error (RoutingErr n e) = ''routing after node '' @ bt @ n @ bt @ '': '' @ show_blueprint_error e"
| "show_run_error (ResumeErr m) = m"

datatype frontier_result = FrOk state "ran_node list" | FrErr run_error | FrPanic

fun resolve_nodes :: "graph \<Rightarrow> string list \<Rightarrow> blueprint_error + (string \<times> node) list" where
  "resolve_nodes g [] = Inr []"
| "resolve_nodes g (n # ns) =
     (case gr_nodes g n of
        None \<Rightarrow> Inl (UnknownNode n)
      | Some nd \<Rightarrow> and_then (resolve_nodes g ns) (\<lambda>rest. Inr ((n, nd) # rest)))"

record node_end =
  ne_name :: string
  ne_kind :: node_kind
  ne_result :: "string + update"
  ne_ids :: "string list"

definition run_one :: "'w node_ctx \<Rightarrow> state \<Rightarrow> (string \<Rightarrow> 'w) \<Rightarrow> string \<times> node \<Rightarrow> node_end" where
  "run_one cx s world p =
     (case node_run cx (snd p) s (world (fst p)) of
        (res, w, ids) \<Rightarrow>
          \<lparr>ne_name = fst p, ne_kind = nd_kind (snd p), ne_result = res, ne_ids = ids\<rparr>)"

definition merge_one ::
    "state \<times> ran_node list \<times> bool \<times> bool \<Rightarrow> string \<times> node_kind \<times> update \<Rightarrow>
     state \<times> ran_node list \<times> bool \<times> bool" where
  "merge_one acc o1 =
     (let (s, rans, any_failed, any_status) = acc; (name, kind, u) = o1;
          (node_st, any_failed1, any_status1) =
            (case up_status u of
               Some Failed \<Rightarrow> (NodeFailed, True, True)
             | Some Ok \<Rightarrow> (NodeOk, any_failed, True)
             | None \<Rightarrow> (NodeOk, any_failed, any_status));
          output = join [CHR 0x0A] (map te_text (up_messages u))
      in (apply_update s u,
          rans @ [\<lparr>ra_name = name, ra_kind = kind, ra_status = node_st, ra_output = output\<rparr>],
          any_failed1, any_status1))"

definition merge_outcomes :: "state \<Rightarrow> (string \<times> node_kind \<times> update) list \<Rightarrow> state \<times> ran_node list" where
  "merge_outcomes s outcomes =
     (let (s1, rans, any_failed, any_status) = foldl merge_one (s, [], False, False) outcomes
      in (if any_status then s1\<lparr>status := Some (if any_failed then Failed else Ok)\<rparr> else s1, rans))"

definition updates_of :: "node_end list \<Rightarrow> (string \<times> node_kind \<times> update) list" where
  "updates_of ends =
     List.map_filter (\<lambda>e. case ne_result e of Inl m \<Rightarrow> None | Inr u \<Rightarrow> Some (ne_name e, ne_kind e, u)) ends"

definition run_frontier ::
    "'w node_ctx \<Rightarrow> graph \<Rightarrow> 'w schedule \<Rightarrow> nat \<Rightarrow> nat \<Rightarrow> string list \<Rightarrow> state \<Rightarrow>
     frontier_result \<times> string list" where
  "run_frontier cx g sd step attempt frontier s =
     (case resolve_nodes g frontier of
        Inl e \<Rightarrow> (FrErr (BlueprintErr e), [])
      | Inr runnables \<Rightarrow>
          let ends = map (run_one cx s (sd_world sd step attempt)) runnables;
              completed = sort_key (\<lambda>e. sd_rank sd step attempt (ne_name e)) ends;
              panics = (\<lambda>e. sd_panics sd step attempt (ne_name e))
          in if list_ex panics completed
             then (FrPanic,
                   concat (map (\<lambda>e. take (sd_registered sd step attempt (ne_name e)) (ne_ids e)) completed))
             else (case find (\<lambda>e. isl (ne_result e)) completed of
                     Some e \<Rightarrow> FrErr (NodeErr (ne_name e) (ne_kind e) (projl (ne_result e)))
                   | None \<Rightarrow> (case merge_outcomes s (updates_of ends) of (s1, rans) \<Rightarrow> FrOk s1 rans),
                   concat (map ne_ids completed)))"

section \<open>The run\<close>

record 'k xrun =
  xr_events :: "audit_event list"
  xr_store :: 'k
  xr_provisioned :: "string list"
  xr_destroyed :: "string list"
  xr_attempts :: "(nat \<times> nat) list"
  xr_saved :: "checkpoint list"
  xr_created :: "string list"

definition xemit :: "('w, 'k) executor \<Rightarrow> audit_event \<Rightarrow> 'k xrun \<Rightarrow> 'k xrun" where
  "xemit ex e r = (if ex_audit ex then r\<lparr>xr_events := xr_events r @ [e]\<rparr> else r)"

definition save_checkpoint ::
    "('w, 'k) executor \<Rightarrow> graph \<Rightarrow> nat \<Rightarrow> string list \<Rightarrow> state \<Rightarrow> 'k xrun \<Rightarrow> 'k xrun" where
  "save_checkpoint ex g step frontier s r =
     (case (ex_checkpointer ex, ex_run_id ex) of
        (Some ops, Some run_id) \<Rightarrow>
          let cp = \<lparr>cp_run_id = run_id, cp_blueprint = blueprint_label ex g, cp_step = step,
                    cp_frontier = frontier, cp_state = s\<rparr>
          in r\<lparr>xr_store := snd (ck_save ops cp (xr_store r)), xr_saved := xr_saved r @ [cp]\<rparr>
      | _ \<Rightarrow> r)"

definition set_run_status :: "('w, 'k) executor \<Rightarrow> checkpoint_status \<Rightarrow> 'k xrun \<Rightarrow> 'k xrun" where
  "set_run_status ex st r =
     (case (ex_checkpointer ex, ex_run_id ex) of
        (Some ops, Some run_id) \<Rightarrow> r\<lparr>xr_store := snd (ck_set_status ops run_id st (xr_store r))\<rparr>
      | _ \<Rightarrow> r)"

text \<open>Every way out of the loop sets the stored status and then records the completion.\<close>

definition finish ::
    "('w, 'k) executor \<Rightarrow> checkpoint_status \<Rightarrow> nat \<Rightarrow> completion_reason \<Rightarrow> 'k xrun \<Rightarrow> 'k xrun" where
  "finish ex st steps reason r = xemit ex (BlueprintCompleted steps reason) (set_run_status ex st r)"

datatype step_result =
    StDone state "ran_node list" nat
  | StCancelled
  | StFailed run_error
  | StPanicked

definition failed_node_event :: "nat \<Rightarrow> run_error \<Rightarrow> audit_event list" where
  "failed_node_event step e =
     (case e of
        NodeErr n k cause \<Rightarrow>
          [NodeExecuted (step + 1) n k NodeFailed (display_routes []) (show_run_error e)]
      | _ \<Rightarrow> [])"

definition xemits :: "('w, 'k) executor \<Rightarrow> audit_event list \<Rightarrow> 'k xrun \<Rightarrow> 'k xrun" where
  "xemits ex es r = foldl (\<lambda>r e. xemit ex e r) r es"

text \<open>The attempts at one super-step, each from the state before it.\<close>

function try_step ::
    "('w, 'k) executor \<Rightarrow> 'w node_ctx \<Rightarrow> graph \<Rightarrow> 'w schedule \<Rightarrow> nat \<Rightarrow> string list \<Rightarrow> state \<Rightarrow> nat \<Rightarrow>
     'k xrun \<Rightarrow> step_result \<times> 'k xrun" where
  "try_step ex cx g sd step frontier s attempt r =
     (case run_frontier cx g sd step attempt frontier s of (res, ids) \<Rightarrow>
        let r1 = r\<lparr>xr_provisioned := xr_provisioned r @ ids, xr_created := xr_created r @ ids,
                   xr_attempts := xr_attempts r @ [(step, attempt)]\<rparr>
        in case res of
             FrOk s1 rans \<Rightarrow> (StDone s1 rans attempt, r1)
           | FrPanic \<Rightarrow> (StPanicked, r1)
           | FrErr e \<Rightarrow>
               if sd_cancelled sd step attempt
               then (StCancelled, finish ex CkSuspended (step + 1) RunCancelled r1)
               else if attempt < ex_max_retries ex
               then let r2 = xemit ex (SuperStepRetried (step + 1) (attempt + 1) (show_run_error e)) r1
                    in if sd_woken sd step (attempt + 1)
                       then (StCancelled, finish ex CkSuspended (step + 1) RunCancelled r2)
                       else try_step ex cx g sd step frontier s (attempt + 1) r2
               else (StFailed e, finish ex CkFailed (step + 1) RunError
                       (xemits ex (failed_node_event step e) r1)))"
  by pat_completeness auto
termination
  by (relation "measure (\<lambda>(ex, cx, g, sd, step, frontier, s, attempt, r). ex_max_retries ex - attempt)") auto

declare try_step.simps [simp del]

fun route_all ::
    "('w, 'k) executor \<Rightarrow> graph \<Rightarrow> state \<Rightarrow> nat \<Rightarrow> ran_node list \<Rightarrow> string list \<Rightarrow> 'k xrun \<Rightarrow>
     (run_error + string list) \<times> 'k xrun" where
  "route_all ex g s step [] next_nodes r = (Inr next_nodes, r)"
| "route_all ex g s step (a # rans) next_nodes r =
     (case route g (ra_name a) s of
        Inl e \<Rightarrow>
          (Inl (RoutingErr (ra_name a) e),
           xemit ex (NodeExecuted (step + 1) (ra_name a) (ra_kind a) (ra_status a) '''' (ra_output a)) r)
      | Inr routes \<Rightarrow>
          route_all ex g s step rans (next_nodes @ filter (\<lambda>t. t \<noteq> END) routes)
            (xemit ex (NodeExecuted (step + 1) (ra_name a) (ra_kind a) (ra_status a)
               (display_routes routes) (ra_output a)) r))"

datatype outcome = OkState state | ErrRun run_error | Panicked

function run_steps ::
    "('w, 'k) executor \<Rightarrow> 'w node_ctx \<Rightarrow> graph \<Rightarrow> 'w schedule \<Rightarrow> nat \<Rightarrow> string list \<Rightarrow> state \<Rightarrow>
     'k xrun \<Rightarrow> outcome \<times> 'k xrun" where
  "run_steps ex cx g sd step frontier s r =
     (if step < ex_max_steps ex then
        let f = sort_dedup frontier in
        if f = [] then (OkState s, finish ex CkCompleted step RunDone r)
        else
          (case try_step ex cx g sd step f s 0 (save_checkpoint ex g step f s r) of
             (StPanicked, r2) \<Rightarrow> (Panicked, r2)
           | (StCancelled, r2) \<Rightarrow> (OkState s, r2)
           | (StFailed e, r2) \<Rightarrow> (ErrRun e, r2)
           | (StDone s1 rans attempt, r2) \<Rightarrow>
               if sd_cancelled sd step attempt
               then (OkState s1, finish ex CkSuspended (step + 1) RunCancelled r2)
               else (case route_all ex g s1 step rans [] r2 of
                       (Inl e, r3) \<Rightarrow> (ErrRun e, finish ex CkFailed (step + 1) RunError r3)
                     | (Inr next_nodes, r3) \<Rightarrow> run_steps ex cx g sd (step + 1) next_nodes s1 r3))
      else (ErrRun (BlueprintErr (StepLimit (ex_max_steps ex))),
            finish ex CkFailed (ex_max_steps ex) RunStepLimit r))"
  by pat_completeness auto
termination
  by (relation "measure (\<lambda>(ex, cx, g, sd, step, frontier, s, r). ex_max_steps ex - step)") auto

declare run_steps.simps [simp del]

datatype run_start = Fresh string | Resume checkpoint

definition run_graph ::
    "('w, 'k) executor \<Rightarrow> 'w node_ctx \<Rightarrow> graph \<Rightarrow> 'w schedule \<Rightarrow> run_start \<Rightarrow> 'k xrun \<Rightarrow> outcome \<times> 'k xrun" where
  "run_graph ex cx g sd start r =
     (if ex_max_steps ex = 0
      then (ErrRun (BlueprintErr (Invalid ''max_steps must be greater than 0'')), r)
      else (case start of
              Fresh t \<Rightarrow>
                run_steps ex cx g sd 0 [gr_entry g] (new_state t)
                  (xemit ex (BlueprintStarted (gr_name g) (gr_entry g)) r)
            | Resume cp \<Rightarrow>
                run_steps ex cx g sd (cp_step cp) (cp_frontier cp) (cp_state cp)
                  (xemit ex (BlueprintResumed (gr_name g) (cp_step cp)) r)))"

definition cleanup_all :: "'k xrun \<Rightarrow> 'k xrun" where
  "cleanup_all r = r\<lparr>xr_destroyed := xr_destroyed r @ xr_provisioned r, xr_provisioned := []\<rparr>"

definition new_xrun :: "'k \<Rightarrow> 'k xrun" where
  "new_xrun k = \<lparr>xr_events = [], xr_store = k, xr_provisioned = [], xr_destroyed = [],
     xr_attempts = [], xr_saved = [], xr_created = []\<rparr>"

text \<open>A panic passes through after the cleanup.\<close>

definition execute ::
    "('w, 'k) executor \<Rightarrow> 'w outside \<Rightarrow> graph \<Rightarrow> 'w schedule \<Rightarrow> run_start \<Rightarrow> 'k \<Rightarrow> outcome \<times> 'k xrun" where
  "execute ex os g sd start k =
     (let (res, r) = run_graph ex (node_ctx_of ex os) g sd start (new_xrun k)
      in (res, cleanup_all r))"

definition run_blueprint ::
    "('w, 'k) executor \<Rightarrow> 'w outside \<Rightarrow> graph \<Rightarrow> 'w schedule \<Rightarrow> string \<Rightarrow> 'k \<Rightarrow> outcome \<times> 'k xrun" where
  "run_blueprint ex os g sd t k = execute ex os g sd (Fresh t) k"

definition load_run :: "('w, 'k) executor \<Rightarrow> 'k \<Rightarrow> (string + loaded_checkpoint) \<times> 'k" where
  "load_run ex k =
     (case ex_checkpointer ex of
        None \<Rightarrow> (Inl ''cannot resume: no checkpointer configured'', k)
      | Some ops \<Rightarrow>
          (case ex_run_id ex of
             None \<Rightarrow> (Inl ''cannot resume: no run_id set on the executor'', k)
           | Some run_id \<Rightarrow>
               (case ck_load ops run_id k of
                  (Inl e, k1) \<Rightarrow> (Inl e, k1)
                | (Inr None, k1) \<Rightarrow>
                    (Inl (''no checkpoint found for run '' @ bt @ run_id @ bt), k1)
                | (Inr (Some l), k1) \<Rightarrow> (Inr l, k1))))"

definition resume_blueprint ::
    "('w, 'k) executor \<Rightarrow> 'w outside \<Rightarrow> graph \<Rightarrow> 'w schedule \<Rightarrow> 'k \<Rightarrow> outcome \<times> 'k xrun" where
  "resume_blueprint ex os g sd k =
     (case load_run ex k of
        (Inl e, k1) \<Rightarrow> (ErrRun (ResumeErr e), new_xrun k1)
      | (Inr l, k1) \<Rightarrow>
          if \<not> ld_resumable l
          then (ErrRun (ResumeErr ''run already finished (completed or failed); nothing to resume''), new_xrun k1)
          else if cp_blueprint (ld_checkpoint l) \<noteq> blueprint_label ex g
          then (ErrRun (ResumeErr (''checkpoint for run was taken against blueprint '' @ bt @
                  cp_blueprint (ld_checkpoint l) @ bt @ '', not '' @ bt @ blueprint_label ex g @ bt)),
                new_xrun k1)
          else execute ex os g sd (Resume (ld_checkpoint l)) k1)"

end
