(* ===== verification/Executor_Resume.thy ===== *)
theory Executor_Resume
  imports Executor
begin

text \<open>
  Observers and resumption of the executor: the outcome of a run depends on neither the audit
  sink nor the checkpointer, a resumed run behaves as the uninterrupted one, and what the
  store holds of a run is one of its snapshots.
\<close>

section \<open>Frames\<close>

lemma xemit_frame [simp, frame_simps]:
  "xr_store (xemit ex e r) = xr_store r"
  "xr_provisioned (xemit ex e r) = xr_provisioned r"
  "xr_destroyed (xemit ex e r) = xr_destroyed r"
  "xr_attempts (xemit ex e r) = xr_attempts r"
  "xr_saved (xemit ex e r) = xr_saved r"
  "xr_created (xemit ex e r) = xr_created r"
  "xr_events (xemit ex e r) = (if ex_audit ex then xr_events r @ [e] else xr_events r)"
  by (simp_all add: xemit_def)

lemma xemits_frame [simp, frame_simps]:
  "xr_store (xemits ex es r) = xr_store r"
  "xr_provisioned (xemits ex es r) = xr_provisioned r"
  "xr_destroyed (xemits ex es r) = xr_destroyed r"
  "xr_attempts (xemits ex es r) = xr_attempts r"
  "xr_saved (xemits ex es r) = xr_saved r"
  "xr_created (xemits ex es r) = xr_created r"
  "xr_events (xemits ex es r) = (if ex_audit ex then xr_events r @ es else xr_events r)"
  by (induction es arbitrary: r) (simp_all add: xemits_def)

lemma set_run_status_frame [simp, frame_simps]:
  "xr_provisioned (set_run_status ex st r) = xr_provisioned r"
  "xr_destroyed (set_run_status ex st r) = xr_destroyed r"
  "xr_attempts (set_run_status ex st r) = xr_attempts r"
  "xr_saved (set_run_status ex st r) = xr_saved r"
  "xr_created (set_run_status ex st r) = xr_created r"
  "xr_events (set_run_status ex st r) = xr_events r"
  by (simp_all add: set_run_status_def split: option.split)

lemma finish_frame [simp, frame_simps]:
  "xr_store (finish ex st n reason r) = xr_store (set_run_status ex st r)"
  "xr_provisioned (finish ex st n reason r) = xr_provisioned r"
  "xr_destroyed (finish ex st n reason r) = xr_destroyed r"
  "xr_attempts (finish ex st n reason r) = xr_attempts r"
  "xr_saved (finish ex st n reason r) = xr_saved r"
  "xr_created (finish ex st n reason r) = xr_created r"
  "xr_events (finish ex st n reason r) =
     (if ex_audit ex then xr_events r @ [BlueprintCompleted n reason] else xr_events r)"
  by (simp_all add: finish_def)

lemma save_checkpoint_frame [simp, frame_simps]:
  "xr_provisioned (save_checkpoint ex g step f s r) = xr_provisioned r"
  "xr_destroyed (save_checkpoint ex g step f s r) = xr_destroyed r"
  "xr_attempts (save_checkpoint ex g step f s r) = xr_attempts r"
  "xr_created (save_checkpoint ex g step f s r) = xr_created r"
  "xr_events (save_checkpoint ex g step f s r) = xr_events r"
  by (simp_all add: save_checkpoint_def Let_def split: option.split)

text \<open>The snapshot a super-step saves.\<close>

definition snapshot :: "('w, 'k) executor \<Rightarrow> graph \<Rightarrow> nat \<Rightarrow> string list \<Rightarrow> state \<Rightarrow> checkpoint list" where
  "snapshot ex g step f s =
     (case (ex_checkpointer ex, ex_run_id ex) of
        (Some ops, Some run_id) \<Rightarrow>
          [\<lparr>cp_run_id = run_id, cp_blueprint = blueprint_label ex g, cp_step = step,
            cp_frontier = f, cp_state = s\<rparr>]
      | _ \<Rightarrow> [])"

lemma save_checkpoint_saved [simp]:
  "xr_saved (save_checkpoint ex g step f s r) = xr_saved r @ snapshot ex g step f s"
  by (simp add: save_checkpoint_def snapshot_def Let_def split: option.split)

lemma snapshot_fields:
  "cp \<in> set (snapshot ex g step f s) \<Longrightarrow>
     cp_step cp = step \<and> cp_frontier cp = f \<and> cp_state cp = s \<and> cp_blueprint cp = blueprint_label ex g \<and>
     ex_run_id ex = Some (cp_run_id cp)"
  by (auto simp: snapshot_def split: option.splits)

lemma try_step_frame:
  "xr_saved (snd (try_step ex cx g sd step f s n r)) = xr_saved r \<and>
   xr_destroyed (snd (try_step ex cx g sd step f s n r)) = xr_destroyed r"
proof (induction ex cx g sd step f s n r rule: try_step.induct)
  case (1 ex cx g sd step f s n r)
  then show ?case
    by (subst (1 2) try_step.simps)
      (auto simp: Let_def split: prod.split frontier_result.split)
qed

lemma route_all_frame:
  "xr_saved (snd (route_all ex g s step rans nx r)) = xr_saved r \<and>
   xr_destroyed (snd (route_all ex g s step rans nx r)) = xr_destroyed r \<and>
   xr_provisioned (snd (route_all ex g s step rans nx r)) = xr_provisioned r \<and>
   xr_created (snd (route_all ex g s step rans nx r)) = xr_created r \<and>
   xr_attempts (snd (route_all ex g s step rans nx r)) = xr_attempts r \<and>
   xr_store (snd (route_all ex g s step rans nx r)) = xr_store r"
  by (induction ex g s step rans nx r rule: route_all.induct) (auto split: sum.split)

section \<open>The outcome does not depend on the observers\<close>

lemma try_step_fst:
  "ex_max_retries ex = ex_max_retries ex' \<Longrightarrow>
     fst (try_step ex cx g sd step f s n r) = fst (try_step ex' cx g sd step f s n r')"
proof (induction ex cx g sd step f s n r arbitrary: r' rule: try_step.induct)
  case (1 ex cx g sd step f s n r)
  obtain res ids where fr: "run_frontier cx g sd step n f s = (res, ids)"
    by (cases "run_frontier cx g sd step n f s")
  show ?case
  proof (cases res)
    case (FrErr e)
    with 1 fr show ?thesis
      by (simp add: try_step.simps [of ex cx g sd step f s n r] try_step.simps [of ex' cx g sd step f s n r'] Let_def)
  qed (simp_all add: try_step.simps [of ex cx g sd step f s n r] try_step.simps [of ex' cx g sd step f s n r']
      fr Let_def)
qed

lemma route_all_fst:
  "fst (route_all ex g s step rans nx r) = fst (route_all ex' g s step rans nx r')"
  by (induction ex g s step rans nx r arbitrary: r' rule: route_all.induct) (auto split: sum.split)

lemma run_steps_fst:
  "ex_max_retries ex = ex_max_retries ex' \<Longrightarrow> ex_max_steps ex = ex_max_steps ex' \<Longrightarrow>
     fst (run_steps ex cx g sd step f s r) = fst (run_steps ex' cx g sd step f s r')"
proof (induction "ex_max_steps ex - step" arbitrary: step f s r r')
  case 0
  then show ?case
    by (simp add: run_steps.simps [of ex cx g sd step] run_steps.simps [of ex' cx g sd step])
next
  case (Suc n)
  let ?f = "sort_dedup f"
  show ?case
  proof (cases "?f = []")
    case True
    with Suc show ?thesis
      by (simp add: run_steps.simps [of ex cx g sd step] run_steps.simps [of ex' cx g sd step] Let_def)
  next
    case False
    obtain res r2 where t: "try_step ex cx g sd step ?f s 0 (save_checkpoint ex g step ?f s r) = (res, r2)"
      by (cases "try_step ex cx g sd step ?f s 0 (save_checkpoint ex g step ?f s r)")
    obtain r2' where t': "try_step ex' cx g sd step ?f s 0 (save_checkpoint ex' g step ?f s r') = (res, r2')"
      using try_step_fst [OF Suc.prems(1), of cx g sd step ?f s 0 "save_checkpoint ex g step ?f s r"
          "save_checkpoint ex' g step ?f s r'"] t
      by (metis fst_conv prod.collapse)
    have step: "step < ex_max_steps ex" "step < ex_max_steps ex'" using Suc by auto
    show ?thesis
    proof (cases res)
      case (StDone s1 rans n1)
      obtain nx r3 where ro: "route_all ex g s1 step rans [] r2 = (nx, r3)"
        by (cases "route_all ex g s1 step rans [] r2")
      obtain r3' where ro': "route_all ex' g s1 step rans [] r2' = (nx, r3')"
        using route_all_fst [of ex g s1 step rans "[]" r2 ex' r2'] ro by (metis fst_conv prod.collapse)
      have IH: "fst (run_steps ex cx g sd (Suc step) nodes s1 r3) = fst (run_steps ex' cx g sd (Suc step) nodes s1 r3')"
        for nodes
        using Suc by (intro Suc.hyps) auto
      from step t t' StDone ro ro' False IH show ?thesis
        by (simp add: run_steps.simps [of ex cx g sd step] run_steps.simps [of ex' cx g sd step] Let_def
            split: sum.split)
    qed (use step t t' False in \<open>simp_all add: run_steps.simps [of ex cx g sd step]
        run_steps.simps [of ex' cx g sd step] Let_def\<close>)
  qed
qed

section \<open>Schedules\<close>

definition agree :: "'w schedule \<Rightarrow> 'w schedule \<Rightarrow> nat \<Rightarrow> bool" where
  "agree sd sd' step \<longleftrightarrow>
     sd_world sd step = sd_world sd' step \<and> sd_rank sd step = sd_rank sd' step \<and>
     sd_panics sd step = sd_panics sd' step \<and> sd_registered sd step = sd_registered sd' step \<and>
     sd_cancelled sd step = sd_cancelled sd' step \<and>
     sd_woken sd step = sd_woken sd' step"

text \<open>The schedule of a run interrupted at super-step \<open>n\<close> under \<open>sd\<close> and continued under \<open>sd'\<close>.\<close>

definition splice_schedules :: "nat \<Rightarrow> 'w schedule \<Rightarrow> 'w schedule \<Rightarrow> 'w schedule" where
  "splice_schedules n sd sd' =
     \<lparr>sd_world = (\<lambda>k. if k < n then sd_world sd k else sd_world sd' k),
      sd_rank = (\<lambda>k. if k < n then sd_rank sd k else sd_rank sd' k),
      sd_panics = (\<lambda>k. if k < n then sd_panics sd k else sd_panics sd' k),
      sd_registered = (\<lambda>k. if k < n then sd_registered sd k else sd_registered sd' k),
      sd_cancelled = (\<lambda>k. if k < n then sd_cancelled sd k else sd_cancelled sd' k),
      sd_woken = (\<lambda>k. if k < n then sd_woken sd k else sd_woken sd' k)\<rparr>"

lemma splice_agree: "k < n \<Longrightarrow> agree sd (splice_schedules n sd sd') k" "n \<le> k \<Longrightarrow> agree sd' (splice_schedules n sd sd') k"
  by (simp_all add: agree_def splice_schedules_def)

lemma run_frontier_agree:
  "agree sd sd' step \<Longrightarrow> run_frontier cx g sd step n f s = run_frontier cx g sd' step n f s"
  unfolding agree_def run_frontier_def by (elim conjE) (simp only:)

lemma try_step_agree:
  "agree sd sd' step \<Longrightarrow> try_step ex cx g sd step f s n r = try_step ex cx g sd' step f s n r"
proof (induction ex cx g sd step f s n r rule: try_step.induct)
  case (1 ex cx g sd step f s n r)
  obtain res ids where fr: "run_frontier cx g sd step n f s = (res, ids)"
    by (cases "run_frontier cx g sd step n f s")
  with 1 have fr': "run_frontier cx g sd' step n f s = (res, ids)" by (simp add: run_frontier_agree)
  from 1(2) have "sd_cancelled sd step = sd_cancelled sd' step" "sd_woken sd step = sd_woken sd' step"
    by (simp_all add: agree_def)
  with 1 fr fr' show ?case
    by (cases res) (simp_all add: try_step.simps [of ex cx g sd step f s n r]
        try_step.simps [of ex cx g sd' step f s n r] Let_def)
qed

lemma run_steps_agree:
  "(\<And>k. step \<le> k \<Longrightarrow> agree sd sd' k) \<Longrightarrow> run_steps ex cx g sd step f s r = run_steps ex cx g sd' step f s r"
proof (induction "ex_max_steps ex - step" arbitrary: step f s r)
  case 0
  then show ?case
    by (simp add: run_steps.simps [of ex cx g sd step] run_steps.simps [of ex cx g sd' step])
next
  case (Suc n)
  have t: "try_step ex cx g sd step (sort_dedup f) s 0 (save_checkpoint ex g step (sort_dedup f) s r) =
      try_step ex cx g sd' step (sort_dedup f) s 0 (save_checkpoint ex g step (sort_dedup f) s r)"
    by (rule try_step_agree) (simp add: Suc.prems)
  have c: "sd_cancelled sd step = sd_cancelled sd' step" using Suc.prems [of step] by (simp add: agree_def)
  have IH: "run_steps ex cx g sd (Suc step) nodes s1 r3 = run_steps ex cx g sd' (Suc step) nodes s1 r3" for nodes s1 r3
    using Suc by (intro Suc.hyps) auto
  show ?case
    by (simp add: run_steps.simps [of ex cx g sd step] run_steps.simps [of ex cx g sd' step] Let_def t c IH
        split: prod.split step_result.split sum.split)
qed

section \<open>Continuing from a snapshot\<close>

text \<open>
  \<open>continues ex cx g sd step f s cp\<close>: under every schedule that agrees with \<open>sd\<close> up to the
  snapshot, running from here and running from the snapshot end the same way.
\<close>

definition continues ::
    "('w, 'k) executor \<Rightarrow> 'w node_ctx \<Rightarrow> graph \<Rightarrow> 'w schedule \<Rightarrow> nat \<Rightarrow> string list \<Rightarrow> state \<Rightarrow>
     checkpoint \<Rightarrow> bool" where
  "continues ex cx g sd step f s cp \<longleftrightarrow>
     step \<le> cp_step cp \<and> cp_blueprint cp = blueprint_label ex g \<and> ex_run_id ex = Some (cp_run_id cp) \<and>
     (\<forall>sd' r1 r2. (\<forall>k. step \<le> k \<longrightarrow> k < cp_step cp \<longrightarrow> agree sd sd' k) \<longrightarrow>
        fst (run_steps ex cx g sd' step f s r1) =
        fst (run_steps ex cx g sd' (cp_step cp) (cp_frontier cp) (cp_state cp) r2))"

lemma continues_here:
  assumes "cp \<in> set (snapshot ex g step (sort_dedup f) s)"
  shows "continues ex cx g sd step f s cp"
proof -
  note cp = snapshot_fields [OF assms]
  have "fst (run_steps ex cx g sd' step f s r1) = fst (run_steps ex cx g sd' step (sort_dedup f) s r2)"
    for sd' r1 r2
  proof -
    have "fst (run_steps ex cx g sd' step f s r1) = fst (run_steps ex cx g sd' step f s r2)"
      by (rule run_steps_fst) simp_all
    also have "run_steps ex cx g sd' step f s r2 = run_steps ex cx g sd' step (sort_dedup f) s r2"
      by (simp add: run_steps.simps [of ex cx g sd' step])
    finally show ?thesis .
  qed
  with cp show ?thesis by (simp add: continues_def)
qed

text \<open>One super-step that is not cancelled leads to the next loop head.\<close>

lemma run_steps_next:
  assumes "step < ex_max_steps ex" "sort_dedup f \<noteq> []"
    and "fst (try_step ex cx g sd step (sort_dedup f) s 0 r0) = StDone s1 rans n"
    and "\<not> sd_cancelled sd step n" and "fst (route_all ex g s1 step rans [] r00) = Inr nx"
  shows "\<exists>r3. run_steps ex cx g sd step f s r = run_steps ex cx g sd (Suc step) nx s1 r3 \<and>
    xr_saved r3 = xr_saved r @ snapshot ex g step (sort_dedup f) s"
proof -
  let ?f = "sort_dedup f"
  let ?r = "save_checkpoint ex g step ?f s r"
  obtain r2 where t: "try_step ex cx g sd step ?f s 0 ?r = (StDone s1 rans n, r2)"
    using try_step_fst [of ex ex cx g sd step ?f s 0 ?r r0] assms(3) by (metis prod.collapse)
  obtain r3 where ro: "route_all ex g s1 step rans [] r2 = (Inr nx, r3)"
    using route_all_fst [of ex g s1 step rans "[]" r2 ex r00] assms(5) by (metis prod.collapse)
  have "xr_saved r3 = xr_saved r @ snapshot ex g step ?f s"
    using try_step_frame [of ex cx g sd step ?f s 0 ?r] route_all_frame [of ex g s1 step rans "[]" r2] t ro by simp
  moreover have "run_steps ex cx g sd step f s r = run_steps ex cx g sd (Suc step) nx s1 r3"
    using assms(1,2,4) t ro by (simp add: run_steps.simps [of ex cx g sd step] Let_def)
  ultimately show ?thesis by blast
qed

lemma continues_later:
  assumes "continues ex cx g sd (Suc step) nx s1 cp"
    and step: "step < ex_max_steps ex" "sort_dedup f \<noteq> []"
    and "fst (try_step ex cx g sd step (sort_dedup f) s 0 r0) = StDone s1 rans n"
    and "\<not> sd_cancelled sd step n" and ro: "fst (route_all ex g s1 step rans [] r00) = Inr nx"
  shows "continues ex cx g sd step f s cp"
proof -
  from assms(1) have cp: "Suc step \<le> cp_step cp" "cp_blueprint cp = blueprint_label ex g"
    "ex_run_id ex = Some (cp_run_id cp)"
    and cont: "\<And>sd' r1 r2. (\<And>k. Suc step \<le> k \<Longrightarrow> k < cp_step cp \<Longrightarrow> agree sd sd' k) \<Longrightarrow>
        fst (run_steps ex cx g sd' (Suc step) nx s1 r1) =
        fst (run_steps ex cx g sd' (cp_step cp) (cp_frontier cp) (cp_state cp) r2)"
    by (auto simp: continues_def)
  have "fst (run_steps ex cx g sd' step f s r1) =
      fst (run_steps ex cx g sd' (cp_step cp) (cp_frontier cp) (cp_state cp) r2)"
    if ag: "\<And>k. step \<le> k \<Longrightarrow> k < cp_step cp \<Longrightarrow> agree sd sd' k" for sd' r1 r2
  proof -
    have a: "agree sd sd' step" using ag cp(1) by simp
    with assms(4,5) have "fst (try_step ex cx g sd' step (sort_dedup f) s 0 r0) = StDone s1 rans n"
      "\<not> sd_cancelled sd' step n"
      by (simp_all add: try_step_agree [OF a, symmetric]) (simp add: agree_def)
    from run_steps_next [OF step this ro, of r1] obtain r3
      where "run_steps ex cx g sd' step f s r1 = run_steps ex cx g sd' (Suc step) nx s1 r3" by blast
    with cont [of sd' r3 r2] ag show ?thesis by simp
  qed
  with cp show ?thesis by (simp add: continues_def)
qed

lemma run_steps_saved:
  "\<exists>new. xr_saved (snd (run_steps ex cx g sd step f s r)) = xr_saved r @ new \<and>
     (\<forall>cp \<in> set new. continues ex cx g sd step f s cp)"
proof (induction "ex_max_steps ex - step" arbitrary: step f s r)
  case 0
  then show ?case by (simp add: run_steps.simps [of ex cx g sd step])
next
  case (Suc m)
  let ?f = "sort_dedup f"
  let ?r = "save_checkpoint ex g step ?f s r"
  have step: "step < ex_max_steps ex" using Suc by simp
  show ?case
  proof (cases "?f = []")
    case True
    with step show ?thesis by (simp add: run_steps.simps [of ex cx g sd step] Let_def)
  next
    case False
    obtain res r2 where t: "try_step ex cx g sd step ?f s 0 ?r = (res, r2)"
      by (cases "try_step ex cx g sd step ?f s 0 ?r")
    have saved: "xr_saved r2 = xr_saved r @ snapshot ex g step ?f s"
      using try_step_frame [of ex cx g sd step ?f s 0 ?r] t by simp
    have stop: ?thesis if "xr_saved (snd (run_steps ex cx g sd step f s r)) = xr_saved r @ snapshot ex g step ?f s"
      using that continues_here by blast
    show ?thesis
    proof (cases res)
      case (StDone s1 rans n)
      show ?thesis
      proof (cases "sd_cancelled sd step n")
        case True
        with step t StDone False saved show ?thesis
          by (intro stop) (simp add: run_steps.simps [of ex cx g sd step] Let_def)
      next
        case nc: False
        obtain out r3 where ro: "route_all ex g s1 step rans [] r2 = (out, r3)"
          by (cases "route_all ex g s1 step rans [] r2")
        have saved3: "xr_saved r3 = xr_saved r @ snapshot ex g step ?f s"
          using route_all_frame [of ex g s1 step rans "[]" r2] ro saved by simp
        show ?thesis
        proof (cases out)
          case (Inl e)
          with step t StDone False nc ro saved3 show ?thesis
            by (intro stop) (simp add: run_steps.simps [of ex cx g sd step] Let_def)
        next
          case (Inr nx)
          have eq: "run_steps ex cx g sd step f s r = run_steps ex cx g sd (Suc step) nx s1 r3"
            using step t StDone False nc ro Inr by (simp add: run_steps.simps [of ex cx g sd step] Let_def)
          have m: "m = ex_max_steps ex - Suc step" using Suc.hyps(2) by simp
          obtain new where new: "xr_saved (snd (run_steps ex cx g sd (Suc step) nx s1 r3)) = xr_saved r3 @ new"
            "\<forall>cp \<in> set new. continues ex cx g sd (Suc step) nx s1 cp"
            using Suc.hyps(1) [OF m, of nx s1 r3] by blast
          have tf: "fst (try_step ex cx g sd step ?f s 0 ?r) = StDone s1 rans n"
            "fst (route_all ex g s1 step rans [] r2) = Inr nx"
            using t StDone ro Inr by simp_all
          have "continues ex cx g sd step f s cp" if "cp \<in> set new" for cp
            using new(2) that by (intro continues_later [OF _ step False tf(1) nc tf(2)]) blast
          moreover have "\<forall>cp \<in> set (snapshot ex g step ?f s). continues ex cx g sd step f s cp"
            using continues_here by blast
          ultimately show ?thesis
            unfolding eq using new(1) saved3
            by (intro exI [of _ "snapshot ex g step ?f s @ new"]) auto
        qed
      qed
    qed (use step t False saved in \<open>auto intro!: stop intro: continues_here simp: run_steps.simps [of ex cx g sd step] Let_def\<close>)
  qed
qed

section \<open>What the store holds of a run\<close>

context checkpointer
begin

definition held :: "'k \<Rightarrow> string \<Rightarrow> checkpoint option" where
  "held k i = (case stored k i of Inr (Some l) \<Rightarrow> Some (ld_checkpoint l) | _ \<Rightarrow> None)"

text \<open>The store is valid, and what it holds for the run is readable and, if any, in \<open>cps\<close>.\<close>

definition tracks :: "string \<Rightarrow> checkpoint list \<Rightarrow> 'k \<Rightarrow> bool" where
  "tracks i cps k \<longleftrightarrow> valid k \<and> \<not> isl (stored k i) \<and> (case held k i of None \<Rightarrow> True | Some cp \<Rightarrow> cp \<in> set cps)"

lemma tracks_mono: "tracks i cps k \<Longrightarrow> set cps \<subseteq> set cps' \<Longrightarrow> tracks i cps' k"
  by (auto simp: tracks_def split: option.splits)

lemma tracks_save:
  assumes "tracks (cp_run_id cp) cps k" "storable cp"
  shows "tracks (cp_run_id cp) (cps @ [cp]) (snd (ck_save ops cp k))"
proof -
  have v: "valid k" using assms(1) by (simp add: tracks_def)
  from save_keeps_or_replaces [OF v assms(2)] show ?thesis
    using assms(1) save_valid [OF v, of cp] by (auto simp: tracks_def held_def split: option.splits)
qed

lemma tracks_set_status:
  assumes "tracks i cps k"
  shows "tracks i cps (snd (ck_set_status ops i st k))"
proof -
  have v: "valid k" using assms by (simp add: tracks_def)
  show ?thesis
  proof (cases "stored k i")
    case (Inl e)
    with assms show ?thesis by (simp add: tracks_def)
  next
    case (Inr lo)
    then show ?thesis
    proof (cases lo)
      case None
      with Inr set_none [of k i st] assms set_valid [OF v, of i st] show ?thesis
        by (simp add: tracks_def held_def)
    next
      case (Some l)
      with Inr set_keeps_snapshot [OF v, of i l st] assms set_valid [OF v, of i st] show ?thesis
        by (auto simp: tracks_def held_def)
    qed
  qed
qed

lemma tracks_set_run_status:
  assumes "ex_checkpointer ex = Some ops" "ex_run_id ex = Some i" "tracks i cps (xr_store r)"
  shows "tracks i cps (xr_store (set_run_status ex st r))"
  using assms by (simp add: set_run_status_def tracks_set_status)

lemma tracks_save_checkpoint:
  assumes "ex_checkpointer ex = Some ops" "ex_run_id ex = Some i" "tracks i (xr_saved r) (xr_store r)"
    and "list_all storable (xr_saved (save_checkpoint ex g step f s r))"
  shows "tracks i (xr_saved (save_checkpoint ex g step f s r)) (xr_store (save_checkpoint ex g step f s r))"
  using assms tracks_save [of "\<lparr>cp_run_id = i, cp_blueprint = blueprint_label ex g, cp_step = step,
      cp_frontier = f, cp_state = s\<rparr>" "xr_saved r" "xr_store r"]
  by (simp add: save_checkpoint_def snapshot_def Let_def)

lemma tracks_try_step:
  assumes "ex_checkpointer ex = Some ops" "ex_run_id ex = Some i" "tracks i cps (xr_store r)"
  shows "tracks i cps (xr_store (snd (try_step ex cx g sd step f s n r)))"
  using assms
proof (induction ex cx g sd step f s n r rule: try_step.induct)
  case (1 ex cx g sd step f s n r)
  obtain res ids where fr: "run_frontier cx g sd step n f s = (res, ids)"
    by (cases "run_frontier cx g sd step n f s")
  with 1 show ?case
    by (cases res) (simp_all add: try_step.simps [of ex cx g sd step f s n r] Let_def tracks_set_run_status)
qed

lemma tracks_run_steps:
  assumes "ex_checkpointer ex = Some ops" "ex_run_id ex = Some i" "tracks i (xr_saved r) (xr_store r)"
    and "list_all storable (xr_saved (snd (run_steps ex cx g sd step f s r)))"
  shows "tracks i (xr_saved (snd (run_steps ex cx g sd step f s r)))
    (xr_store (snd (run_steps ex cx g sd step f s r)))"
  using assms(3,4)
proof (induction "ex_max_steps ex - step" arbitrary: step f s r)
  case 0
  then show ?case
    using assms(1,2) by (simp add: run_steps.simps [of ex cx g sd step] tracks_set_run_status)
next
  case (Suc m)
  let ?f = "sort_dedup f"
  let ?r = "save_checkpoint ex g step ?f s r"
  have step: "step < ex_max_steps ex" and m: "m = ex_max_steps ex - Suc step" using Suc.hyps(2) by simp_all
  show ?case
  proof (cases "?f = []")
    case True
    with step Suc.prems assms(1,2) show ?thesis
      by (simp add: run_steps.simps [of ex cx g sd step] Let_def tracks_set_run_status)
  next
    case False
    obtain res r2 where t: "try_step ex cx g sd step ?f s 0 ?r = (res, r2)"
      by (cases "try_step ex cx g sd step ?f s 0 ?r")
    have saved: "xr_saved r2 = xr_saved ?r"
      using try_step_frame [of ex cx g sd step ?f s 0 ?r] t by simp
    have ok: "tracks i (xr_saved r2) (xr_store r2)" if "list_all storable (xr_saved ?r)"
      using tracks_try_step [OF assms(1,2) tracks_save_checkpoint [OF assms(1,2) Suc.prems(1) that],
          of cx g sd step ?f s 0] t saved by simp
    show ?thesis
    proof (cases res)
      case (StDone s1 rans n)
      show ?thesis
      proof (cases "sd_cancelled sd step n")
        case True
        with step t StDone False Suc.prems(2) saved ok assms(1,2) show ?thesis
          by (simp add: run_steps.simps [of ex cx g sd step] Let_def tracks_set_run_status)
      next
        case nc: False
        obtain out r3 where ro: "route_all ex g s1 step rans [] r2 = (out, r3)"
          by (cases "route_all ex g s1 step rans [] r2")
        have r3: "xr_saved r3 = xr_saved r2" "xr_store r3 = xr_store r2"
          using route_all_frame [of ex g s1 step rans "[]" r2] ro by simp_all
        show ?thesis
        proof (cases out)
          case (Inl e)
          with step t StDone False nc ro Suc.prems(2) saved ok r3 assms(1,2) show ?thesis
            by (simp add: run_steps.simps [of ex cx g sd step] Let_def tracks_set_run_status)
        next
          case (Inr nx)
          have eq: "run_steps ex cx g sd step f s r = run_steps ex cx g sd (Suc step) nx s1 r3"
            using step t StDone False nc ro Inr by (simp add: run_steps.simps [of ex cx g sd step] Let_def)
          have "list_all storable (xr_saved ?r)"
            using Suc.prems(2) run_steps_saved [of ex cx g sd "Suc step" nx s1 r3] saved r3(1)
            unfolding eq by auto
          with ok r3 have "tracks i (xr_saved r3) (xr_store r3)" by simp
          from Suc.hyps(1) [OF m this] Suc.prems(2) show ?thesis unfolding eq by simp
        qed
      qed
    qed (use step t False saved ok Suc.prems(2) in \<open>simp_all add: run_steps.simps [of ex cx g sd step] Let_def\<close>)
  qed
qed

lemma tracks_run_blueprint:
  assumes ex: "ex_checkpointer ex = Some ops" "ex_run_id ex = Some i"
    and k: "valid k" "stored k i = Inr None"
    and run: "run_blueprint ex os g sd t k = (res, r)" and saved: "list_all storable (xr_saved r)"
  shows "tracks i (xr_saved r) (xr_store r)"
proof (cases "ex_max_steps ex = 0")
  case True
  with run have "xr_store r = k"
    by (auto simp: run_blueprint_def execute_def run_graph_def cleanup_all_def new_xrun_def)
  with k show ?thesis by (simp add: tracks_def held_def)
next
  case False
  let ?r0 = "xemit ex (BlueprintStarted (gr_name g) (gr_entry g)) (new_xrun k)"
  have "tracks i (xr_saved ?r0) (xr_store ?r0)"
    using k by (simp add: tracks_def held_def new_xrun_def)
  moreover have "r = cleanup_all (snd (run_steps ex (node_ctx_of ex os) g sd 0 [gr_entry g] (new_state t) ?r0))"
    using run False by (auto simp: run_blueprint_def execute_def run_graph_def Let_def split: prod.splits)
  ultimately show ?thesis
    using tracks_run_steps [OF ex, of ?r0 "node_ctx_of ex os" g sd 0 "[gr_entry g]" "new_state t"] saved
    by (simp add: cleanup_all_def)
qed

text \<open>
  The resume guarantee for any provider of the contract: after a run whose snapshots it can
  store, whatever the run came to and whatever operations of the store failed, a resume that
  gets past its guards, from that store or one that holds the same for the run, ends as the
  uninterrupted run whose schedule is the interrupted one up to the snapshot and the resumed one
  from there.
\<close>

lemma resume_completes_from:
  assumes ex: "ex_checkpointer ex = Some ops" "ex_run_id ex = Some i"
    and k: "valid k" "stored k i = Inr None"
    and run: "run_blueprint ex os g sd t k = (res, r)" and saved: "list_all storable (xr_saved r)"
    and same: "stored k2 i = stored (xr_store r) i"
    and load: "load_run ex k2 = (Inr l, k1)" and res: "ld_resumable l"
  shows "fst (resume_blueprint ex os g sd' k2) =
    fst (run_blueprint ex os g (splice_schedules (cp_step (ld_checkpoint l)) sd sd') t k)"
proof -
  let ?cx = "node_ctx_of ex os"
  let ?cp = "ld_checkpoint l"
  let ?r0 = "xemit ex (BlueprintStarted (gr_name g) (gr_entry g)) (new_xrun k)"
  let ?go = "\<lambda>sd. run_steps ex ?cx g sd 0 [gr_entry g] (new_state t) ?r0"
  have load': "stored (xr_store r) i = Inr (Some l)"
    using load ex load_stored [of i k2 "Some l"] same
    by (auto simp: load_run_def split: prod.splits sum.splits option.splits)
  then have cp: "?cp \<in> set (xr_saved r)"
    using tracks_run_blueprint [OF ex k run saved] by (simp add: tracks_def held_def)
  have max: "ex_max_steps ex \<noteq> 0"
  proof
    assume "ex_max_steps ex = 0"
    then have "xr_saved r = []"
      using run by (auto simp: run_blueprint_def execute_def run_graph_def cleanup_all_def new_xrun_def)
    with cp show False by simp
  qed
  then have "xr_saved r = xr_saved (snd (?go sd))"
    using run by (auto simp: run_blueprint_def execute_def run_graph_def Let_def cleanup_all_def split: prod.splits)
  moreover have "xr_saved ?r0 = []" by (simp add: new_xrun_def)
  ultimately have c: "continues ex ?cx g sd 0 [gr_entry g] (new_state t) ?cp"
    using run_steps_saved [of ex ?cx g sd 0 "[gr_entry g]" "new_state t" ?r0] cp by auto
  let ?sd = "splice_schedules (cp_step ?cp) sd sd'"
  have label: "cp_blueprint ?cp = blueprint_label ex g" using c by (simp add: continues_def)
  have "fst (resume_blueprint ex os g sd' k2) =
      fst (run_steps ex ?cx g sd' (cp_step ?cp) (cp_frontier ?cp) (cp_state ?cp)
        (xemit ex (BlueprintResumed (gr_name g) (cp_step ?cp)) (new_xrun k1)))"
    using load res label max
    by (simp add: resume_blueprint_def execute_def run_graph_def Let_def split: prod.split)
  also have "\<dots> = fst (run_steps ex ?cx g ?sd (cp_step ?cp) (cp_frontier ?cp) (cp_state ?cp)
        (xemit ex (BlueprintResumed (gr_name g) (cp_step ?cp)) (new_xrun k1)))"
    by (simp add: run_steps_agree [of "cp_step ?cp" sd' ?sd] splice_agree)
  also have "\<dots> = fst (?go ?sd)"
  proof -
    have "\<forall>r1 r2. fst (run_steps ex ?cx g ?sd 0 [gr_entry g] (new_state t) r1) =
        fst (run_steps ex ?cx g ?sd (cp_step ?cp) (cp_frontier ?cp) (cp_state ?cp) r2)"
      using c unfolding continues_def by (blast intro: splice_agree(1))
    from this [rule_format] show ?thesis by (rule sym)
  qed
  also have "\<dots> = fst (run_blueprint ex os g ?sd t k)"
    using max by (simp add: run_blueprint_def execute_def run_graph_def Let_def split: prod.split)
  finally show ?thesis .
qed

lemmas resume_completes_run = resume_completes_from [OF _ _ _ _ _ _ refl]

end

section \<open>Properties\<close>

text \<open>
  Property C26.  Checkpointing is transparent: for every graph, schedule and starting store, a run
  ends with the same state or the same error whether a checkpointer is attached or not, which
  one it is, under which run id and label, and whatever its operations return.
\<close>

theorem checkpointing_transparent:
  "fst (run_blueprint (ex\<lparr>ex_checkpointer := c, ex_run_id := i, ex_blueprint_label := lb\<rparr>) os g sd t k) =
   fst (run_blueprint ex os g sd t k')"
proof -
  let ?ex = "ex\<lparr>ex_checkpointer := c, ex_run_id := i, ex_blueprint_label := lb\<rparr>"
  have cx: "node_ctx_of ?ex os = node_ctx_of ex os" by (simp add: node_ctx_of_def)
  have "fst (run_steps ?ex (node_ctx_of ex os) g sd 0 f s r) = fst (run_steps ex (node_ctx_of ex os) g sd 0 f s r')"
    for f s r r'
    by (rule run_steps_fst) simp_all
  then show ?thesis
    by (simp add: run_blueprint_def execute_def run_graph_def Let_def cx case_prod_unfold)
qed

text \<open>
  Property C1.  Resuming completes the interrupted run: take any run with the SQLite checkpointer
  that started without a stored row, however it ended (cancelled, failed, panicked) and whichever
  store operations failed on the way.  A resume that passes its guards then ends exactly as the
  uninterrupted run whose schedule is the first run's before the loaded snapshot's super-step and
  the resumed run's from that super-step on.
\<close>

theorem resume_completes_interrupted_run:
  assumes "ex_checkpointer ex = Some (sqlite_ops env codec)" "ex_run_id ex = Some i"
    and "table_inv env k" "sqlite_stored env codec k i = Inr None"
    and "run_blueprint ex os g sd t k = (res, r)"
    and "list_all (sqlite_storable env codec) (xr_saved r)"
    and "load_run ex (xr_store r) = (Inr l, k1)" "ld_resumable l"
  shows "fst (resume_blueprint ex os g sd' (xr_store r)) =
    fst (run_blueprint ex os g (splice_schedules (cp_step (ld_checkpoint l)) sd sd') t k)"
  using assms by (rule sqlite.resume_completes_run)

definition sample_outside :: "unit outside" where
  "sample_outside =
     \<lparr>os_default_prompt = '''', os_summary_prompt = '''',
      os_env = \<lparr>en_complete = (\<lambda>q w. (None, w)), en_cancelled = (\<lambda>w. False), en_bpe = None,
               en_jtext = (\<lambda>j. ''''), en_is_match = (\<lambda>re c. False)\<rparr>,
      os_getenv = Map.empty,
      os_run_script = (\<lambda>s w. (Inr \<lparr>sr_code = Some 0, sr_output = ''done''\<rparr>, w)),
      os_human = (\<lambda>p w. (Inl ''no input'', w)),
      os_sandbox = \<lparr>sb_provision = (\<lambda>img es w. (Inr ''box'', w)), sb_exec = (\<lambda>b a wd w. (Inr (0, ''''), w)),
                   sb_endpoint = (\<lambda>b p w. (Inr '''', w))\<rparr>,
      os_ready = \<lparr>rd_connect = (\<lambda>a n w. Inr ()), rd_deadline = (\<lambda>w. 0), rd_cancelled = (\<lambda>n w. False),
                 rd_woken = (\<lambda>n w. False)\<rparr>,
      os_acp = (\<lambda>a p w. (Inl ''no agent'', w))\<rparr>"

definition sample_provider :: provider where
  "sample_provider = \<lparr>pv_name = ''p'', pv_model = ''m'', pv_supports_tools = True, pv_max_tokens = 100,
     pv_context_limit = 1000\<rparr>"

definition sample_executor :: "(unit, store) executor" where
  "sample_executor =
     (new_executor sample_provider Map.empty [])\<lparr>ex_checkpointer := Some (sqlite_ops sample_env sample_codec),
        ex_run_id := Some ''r'', ex_audit := True\<rparr>"

definition sample_graph :: graph where
  "sample_graph = \<lparr>gr_name = ''g'', gr_entry = ''start'',
     gr_nodes = [''start'' \<mapsto> ScriptNode ''start'' ''make''], gr_edges = Map.empty\<rparr>"

definition quiet_schedule :: "bool \<Rightarrow> unit schedule" where
  "quiet_schedule c = \<lparr>sd_world = (\<lambda>k a n. ()), sd_rank = (\<lambda>k a n. 0), sd_panics = (\<lambda>k a n. False),
     sd_registered = (\<lambda>k a n. 0),
     sd_cancelled = (\<lambda>k a. c), sd_woken = (\<lambda>k a. False)\<rparr>"

lemmas sample_run_defs =
  run_blueprint_def execute_def run_graph_def run_steps.simps try_step.simps run_frontier_def
  run_one_def script_run_def merge_outcomes_def updates_of_def merge_one_def finish_def set_run_status_def
  save_checkpoint_def sample_executor_def new_executor_def sample_outside_def sample_graph_def
  quiet_schedule_def node_ctx_of_def xemit_def new_xrun_def cleanup_all_def blueprint_label_def
  load_run_def sqlite_ops_def

lemma sample_interrupted:
  "xr_saved (snd (run_blueprint sample_executor sample_outside sample_graph (quiet_schedule True) ''t'' empty_store))
     = [\<lparr>cp_run_id = ''r'', cp_blueprint = ''g'', cp_step = 0, cp_frontier = [''start''], cp_state = new_state ''t''\<rparr>]"
  by (simp add: sample_run_defs default_max_steps_def map_filter_simps Let_def)

lemma sample_loaded:
  "fst (load_run sample_executor (xr_store (snd (run_blueprint sample_executor sample_outside sample_graph
      (quiet_schedule True) ''t'' empty_store)))) =
   Inr \<lparr>ld_checkpoint = \<lparr>cp_run_id = ''r'', cp_blueprint = ''g'', cp_step = 0, cp_frontier = [''start''],
       cp_state = new_state ''t''\<rparr>, ld_resumable = True\<rparr>"
  by (simp add: sample_run_defs default_max_steps_def map_filter_simps Let_def
      sqlite_save_def sqlite_load_def sqlite_set_status_def upsert_checkpoint_def
      set_checkpoint_status_def get_checkpoint_def read_checkpoint_def store_call_def row_to_record_def
      upsert_row_def loaded_of_def record_to_checkpoint_def is_resumable_def run_state_from_str_def
      sample_env_def sample_codec_def empty_store_def new_state_def)

theorem resume_completes_interrupted_run_witness:
  "fst (resume_blueprint sample_executor sample_outside sample_graph (quiet_schedule False)
      (xr_store (snd (run_blueprint sample_executor sample_outside sample_graph (quiet_schedule True) ''t'' empty_store)))) =
   fst (run_blueprint sample_executor sample_outside sample_graph
      (splice_schedules 0 (quiet_schedule True) (quiet_schedule False)) ''t'' empty_store)"
proof -
  let ?run = "run_blueprint sample_executor sample_outside sample_graph (quiet_schedule True) ''t'' empty_store"
  let ?l = "\<lparr>ld_checkpoint = \<lparr>cp_run_id = ''r'', cp_blueprint = ''g'', cp_step = 0, cp_frontier = [''start''],
       cp_state = new_state ''t''\<rparr>, ld_resumable = True\<rparr>"
  have "table_inv sample_env empty_store" by (rule table_inv_empty) (simp add: sample_env_def)
  moreover have "sqlite_stored sample_env sample_codec empty_store ''r'' = Inr None"
    by (simp add: sqlite_stored_def read_checkpoint_def empty_store_def loaded_of_def)
  moreover have "list_all (sqlite_storable sample_env sample_codec) (xr_saved (snd ?run))"
    unfolding sample_interrupted
    by (simp add: sqlite_storable_def sample_env_def sample_codec_def new_state_def)
  moreover have "load_run sample_executor (xr_store (snd ?run)) =
      (Inr ?l, snd (load_run sample_executor (xr_store (snd ?run))))"
    using sample_loaded by (simp add: prod_eq_iff)
  ultimately show ?thesis
    using resume_completes_interrupted_run [of sample_executor sample_env sample_codec "''r''" empty_store
        sample_outside sample_graph "quiet_schedule True" "''t''" "fst ?run" "snd ?run" ?l
        "snd (load_run sample_executor (xr_store (snd ?run)))" "quiet_schedule False"]
    by (simp add: sample_executor_def)
qed

end
