(* ===== verification/Executor_Safety.thy ===== *)
theory Executor_Safety
  imports Executor_Resume
begin

text \<open>
  Safety of the executor: what a super-step merges, the shape of the audit trail, the bounds on
  super-steps and attempts, the cleanup of sandboxes, and the errors a compiled blueprint can
  end with.
\<close>

section \<open>Rules for the loops\<close>

definition attempted :: "nat \<Rightarrow> nat \<Rightarrow> string list \<Rightarrow> 'k xrun \<Rightarrow> 'k xrun" where
  "attempted step n ids r =
     r\<lparr>xr_provisioned := xr_provisioned r @ ids, xr_created := xr_created r @ ids,
       xr_attempts := xr_attempts r @ [(step, n)]\<rparr>"

lemma attempted_simps [simp, frame_simps]:
  "xr_events (attempted step n ids r) = xr_events r"
  "xr_store (attempted step n ids r) = xr_store r"
  "xr_destroyed (attempted step n ids r) = xr_destroyed r"
  "xr_saved (attempted step n ids r) = xr_saved r"
  "xr_provisioned (attempted step n ids r) = xr_provisioned r @ ids"
  "xr_created (attempted step n ids r) = xr_created r @ ids"
  "xr_attempts (attempted step n ids r) = xr_attempts r @ [(step, n)]"
  by (simp_all add: attempted_def)

lemma try_step_rule:
  assumes step: "\<And>n r res ids. J n r \<Longrightarrow> run_frontier cx g sd step n f s = (res, ids) \<Longrightarrow>
      (case res of
         FrOk s1 rans \<Rightarrow> R (StDone s1 rans n) (attempted step n ids r)
       | FrPanic \<Rightarrow> R StPanicked (attempted step n ids r)
       | FrErr e \<Rightarrow>
           if sd_cancelled sd step n
           then R StCancelled (finish ex CkSuspended (step + 1) RunCancelled (attempted step n ids r))
           else if n < ex_max_retries ex
           then let r2 = xemit ex (SuperStepRetried (step + 1) (n + 1) (show_run_error e)) (attempted step n ids r)
                in if sd_woken sd step (n + 1)
                   then R StCancelled (finish ex CkSuspended (step + 1) RunCancelled r2)
                   else J (Suc n) r2
           else R (StFailed e) (finish ex CkFailed (step + 1) RunError
                  (xemits ex (failed_node_event step e) (attempted step n ids r))))"
    and start: "J n r"
  shows "case try_step ex cx g sd step f s n r of (res, r1) \<Rightarrow> R res r1"
  using start
proof (induction "ex_max_retries ex - n" arbitrary: n r rule: less_induct)
  case less
  obtain res ids where fr: "run_frontier cx g sd step n f s = (res, ids)"
    by (cases "run_frontier cx g sd step n f s")
  note st = step [OF less.prems fr]
  note unfold = try_step.simps [of ex cx g sd step f s n r] fr attempted_def [symmetric]
  show ?case
  proof (cases res)
    case (FrErr e)
    show ?thesis
    proof (cases "sd_cancelled sd step n \<or> \<not> n < ex_max_retries ex \<or> sd_woken sd step (n + 1)")
      case True
      with st FrErr show ?thesis by (auto simp: unfold Let_def split: if_splits)
    next
      case False
      let ?r2 = "xemit ex (SuperStepRetried (step + 1) (n + 1) (show_run_error e)) (attempted step n ids r)"
      have "J (Suc n) ?r2" using st FrErr False by (simp add: Let_def)
      moreover have "ex_max_retries ex - Suc n < ex_max_retries ex - n" using False by (auto intro: diff_less_mono2)
      ultimately have "case try_step ex cx g sd step f s (Suc n) ?r2 of (res, r1) \<Rightarrow> R res r1"
        by (rule less.hyps [rotated])
      with FrErr False show ?thesis by (simp add: unfold Let_def)
    qed
  qed (use st in \<open>simp_all add: unfold Let_def\<close>)
qed

lemma run_steps_rule:
  assumes head: "\<And>step f s r. I step f s r \<Longrightarrow> step < ex_max_steps ex \<Longrightarrow> sort_dedup f \<noteq> [] \<Longrightarrow>
      (case try_step ex cx g sd step (sort_dedup f) s 0 (save_checkpoint ex g step (sort_dedup f) s r) of
         (res, r2) \<Rightarrow>
           (case res of
              StPanicked \<Rightarrow> Q Panicked r2
            | StCancelled \<Rightarrow> Q (OkState s) r2
            | StFailed e \<Rightarrow> Q (ErrRun e) r2
            | StDone s1 rans n \<Rightarrow>
                if sd_cancelled sd step n
                then Q (OkState s1) (finish ex CkSuspended (step + 1) RunCancelled r2)
                else (case route_all ex g s1 step rans [] r2 of (out, r3) \<Rightarrow>
                        (case out of
                           Inl e \<Rightarrow> Q (ErrRun e) (finish ex CkFailed (step + 1) RunError r3)
                         | Inr nx \<Rightarrow> I (Suc step) nx s1 r3))))"
    and ended: "\<And>step f s r. I step f s r \<Longrightarrow> step < ex_max_steps ex \<Longrightarrow> sort_dedup f = [] \<Longrightarrow>
      Q (OkState s) (finish ex CkCompleted step RunDone r)"
    and limit: "\<And>step f s r. I step f s r \<Longrightarrow> ex_max_steps ex \<le> step \<Longrightarrow>
      Q (ErrRun (BlueprintErr (StepLimit (ex_max_steps ex)))) (finish ex CkFailed (ex_max_steps ex) RunStepLimit r)"
    and start: "I step f s r"
  shows "case run_steps ex cx g sd step f s r of (res, r1) \<Rightarrow> Q res r1"
  using start
proof (induction "ex_max_steps ex - step" arbitrary: step f s r rule: less_induct)
  case less
  note unfold = run_steps.simps [of ex cx g sd step f s r]
  show ?case
  proof (cases "step < ex_max_steps ex")
    case False
    with limit [OF less.prems] show ?thesis by (simp add: unfold)
  next
    case True
    show ?thesis
    proof (cases "sort_dedup f = []")
      case True
      with ended [OF less.prems] \<open>step < ex_max_steps ex\<close> show ?thesis
        by (simp add: unfold Let_def del: sort_dedup_Nil_iff)
    next
      case False
      note h = head [OF less.prems True False]
      obtain res r2 where t: "try_step ex cx g sd step (sort_dedup f) s 0
          (save_checkpoint ex g step (sort_dedup f) s r) = (res, r2)"
        by (cases "try_step ex cx g sd step (sort_dedup f) s 0 (save_checkpoint ex g step (sort_dedup f) s r)")
      show ?thesis
      proof (cases "\<exists>s1 rans n nx r3. res = StDone s1 rans n \<and> \<not> sd_cancelled sd step n \<and>
          route_all ex g s1 step rans [] r2 = (Inr nx, r3)")
        case cont: True
        then obtain s1 rans n nx r3 where c: "res = StDone s1 rans n" "\<not> sd_cancelled sd step n"
          "route_all ex g s1 step rans [] r2 = (Inr nx, r3)" by blast
        have "I (Suc step) nx s1 r3" using h t c by simp
        moreover have "ex_max_steps ex - Suc step < ex_max_steps ex - step" using True by simp
        ultimately have "case run_steps ex cx g sd (Suc step) nx s1 r3 of (res, r1) \<Rightarrow> Q res r1"
          by (rule less.hyps [rotated])
        with True False t c show ?thesis by (simp add: unfold Let_def)
      next
        case stop: False
        from True False have "sort_dedup f \<noteq> []" "step < ex_max_steps ex" by simp_all
        with h t stop show ?thesis
          by (auto simp: unfold Let_def split: step_result.splits sum.splits prod.splits)
      qed
    qed
  qed
qed

section \<open>One super-step\<close>

lemma resolve_nodes_Inr:
  "resolve_nodes g f = Inr ps \<longleftrightarrow>
     list_all (\<lambda>n. gr_nodes g n \<noteq> None) f \<and> ps = map (\<lambda>n. (n, the (gr_nodes g n))) f"
  by (induction f arbitrary: ps) (auto simp: and_then_Inr_iff split: option.splits)

lemma resolve_nodes_Inl:
  "resolve_nodes g f = Inl e \<Longrightarrow> \<exists>n \<in> set f. e = UnknownNode n \<and> gr_nodes g n = None"
  by (induction f) (auto simp: and_then_def split: option.splits sum.splits)

lemma run_frontier_error:
  assumes "run_frontier cx g sd step n f s = (FrErr e, ids)"
  shows "(\<exists>m k c. e = NodeErr m k c \<and> map_option nd_kind (gr_nodes g m) = Some k) \<or>
    (\<exists>m \<in> set f. e = BlueprintErr (UnknownNode m) \<and> gr_nodes g m = None)"
proof (cases "resolve_nodes g f")
  case (Inl e0)
  with resolve_nodes_Inl [OF Inl] assms show ?thesis by (auto simp: run_frontier_def)
next
  case (Inr ps)
  let ?ends = "map (run_one cx s (sd_world sd step n)) ps"
  let ?done = "sort_key (\<lambda>e. sd_rank sd step n (ne_name e)) ?ends"
  from Inr assms obtain d where d: "find (\<lambda>e. isl (ne_result e)) ?done = Some d"
    "e = NodeErr (ne_name d) (ne_kind d) (projl (ne_result d))"
    by (auto simp: run_frontier_def Let_def split: if_splits option.splits prod.splits)
  then have "d \<in> set ?ends" by (auto dest: find_Some_mem)
  then obtain p where p: "p \<in> set ps" "d = run_one cx s (sd_world sd step n) p" by auto
  from Inr p(1) have "gr_nodes g (fst p) = Some (snd p)"
    by (auto simp: resolve_nodes_Inr list_all_iff)
  moreover have "ne_name d = fst p" "ne_kind d = nd_kind (snd p)"
    using p(2) by (simp_all add: run_one_def split: prod.split)
  ultimately show ?thesis using d(2) by auto
qed

section \<open>The invariant of a run\<close>

definition step_event :: "audit_event \<Rightarrow> bool" where
  "step_event e \<longleftrightarrow> is_NodeExecuted e \<or> is_SuperStepRetried e"

definition open_log :: "('w, 'k) executor \<Rightarrow> audit_event \<Rightarrow> 'k xrun \<Rightarrow> bool" where
  "open_log ex e0 r \<longleftrightarrow>
     (\<exists>mid. list_all step_event mid \<and> xr_events r = (if ex_audit ex then e0 # mid else []))"

text \<open>The reason a completion records, for each outcome.\<close>

definition reason_fits :: "nat \<Rightarrow> outcome \<Rightarrow> completion_reason \<Rightarrow> bool" where
  "reason_fits max_steps res reason \<longleftrightarrow>
     (case res of
        OkState s \<Rightarrow> reason = RunDone \<or> reason = RunCancelled
      | ErrRun e \<Rightarrow> reason = (if e = BlueprintErr (StepLimit max_steps) then RunStepLimit else RunError)
      | Panicked \<Rightarrow> False)"

definition closed_log :: "('w, 'k) executor \<Rightarrow> audit_event \<Rightarrow> outcome \<Rightarrow> 'k xrun \<Rightarrow> bool" where
  "closed_log ex e0 res r \<longleftrightarrow>
     (if res = Panicked then open_log ex e0 r
      else \<exists>mid n reason. list_all step_event mid \<and> n \<le> ex_max_steps ex \<and>
             reason_fits (ex_max_steps ex) res reason \<and>
             xr_events r = (if ex_audit ex then e0 # mid @ [BlueprintCompleted n reason] else []))"

text \<open>Super-steps and attempts in lexicographic order.\<close>

definition before :: "nat \<times> nat \<Rightarrow> nat \<times> nat \<Rightarrow> bool" where
  "before p q \<longleftrightarrow> fst p < fst q \<or> (fst p = fst q \<and> snd p < snd q)"

definition attempts_below :: "('w, 'k) executor \<Rightarrow> nat \<times> nat \<Rightarrow> 'k xrun \<Rightarrow> bool" where
  "attempts_below ex p r \<longleftrightarrow>
     sorted_wrt before (xr_attempts r) \<and>
     (\<forall>q \<in> set (xr_attempts r). before q p \<and> snd q \<le> ex_max_retries ex \<and> fst q < ex_max_steps ex)"

definition all_tracked :: "'k xrun \<Rightarrow> bool" where
  "all_tracked r \<longleftrightarrow> xr_provisioned r = xr_created r \<and> xr_destroyed r = []"

definition run_inv :: "('w, 'k) executor \<Rightarrow> audit_event \<Rightarrow> nat \<times> nat \<Rightarrow> 'k xrun \<Rightarrow> bool" where
  "run_inv ex e0 p r \<longleftrightarrow> open_log ex e0 r \<and> attempts_below ex p r \<and> all_tracked r"

definition run_end :: "('w, 'k) executor \<Rightarrow> audit_event \<Rightarrow> outcome \<Rightarrow> 'k xrun \<Rightarrow> bool" where
  "run_end ex e0 res r \<longleftrightarrow> closed_log ex e0 res r \<and> attempts_below ex (ex_max_steps ex, 0) r \<and> all_tracked r"

lemma open_log_emit: "open_log ex e0 r \<Longrightarrow> step_event e \<Longrightarrow> open_log ex e0 (xemit ex e r)"
  by (fastforce simp: open_log_def)

lemma open_log_emits: "open_log ex e0 r \<Longrightarrow> list_all step_event es \<Longrightarrow> open_log ex e0 (xemits ex es r)"
  by (fastforce simp: open_log_def)

lemma failed_node_step_event: "list_all step_event (failed_node_event step e)"
  by (cases e) (simp_all add: failed_node_event_def step_event_def)

lemma run_inv_frame:
  assumes "run_inv ex e0 p r" "xr_events r1 = xr_events r" "xr_attempts r1 = xr_attempts r"
    "xr_provisioned r1 = xr_provisioned r" "xr_created r1 = xr_created r" "xr_destroyed r1 = xr_destroyed r"
  shows "run_inv ex e0 p r1"
  using assms by (simp add: run_inv_def open_log_def attempts_below_def all_tracked_def)

lemma run_inv_emit: "run_inv ex e0 p r \<Longrightarrow> step_event e \<Longrightarrow> run_inv ex e0 p (xemit ex e r)"
  by (simp add: run_inv_def open_log_emit attempts_below_def all_tracked_def)

lemma run_inv_emits: "run_inv ex e0 p r \<Longrightarrow> list_all step_event es \<Longrightarrow> run_inv ex e0 p (xemits ex es r)"
  by (simp add: run_inv_def open_log_emits attempts_below_def all_tracked_def)

lemma run_inv_attempted:
  assumes "run_inv ex e0 (k, n) r" "k < ex_max_steps ex" "n \<le> ex_max_retries ex"
  shows "run_inv ex e0 (k, Suc n) (attempted k n ids r)"
  using assms
  by (auto simp: run_inv_def open_log_def attempts_below_def all_tracked_def before_def sorted_wrt_append)

lemma run_inv_mono: "run_inv ex e0 (k, n) r \<Longrightarrow> k < k' \<Longrightarrow> run_inv ex e0 (k', n') r"
  by (auto simp: run_inv_def attempts_below_def before_def)

lemma run_inv_finish:
  assumes "run_inv ex e0 p r" "n \<le> ex_max_steps ex" "reason_fits (ex_max_steps ex) res reason"
  shows "run_end ex e0 res (finish ex st n reason r)"
proof -
  have "\<forall>q \<in> set (xr_attempts r). before q (ex_max_steps ex, 0)"
    using assms(1) by (auto simp: run_inv_def attempts_below_def before_def)
  with assms show ?thesis
    by (auto simp: run_end_def run_inv_def closed_log_def open_log_def attempts_below_def all_tracked_def
        reason_fits_def split: outcome.splits)
qed

lemma run_inv_panic:
  assumes "run_inv ex e0 p r"
  shows "run_end ex e0 Panicked r"
  using assms by (auto simp: run_end_def run_inv_def closed_log_def attempts_below_def before_def)

lemma route_all_inv:
  assumes "run_inv ex e0 p r"
  shows "run_inv ex e0 p (snd (route_all ex g s step rans nx r))"
  using assms
  by (induction ex g s step rans nx r rule: route_all.induct)
    (auto simp: run_inv_emit step_event_def split: sum.split)

lemma route_all_error:
  "fst (route_all ex g s step rans nx r) = Inl e \<Longrightarrow> \<exists>a b. e = RoutingErr a b \<and> a \<in> ra_name ` set rans"
  by (induction ex g s step rans nx r rule: route_all.induct) (auto split: sum.splits)

lemma case_prod_mono: "(case p of (a, b) \<Rightarrow> P a b) \<Longrightarrow> (\<And>a b. P a b \<Longrightarrow> Q a b) \<Longrightarrow> (case p of (a, b) \<Rightarrow> Q a b)"
  by (cases p) simp

lemma run_steps_run_end:
  assumes "run_inv ex e0 (step, 0) r"
  shows "case run_steps ex cx g sd step f s r of (res, r1) \<Rightarrow> run_end ex e0 res r1"
proof (rule run_steps_rule [where I = "\<lambda>step f s r. run_inv ex e0 (step, 0) r"])
  fix step f s r
  assume inv: "run_inv ex e0 (step, 0) r" and step: "step < ex_max_steps ex"
  let ?r = "save_checkpoint ex g step (sort_dedup f) s r"
  let ?R = "\<lambda>res r2. case res of
      StDone s1 rans n \<Rightarrow> run_inv ex e0 (step, Suc n) r2
    | StCancelled \<Rightarrow> run_end ex e0 (OkState s) r2
    | StFailed e \<Rightarrow> run_end ex e0 (ErrRun e) r2
    | StPanicked \<Rightarrow> run_end ex e0 Panicked r2"
  have "case try_step ex cx g sd step (sort_dedup f) s 0 ?r of (res, r2) \<Rightarrow> ?R res r2"
  proof (rule try_step_rule [where J = "\<lambda>n r. run_inv ex e0 (step, n) r \<and> n \<le> ex_max_retries ex"])
    show "run_inv ex e0 (step, 0) ?r \<and> 0 \<le> ex_max_retries ex"
      using run_inv_frame [OF inv, of ?r] by simp
  next
    fix n r res ids
    assume J: "run_inv ex e0 (step, n) r \<and> n \<le> ex_max_retries ex"
      and fr: "run_frontier cx g sd step n (sort_dedup f) s = (res, ids)"
    then have a: "run_inv ex e0 (step, Suc n) (attempted step n ids r)"
      using step by (intro run_inv_attempted) auto
    show "case res of
         FrOk s1 rans \<Rightarrow> ?R (StDone s1 rans n) (attempted step n ids r)
       | FrErr e \<Rightarrow>
           if sd_cancelled sd step n
           then ?R StCancelled (finish ex CkSuspended (step + 1) RunCancelled (attempted step n ids r))
           else if n < ex_max_retries ex
           then let r2 = xemit ex (SuperStepRetried (step + 1) (n + 1) (show_run_error e)) (attempted step n ids r)
                in if sd_woken sd step (n + 1)
                   then ?R StCancelled (finish ex CkSuspended (step + 1) RunCancelled r2)
                   else run_inv ex e0 (step, Suc n) r2 \<and> Suc n \<le> ex_max_retries ex
           else ?R (StFailed e) (finish ex CkFailed (step + 1) RunError
                  (xemits ex (failed_node_event step e) (attempted step n ids r)))
       | FrPanic \<Rightarrow> ?R StPanicked (attempted step n ids r)"
    proof (cases res)
      case (FrErr e)
      have "reason_fits (ex_max_steps ex) (ErrRun e) RunError"
        using run_frontier_error [OF fr [unfolded FrErr]] by (auto simp: reason_fits_def)
      with FrErr a step show ?thesis
        by (auto simp: Let_def reason_fits_def step_event_def
            intro!: run_inv_finish run_inv_emit run_inv_emits failed_node_step_event)
    qed (use a in \<open>auto intro: run_inv_panic\<close>)
  qed
  then show "case try_step ex cx g sd step (sort_dedup f) s 0 ?r of
         (res, r2) \<Rightarrow>
           (case res of
              StPanicked \<Rightarrow> run_end ex e0 Panicked r2
            | StCancelled \<Rightarrow> run_end ex e0 (OkState s) r2
            | StFailed e \<Rightarrow> run_end ex e0 (ErrRun e) r2
            | StDone s1 rans n \<Rightarrow>
                if sd_cancelled sd step n
                then run_end ex e0 (OkState s1) (finish ex CkSuspended (step + 1) RunCancelled r2)
                else (case route_all ex g s1 step rans [] r2 of (out, r3) \<Rightarrow>
                        (case out of
                           Inl e \<Rightarrow> run_end ex e0 (ErrRun e) (finish ex CkFailed (step + 1) RunError r3)
                         | Inr nx \<Rightarrow> run_inv ex e0 (Suc step, 0) r3)))"
  proof (rule case_prod_mono)
    fix res r2
    assume R: "?R res r2"
    show "case res of
              StPanicked \<Rightarrow> run_end ex e0 Panicked r2
            | StCancelled \<Rightarrow> run_end ex e0 (OkState s) r2
            | StFailed e \<Rightarrow> run_end ex e0 (ErrRun e) r2
            | StDone s1 rans n \<Rightarrow>
                if sd_cancelled sd step n
                then run_end ex e0 (OkState s1) (finish ex CkSuspended (step + 1) RunCancelled r2)
                else (case route_all ex g s1 step rans [] r2 of (out, r3) \<Rightarrow>
                        (case out of
                           Inl e \<Rightarrow> run_end ex e0 (ErrRun e) (finish ex CkFailed (step + 1) RunError r3)
                         | Inr nx \<Rightarrow> run_inv ex e0 (Suc step, 0) r3))"
    proof (cases res)
      case (StDone s1 rans n)
      with R have inv: "run_inv ex e0 (step, Suc n) r2" by simp
      obtain out r3 where ro: "route_all ex g s1 step rans [] r2 = (out, r3)"
        by (cases "route_all ex g s1 step rans [] r2")
      then have inv3: "run_inv ex e0 (step, Suc n) r3"
        using route_all_inv [OF inv, of g s1 step rans "[]"] by simp
      have "reason_fits (ex_max_steps ex) (ErrRun e) RunError" if "out = Inl e" for e
        using route_all_error [of ex g s1 step rans "[]" r2 e] ro that by (auto simp: reason_fits_def)
      with inv inv3 ro step StDone show ?thesis
        by (auto simp: reason_fits_def intro!: run_inv_finish run_inv_mono [of ex e0 step "Suc n" r3]
            split: sum.split)
    qed (use R in simp_all)
  qed
next
  fix step f s r
  assume "run_inv ex e0 (step, 0) r" "step < ex_max_steps ex"
  then show "run_end ex e0 (OkState s) (finish ex CkCompleted step RunDone r)"
    by (intro run_inv_finish) (auto simp: reason_fits_def)
next
  fix step f s r
  assume "run_inv ex e0 (step, 0) r"
  then show "run_end ex e0 (ErrRun (BlueprintErr (StepLimit (ex_max_steps ex))))
      (finish ex CkFailed (ex_max_steps ex) RunStepLimit r)"
    by (intro run_inv_finish) (auto simp: reason_fits_def)
qed (rule assms)

lemma before_distinct: "sorted_wrt before qs \<Longrightarrow> distinct qs"
  by (induction qs) (auto simp: before_def)

lemma attempts_count:
  assumes "attempts_below ex p r"
  shows "length (xr_attempts r) \<le> ex_max_steps ex * (ex_max_retries ex + 1)"
proof -
  have "length (xr_attempts r) = card (set (xr_attempts r))"
    using assms before_distinct by (auto simp: attempts_below_def distinct_card)
  also have "\<dots> \<le> card ({..<ex_max_steps ex} \<times> {..ex_max_retries ex})"
    using assms by (intro card_mono) (auto simp: attempts_below_def)
  also have "\<dots> = ex_max_steps ex * (ex_max_retries ex + 1)" by simp
  finally show ?thesis .
qed

lemma run_inv_start: "run_inv ex e0 p (xemit (ex :: ('w, 'k) executor) e0 (new_xrun k))"
  by (auto simp: run_inv_def open_log_def attempts_below_def all_tracked_def new_xrun_def
      intro: exI [of _ "[]"])

text \<open>How a run that gets past its guards starts.\<close>

definition start_event :: "graph \<Rightarrow> run_start \<Rightarrow> audit_event" where
  "start_event g start =
     (case start of Fresh t \<Rightarrow> BlueprintStarted (gr_name g) (gr_entry g)
      | Resume cp \<Rightarrow> BlueprintResumed (gr_name g) (cp_step cp))"

lemma run_graph_end:
  assumes "ex_max_steps ex \<noteq> 0"
  shows "case run_graph ex cx g sd start (new_xrun k) of (res, r) \<Rightarrow> run_end ex (start_event g start) res r"
  using assms run_steps_run_end [OF run_inv_start]
  by (cases start) (simp_all add: run_graph_def start_event_def)

lemma execute_end:
  assumes "ex_max_steps ex \<noteq> 0"
  obtains res r where "execute ex os g sd start k = (res, cleanup_all r)" "run_end ex (start_event g start) res r"
proof -
  obtain res r where r: "run_graph ex (node_ctx_of ex os) g sd start (new_xrun k) = (res, r)"
    by (cases "run_graph ex (node_ctx_of ex os) g sd start (new_xrun k)")
  with run_graph_end [OF assms, where cx = "node_ctx_of ex os" and g = g and sd = sd and start = start and k = k]
  show thesis
    by (intro that [of res r]) (simp_all add: execute_def)
qed

lemma execute_no_steps:
  "ex_max_steps ex = 0 \<Longrightarrow> execute ex os g sd start k =
     (ErrRun (BlueprintErr (Invalid ''max_steps must be greater than 0'')), cleanup_all (new_xrun k))"
  by (simp add: execute_def run_graph_def)

section \<open>Merging a super-step\<close>

text \<open>What a node that ended well emitted.\<close>

record emitted =
  em_name :: string
  em_kind :: node_kind
  em_text :: string
  em_status :: status

definition em_outcome :: "emitted \<Rightarrow> string \<times> node_kind \<times> update" where
  "em_outcome e = (em_name e, em_kind e, from_node (em_name e) (em_text e) (em_status e))"

definition em_ran :: "emitted \<Rightarrow> ran_node" where
  "em_ran e = \<lparr>ra_name = em_name e, ra_kind = em_kind e,
     ra_status = (case em_status e of Ok \<Rightarrow> NodeOk | Failed \<Rightarrow> NodeFailed), ra_output = em_text e\<rparr>"

lemma merge_emitted:
  "case foldl merge_one (s, rans, any_failed, any_status) (map em_outcome es) of (s1, rans1, af, as) \<Rightarrow>
     task s1 = task s \<and>
     messages s1 = messages s @ map (\<lambda>e. \<lparr>te_node = em_name e, te_text = em_text e\<rparr>) es \<and>
     vars s1 = vars s ++ map_of (rev (map (\<lambda>e. (em_name e, em_text e)) es)) \<and>
     rans1 = rans @ map em_ran es \<and>
     af = (any_failed \<or> list_ex (\<lambda>e. em_status e = Failed) es) \<and>
     as = (any_status \<or> es \<noteq> [])"
proof (induction es arbitrary: s rans any_failed any_status)
  case Nil
  then show ?case by simp
next
  case (Cons e es)
  let ?s = "apply_update s (from_node (em_name e) (em_text e) (em_status e))"
  have one: "merge_one (s, rans, any_failed, any_status) (em_outcome e) =
      (?s, rans @ [em_ran e], any_failed \<or> em_status e = Failed, True)"
    by (cases "em_status e") (simp_all add: merge_one_def em_outcome_def em_ran_def)
  have parts: "task ?s = task s" "vars ?s = (vars s)(em_name e \<mapsto> em_text e)"
    "messages ?s = messages s @ [\<lparr>te_node = em_name e, te_text = em_text e\<rparr>]"
    by (simp_all add: fun_eq_iff)
  obtain s1 rans1 af as where fold: "foldl merge_one (?s, rans @ [em_ran e], any_failed \<or> em_status e = Failed, True)
      (map em_outcome es) = (s1, rans1, af, as)"
    by (metis prod_cases4)
  show ?case
    using Cons.IH [of ?s "rans @ [em_ran e]" "any_failed \<or> em_status e = Failed" True]
    by (simp only: fold parts list.map foldl_Cons one prod.case) (auto simp: fold)
qed

lemma merge_outcomes_emitted:
  assumes "merge_outcomes s (map em_outcome es) = (s1, rans)"
  shows "task s1 = task s" "messages s1 = messages s @ map (\<lambda>e. \<lparr>te_node = em_name e, te_text = em_text e\<rparr>) es"
    "vars s1 = vars s ++ map_of (rev (map (\<lambda>e. (em_name e, em_text e)) es))" "rans = map em_ran es"
    "es \<noteq> [] \<Longrightarrow> status s1 = Some (if list_ex (\<lambda>e. em_status e = Failed) es then Failed else Ok)"
  using assms merge_emitted [where s = s and rans = "[]" and any_failed = False and any_status = False and es = es]
  by (auto simp: merge_outcomes_def split: prod.splits if_splits)

definition ends_well :: "node_end \<Rightarrow> emitted \<Rightarrow> bool" where
  "ends_well d e \<longleftrightarrow> ne_name d = em_name e \<and> ne_kind d = em_kind e \<and>
     ne_result d = Inr (from_node (em_name e) (em_text e) (em_status e))"

lemma run_one_ends:
  assumes "nd_name (snd p) = fst p" "\<not> isl (ne_result (run_one cx s world p))"
  shows "\<exists>e. ends_well (run_one cx s world p) e \<and> em_name e = fst p \<and> em_kind e = nd_kind (snd p)"
proof -
  obtain res w ids where n: "node_run cx (snd p) s (world (fst p)) = (res, w, ids)"
    by (cases "node_run cx (snd p) s (world (fst p))")
  with assms(2) obtain u where u: "res = Inr u" by (cases res) (auto simp: run_one_def)
  with node_run_shape [where cx = cx and nd = "snd p" and s = s and w = "world (fst p)"] n assms(1)
  obtain body st where "u = from_node (fst p) body st" by auto
  with n u show ?thesis
    by (intro exI [of _ "\<lparr>em_name = fst p, em_kind = nd_kind (snd p), em_text = body, em_status = st\<rparr>"])
      (simp add: ends_well_def run_one_def)
qed

lemma updates_of_ends:
  "list_all2 ends_well ds es \<Longrightarrow> updates_of ds = map em_outcome es"
  by (induction rule: list_all2_induct)
    (simp_all add: updates_of_def map_filter_simps ends_well_def em_outcome_def)

lemma find_None_sorted: "find P (sort_key k xs) = None \<longleftrightarrow> list_all (\<lambda>x. \<not> P x) xs"
  by (auto simp: find_None_iff list_all_iff)

lemma run_frontier_ok:
  assumes ok: "run_frontier cx g sd step n f s = (FrOk s1 rans, ids)"
    and named: "\<And>n nd. gr_nodes g n = Some nd \<Longrightarrow> nd_name nd = n"
  shows "\<exists>es. map em_name es = f \<and> list_all (\<lambda>e. map_option nd_kind (gr_nodes g (em_name e)) = Some (em_kind e)) es \<and>
    merge_outcomes s (map em_outcome es) = (s1, rans)"
proof -
  from ok obtain ps where ps: "resolve_nodes g f = Inr ps"
    by (auto simp: run_frontier_def split: sum.splits)
  let ?ends = "map (run_one cx s (sd_world sd step n)) ps"
  from ok ps have wf: "list_all (\<lambda>d. \<not> isl (ne_result d)) ?ends"
    and merged: "merge_outcomes s (updates_of ?ends) = (s1, rans)"
    by (auto simp: run_frontier_def Let_def find_None_sorted split: if_splits option.splits prod.splits)
  have f: "map fst ps = f" "list_all (\<lambda>p. gr_nodes g (fst p) = Some (snd p)) ps"
    using ps by (auto simp: resolve_nodes_Inr list_all_iff comp_def intro: map_idI)
  have "\<forall>p \<in> set ps. \<exists>e. ends_well (run_one cx s (sd_world sd step n) p) e \<and>
      em_name e = fst p \<and> em_kind e = nd_kind (snd p)"
    using run_one_ends named f(2) wf by (fastforce simp: list_all_iff)
  then obtain e where e: "\<And>p. p \<in> set ps \<Longrightarrow> ends_well (run_one cx s (sd_world sd step n) p) (e p) \<and>
      em_name (e p) = fst p \<and> em_kind (e p) = nd_kind (snd p)"
    by metis
  have "list_all2 ends_well ?ends (map e ps)"
    using e by (simp add: list_all2_map1 list_all2_map2 list.rel_refl_strong)
  then have "merge_outcomes s (map em_outcome (map e ps)) = (s1, rans)"
    using merged updates_of_ends by metis
  moreover have "map em_name (map e ps) = f" using e f(1) by (auto simp: comp_def)
  moreover have "list_all (\<lambda>e. map_option nd_kind (gr_nodes g (em_name e)) = Some (em_kind e)) (map e ps)"
    using e f(2) by (auto simp: list_all_iff)
  ultimately show ?thesis by blast
qed


section \<open>Runs of a compiled blueprint\<close>

definition frontier_known :: "graph \<Rightarrow> string list \<Rightarrow> bool" where
  "frontier_known g f \<longleftrightarrow> list_all (\<lambda>n. gr_nodes g n \<noteq> None) f"

text \<open>What a run whose frontiers are known can fail with, once it is past its guards.\<close>

definition expected_error :: "('w, 'k) executor \<Rightarrow> graph \<Rightarrow> outcome \<Rightarrow> bool" where
  "expected_error ex g res \<longleftrightarrow>
     (case res of
        ErrRun (NodeErr n k c) \<Rightarrow> map_option nd_kind (gr_nodes g n) = Some k
      | ErrRun e \<Rightarrow> e = BlueprintErr (StepLimit (ex_max_steps ex))
      | _ \<Rightarrow> True)"

lemma route_all_known:
  assumes "\<forall>n s. \<exists>ts. route g n s = Inr ts" and "frontier_known g nx"
  shows "\<exists>f. fst (route_all ex g s step rans nx r) = Inr f \<and> frontier_known g f"
  using assms
proof (induction ex g s step rans nx r rule: route_all.induct)
  case (2 ex g s step a rans nx r)
  then obtain ts where ts: "route g (ra_name a) s = Inr ts" by blast
  then have "list_all (known_target (gr_nodes g)) ts" using route_Inr by blast
  with 2(3) have "frontier_known g (nx @ filter (\<lambda>t. t \<noteq> END) ts)"
    by (auto simp: frontier_known_def list_all_iff known_target_def)
  with 2(1) [OF ts 2(2)] ts show ?case by simp
qed simp

lemma run_steps_expected_error:
  assumes "\<forall>n s. \<exists>ts. route g n s = Inr ts" and "frontier_known g f"
  shows "expected_error ex g (fst (run_steps ex cx g sd step f s r))"
proof -
  have "case run_steps ex cx g sd step f s r of (res, r1) \<Rightarrow> expected_error ex g res"
  proof (rule run_steps_rule [where I = "\<lambda>step f s r. frontier_known g f"])
    fix step f s r
    assume known: "frontier_known g f"
    let ?f = "sort_dedup f"
    have kf: "frontier_known g ?f" using known by (simp add: frontier_known_def list_all_iff)
    let ?R = "\<lambda>res r2. case res of StFailed e \<Rightarrow> expected_error ex g (ErrRun e) | _ \<Rightarrow> True"
    have "case try_step ex cx g sd step ?f s 0 (save_checkpoint ex g step ?f s r) of (res, r2) \<Rightarrow> ?R res r2"
    proof (rule try_step_rule [where J = "\<lambda>n r. True"])
      fix n r res ids
      assume fr: "run_frontier cx g sd step n ?f s = (res, ids)"
      have "expected_error ex g (ErrRun e)" if "res = FrErr e" for e
        using run_frontier_error [OF fr [unfolded that]] kf
        by (auto simp: expected_error_def frontier_known_def list_all_iff)
      then show "case res of
         FrOk s1 rans \<Rightarrow> ?R (StDone s1 rans n) (attempted step n ids r)
       | FrErr e \<Rightarrow>
           if sd_cancelled sd step n
           then ?R StCancelled (finish ex CkSuspended (step + 1) RunCancelled (attempted step n ids r))
           else if n < ex_max_retries ex
           then let r2 = xemit ex (SuperStepRetried (step + 1) (n + 1) (show_run_error e)) (attempted step n ids r)
                in if sd_woken sd step (n + 1)
                   then ?R StCancelled (finish ex CkSuspended (step + 1) RunCancelled r2)
                   else True
           else ?R (StFailed e) (finish ex CkFailed (step + 1) RunError
                  (xemits ex (failed_node_event step e) (attempted step n ids r)))
       | FrPanic \<Rightarrow> ?R StPanicked (attempted step n ids r)"
        by (auto simp: Let_def split: frontier_result.split)
    qed simp
    then show "case try_step ex cx g sd step ?f s 0 (save_checkpoint ex g step ?f s r) of (res, r2) \<Rightarrow>
           (case res of
              StPanicked \<Rightarrow> expected_error ex g Panicked
            | StCancelled \<Rightarrow> expected_error ex g (OkState s)
            | StFailed e \<Rightarrow> expected_error ex g (ErrRun e)
            | StDone s1 rans n \<Rightarrow>
                if sd_cancelled sd step n then expected_error ex g (OkState s1)
                else (case route_all ex g s1 step rans [] r2 of (out, r3) \<Rightarrow>
                        (case out of Inl e \<Rightarrow> expected_error ex g (ErrRun e)
                         | Inr nx \<Rightarrow> frontier_known g nx)))"
    proof (rule case_prod_mono)
      fix res r2
      assume R: "?R res r2"
      show "case res of
              StPanicked \<Rightarrow> expected_error ex g Panicked
            | StCancelled \<Rightarrow> expected_error ex g (OkState s)
            | StFailed e \<Rightarrow> expected_error ex g (ErrRun e)
            | StDone s1 rans n \<Rightarrow>
                if sd_cancelled sd step n then expected_error ex g (OkState s1)
                else (case route_all ex g s1 step rans [] r2 of (out, r3) \<Rightarrow>
                        (case out of Inl e \<Rightarrow> expected_error ex g (ErrRun e)
                         | Inr nx \<Rightarrow> frontier_known g nx))"
      proof (cases res)
        case (StDone s1 rans n)
        with route_all_known [OF assms(1), of "[]" ex s1 step rans r2] show ?thesis
          by (auto simp: expected_error_def frontier_known_def split: prod.split)
      qed (use R in \<open>simp_all add: expected_error_def\<close>)
    qed
  qed (simp_all add: expected_error_def assms(2))
  then show ?thesis by (simp add: case_prod_unfold)
qed

section \<open>Properties\<close>


text \<open>
  Property C24.  Termination bounds: the super-step attempts of a run are strictly increasing in
  (super-step, attempt), so no attempt is repeated; every super-step is below the limit and
  every attempt within the retries, so there are at most limit times (retries + 1) of them.
\<close>

theorem attempts_bounded:
  "case execute ex os g sd start k of (res, r) \<Rightarrow>
     sorted_wrt before (xr_attempts r) \<and>
     list_all (\<lambda>(step, n). step < ex_max_steps ex \<and> n \<le> ex_max_retries ex) (xr_attempts r) \<and>
     length (xr_attempts r) \<le> ex_max_steps ex * (ex_max_retries ex + 1)"
proof (cases "ex_max_steps ex = 0")
  case True
  then show ?thesis by (simp add: execute_no_steps cleanup_all_def new_xrun_def)
next
  case False
  obtain res r where r: "execute ex os g sd start k = (res, cleanup_all r)" "run_end ex (start_event g start) res r"
    by (rule execute_end [OF False, where os = os and g = g and sd = sd and start = start and k = k])
  then have "attempts_below ex (ex_max_steps ex, 0) r" by (simp add: run_end_def)
  with attempts_count [OF this] r(1) show ?thesis
    by (auto simp: attempts_below_def cleanup_all_def list_all_iff)
qed



text \<open>
  Property C9.  One successful super-step: every node of the frontier ran exactly once; their
  texts are appended to the transcript in frontier order, whatever order they finished in; each
  name keeps the last text written under it; the task is untouched; and the status is failed as
  soon as one node failed.
\<close>

theorem super_step_merges:
  assumes "run_frontier cx g sd step n f s = (FrOk s1 rans, ids)"
    and "\<And>m nd. gr_nodes g m = Some nd \<Longrightarrow> nd_name nd = m"
  shows "map ra_name rans = f \<and> task s1 = task s \<and>
    messages s1 = messages s @ map (\<lambda>a. \<lparr>te_node = ra_name a, te_text = ra_output a\<rparr>) rans \<and>
    vars s1 = vars s ++ map_of (rev (map (\<lambda>a. (ra_name a, ra_output a)) rans)) \<and>
    status s1 = (if f = [] then status s
                 else Some (if list_ex (\<lambda>a. ra_status a = NodeFailed) rans then Failed else Ok))"
proof -
  obtain es where es: "map em_name es = f" "merge_outcomes s (map em_outcome es) = (s1, rans)"
    using run_frontier_ok [OF assms] by blast
  note m = merge_outcomes_emitted [OF es(2)]
  have failed: "ra_status (em_ran e) = NodeFailed \<longleftrightarrow> em_status e = Failed" for e
    by (cases "em_status e") (simp_all add: em_ran_def)
  have named: "ra_name (em_ran e) = em_name e" "ra_output (em_ran e) = em_text e" for e
    by (simp_all add: em_ran_def)
  show ?thesis
  proof (cases es)
    case Nil
    with es m show ?thesis by (simp add: merge_outcomes_def)
  next
    case Cons
    with m(1-4) m(5) es(1) show ?thesis
      by (auto simp: failed named comp_def list_ex_iff)
  qed
qed

theorem super_step_merges_witness:
  "vars (let s = new_state ''t'' in
     case fst (run_frontier (node_ctx_of sample_executor sample_outside) sample_graph (quiet_schedule False) 0 0
       [''start''] s) of FrOk s1 rans \<Rightarrow> s1 | _ \<Rightarrow> s) = [''start'' \<mapsto> ''done'']"
proof -
  let ?run = "run_frontier (node_ctx_of sample_executor sample_outside) sample_graph (quiet_schedule False) 0 0
       [''start''] (new_state ''t'')"
  obtain s1 rans ids where r: "?run = (FrOk s1 rans, ids)" "map ra_output rans = [''done'']"
    by (simp add: sample_run_defs map_filter_simps Let_def)
  have named: "nd_name nd = m" if "gr_nodes sample_graph m = Some nd" for m nd
    using that by (auto simp: sample_graph_def split: if_splits)
  from super_step_merges [OF r(1) named] r show ?thesis
    by (auto simp: map_eq_Cons_conv new_state_def)
qed

text \<open>
  Property C25.  What a run of a compiled definition can end with: the final state, a panic, the
  hard error of one of the defined nodes under its own kind, the step limit, or, with a step
  budget of zero, the configuration error; it never routes to an unknown node.
\<close>

theorem compiled_run_errors:
  assumes "into_graph def = Inr g"
  shows "case fst (run_blueprint ex os g sd t k) of
      ErrRun (NodeErr n kind cause) \<Rightarrow>
        map_option (\<lambda>d. nd_kind (def_node n d)) (map_of (bd_nodes def) n) = Some kind
    | ErrRun e \<Rightarrow> e = BlueprintErr (if ex_max_steps ex = 0 then Invalid ''max_steps must be greater than 0''
                                  else StepLimit (ex_max_steps ex))
    | _ \<Rightarrow> True"
proof (cases "ex_max_steps ex = 0")
  case True
  then show ?thesis by (simp add: run_blueprint_def execute_no_steps)
next
  case False
  have total: "\<forall>n s. \<exists>ts. route g n s = Inr ts" using into_graph_routes [OF assms] by blast
  have nodes: "gr_nodes g = (\<lambda>k. map_option (def_node k) (map_of (bd_nodes def) k))"
    and entry: "gr_nodes g (gr_entry g) \<noteq> None"
    using into_graph_Inr(3,5) [OF assms] by blast+
  have "expected_error ex g (fst (run_steps ex (node_ctx_of ex os) g sd 0 [gr_entry g] (new_state t) r))" for r
    by (rule run_steps_expected_error [OF total]) (simp only: frontier_known_def list.pred_inject entry not_False_eq_True simp_thms)
  then have "expected_error ex g (fst (run_blueprint ex os g sd t k))"
    using False by (simp add: run_blueprint_def execute_def run_graph_def case_prod_unfold Let_def)
  with False show ?thesis
    by (auto simp: expected_error_def nodes option.map_comp comp_def split: outcome.splits run_error.splits)
qed

theorem compiled_run_errors_witness:
  "case into_graph sample_def of
     Inr g \<Rightarrow> (case fst (run_blueprint sample_executor sample_outside g (quiet_schedule False) ''t'' empty_store) of
                ErrRun (RoutingErr n e) \<Rightarrow> False | _ \<Rightarrow> True)
   | Inl e \<Rightarrow> False"
proof -
  from sample_compiles obtain g where g: "into_graph sample_def = Inr g" by blast
  from compiled_run_errors [OF g, of sample_executor sample_outside "quiet_schedule False" "''t''" empty_store]
  show ?thesis by (auto simp: g split: outcome.splits run_error.splits)
qed

end
