(* ===== verification/Executor_Order.thy ===== *)
theory Executor_Order
  imports Executor_Safety
begin

text \<open>
  Determinism of the executor: two schedules that differ only in the order in which concurrent
  nodes finish lead to the same run, up to which of several node errors is reported.
\<close>

section \<open>Outcomes up to the reported node error\<close>

fun blur_error :: "run_error \<Rightarrow> run_error" where
  "blur_error (NodeErr n k c) = NodeErr '''' KindAgent ''''"
| "blur_error e = e"

fun blur_outcome :: "outcome \<Rightarrow> outcome" where
  "blur_outcome (ErrRun e) = ErrRun (blur_error e)"
| "blur_outcome res = res"

fun blur_frontier :: "frontier_result \<Rightarrow> frontier_result" where
  "blur_frontier (FrErr e) = FrErr (blur_error e)"
| "blur_frontier res = res"

fun blur_step :: "step_result \<Rightarrow> step_result" where
  "blur_step (StFailed e) = StFailed (blur_error e)"
| "blur_step res = res"

lemma blur_frontier_cases:
  assumes "blur_frontier a = blur_frontier b"
  obtains s rans where "a = FrOk s rans" "b = FrOk s rans"
  | "a = FrPanic" "b = FrPanic"
  | e e' where "a = FrErr e" "b = FrErr e'" "blur_error e = blur_error e'"
  using assms by (cases a; cases b) auto

lemma blur_step_cases:
  assumes "blur_step a = blur_step b"
  obtains s rans n where "a = StDone s rans n" "b = StDone s rans n"
  | "a = StPanicked" "b = StPanicked"
  | "a = StCancelled" "b = StCancelled"
  | e e' where "a = StFailed e" "b = StFailed e'" "blur_error e = blur_error e'"
  using assms by (cases a; cases b) auto

text \<open>What two such runs leave behind: the store, the attempts and the snapshots.\<close>

definition same_record :: "'k xrun \<Rightarrow> 'k xrun \<Rightarrow> bool" where
  "same_record r r' \<longleftrightarrow> xr_store r = xr_store r' \<and> xr_attempts r = xr_attempts r' \<and> xr_saved r = xr_saved r'"

lemma same_record_refl: "same_record r r"
  by (simp add: same_record_def)

lemma set_run_status_store:
  "xr_store r = xr_store r' \<Longrightarrow> xr_store (set_run_status ex st r) = xr_store (set_run_status ex st r')"
  by (simp add: set_run_status_def split: option.split)

lemma same_record_finish [intro]:
  "same_record r r' \<Longrightarrow> same_record (finish ex st n reason r) (finish ex st n reason' r')"
  by (simp add: same_record_def set_run_status_store [of r r'])

lemma same_record_xemit [intro]: "same_record r r' \<Longrightarrow> same_record (xemit ex e r) (xemit ex e' r')"
  by (simp add: same_record_def)

lemma same_record_xemits [intro]: "same_record r r' \<Longrightarrow> same_record (xemits ex es r) (xemits ex es' r')"
  by (simp add: same_record_def)

lemma same_record_attempted [intro]:
  "same_record r r' \<Longrightarrow> same_record (attempted step n ids r) (attempted step n ids' r')"
  by (simp add: same_record_def)

lemma same_record_save [intro]:
  "same_record r r' \<Longrightarrow> same_record (save_checkpoint ex g step f s r) (save_checkpoint ex g step f s r')"
  by (simp add: same_record_def save_checkpoint_def Let_def split: option.split)

lemma same_record_route [intro]:
  "same_record r r' \<Longrightarrow>
     same_record (snd (route_all ex g s step rans nx r)) (snd (route_all ex g s step rans nx r'))"
  using route_all_frame [of ex g s step rans nx] by (simp add: same_record_def)

section \<open>The order inside a super-step\<close>

lemma find_sort_None: "find P (sort_key k xs) = None \<longleftrightarrow> find P (sort_key k' xs) = None"
  by (simp add: find_None_sorted)

lemma run_frontier_rank:
  "blur_frontier (fst (run_frontier cx g sd step n f s)) =
   blur_frontier (fst (run_frontier cx g (sd\<lparr>sd_rank := rk\<rparr>) step n f s))"
proof (cases "resolve_nodes g f")
  case (Inl e)
  then show ?thesis by (simp add: run_frontier_def)
next
  case (Inr ps)
  let ?ends = "map (run_one cx s (sd_world sd step n)) ps"
  let ?by = "\<lambda>rank. sort_key (\<lambda>e. rank step n (ne_name e)) ?ends"
  let ?panics = "\<lambda>e. sd_panics sd step n (ne_name e)"
  let ?bad = "\<lambda>e. isl (ne_result e)"
  have panic: "list_ex ?panics (?by (sd_rank sd)) \<longleftrightarrow> list_ex ?panics (?by rk)"
    by (simp add: list_ex_iff)
  have err: "find ?bad (?by (sd_rank sd)) = None \<longleftrightarrow> find ?bad (?by rk) = None"
    by (rule find_sort_None)
  show ?thesis
    using panic err Inr
    by (cases "find ?bad (?by (sd_rank sd))"; cases "find ?bad (?by rk)")
      (simp_all add: run_frontier_def Let_def split: prod.split)
qed

lemma try_step_rank:
  assumes "same_record r r'"
  shows "blur_step (fst (try_step ex cx g sd step f s n r)) =
      blur_step (fst (try_step ex cx g (sd\<lparr>sd_rank := rk\<rparr>) step f s n r')) \<and>
    same_record (snd (try_step ex cx g sd step f s n r))
      (snd (try_step ex cx g (sd\<lparr>sd_rank := rk\<rparr>) step f s n r'))"
  using assms
proof (induction "ex_max_retries ex - n" arbitrary: n r r' rule: less_induct)
  case less
  let ?sd = "sd\<lparr>sd_rank := rk\<rparr>"
  obtain res ids where fr: "run_frontier cx g sd step n f s = (res, ids)"
    by (cases "run_frontier cx g sd step n f s")
  obtain res' ids' where fr': "run_frontier cx g ?sd step n f s = (res', ids')"
    by (cases "run_frontier cx g ?sd step n f s")
  note unfold = try_step.simps [of ex cx g sd step f s n r] try_step.simps [of ex cx g ?sd step f s n r']
    fr fr' attempted_def [symmetric]
  have rec: "same_record (attempted step n ids r) (attempted step n ids' r')"
    using less.prems by (rule same_record_attempted)
  have "blur_frontier res = blur_frontier res'"
    using run_frontier_rank [of cx g sd step n f s rk] fr fr' by simp
  then show ?case
  proof (cases rule: blur_frontier_cases)
    case (3 e e')
    let ?r = "xemit ex (SuperStepRetried (step + 1) (n + 1) (show_run_error e)) (attempted step n ids r)"
    let ?r' = "xemit ex (SuperStepRetried (step + 1) (n + 1) (show_run_error e')) (attempted step n ids' r')"
    have rec2: "same_record ?r ?r'" using rec by (rule same_record_xemit)
    show ?thesis
    proof (cases "sd_cancelled sd step n \<or> \<not> n < ex_max_retries ex \<or> sd_woken sd step (n + 1)")
      case True
      with 3 rec rec2 show ?thesis by (auto simp: unfold Let_def)
    next
      case False
      then have "ex_max_retries ex - Suc n < ex_max_retries ex - n" by (auto intro: diff_less_mono2)
      from less.hyps [OF this rec2] False 3 show ?thesis by (simp add: unfold Let_def)
    qed
  qed (use rec in \<open>simp_all add: unfold Let_def\<close>)
qed

section \<open>The order in a whole run\<close>

lemma run_steps_rank:
  assumes "same_record r r'"
  shows "blur_outcome (fst (run_steps ex cx g sd step f s r)) =
      blur_outcome (fst (run_steps ex cx g (sd\<lparr>sd_rank := rk\<rparr>) step f s r')) \<and>
    same_record (snd (run_steps ex cx g sd step f s r)) (snd (run_steps ex cx g (sd\<lparr>sd_rank := rk\<rparr>) step f s r'))"
  using assms
proof (induction "ex_max_steps ex - step" arbitrary: step f s r r' rule: less_induct)
  case less
  let ?sd = "sd\<lparr>sd_rank := rk\<rparr>"
  let ?f = "sort_dedup f"
  note unfold = run_steps.simps [of ex cx g sd step f s r] run_steps.simps [of ex cx g ?sd step f s r']
  show ?case
  proof (cases "step < ex_max_steps ex \<and> ?f \<noteq> []")
    case False
    with less.prems show ?thesis by (auto simp: unfold Let_def)
  next
    case True
    let ?r = "save_checkpoint ex g step ?f s r"
    let ?r' = "save_checkpoint ex g step ?f s r'"
    obtain res r2 where t: "try_step ex cx g sd step ?f s 0 ?r = (res, r2)"
      by (cases "try_step ex cx g sd step ?f s 0 ?r")
    obtain res' r2' where t': "try_step ex cx g ?sd step ?f s 0 ?r' = (res', r2')"
      by (cases "try_step ex cx g ?sd step ?f s 0 ?r'")
    have "blur_step res = blur_step res' \<and> same_record r2 r2'"
      using try_step_rank [of ?r ?r' ex cx g sd step ?f s 0 rk] less.prems t t' by auto
    then have eq: "blur_step res = blur_step res'" and rec: "same_record r2 r2'" by simp_all
    from eq show ?thesis
    proof (cases rule: blur_step_cases)
      case (1 s1 rans n)
      obtain out r3 where ro: "route_all ex g s1 step rans [] r2 = (out, r3)"
        by (cases "route_all ex g s1 step rans [] r2")
      obtain r3' where ro': "route_all ex g s1 step rans [] r2' = (out, r3')"
        using route_all_fst [of ex g s1 step rans "[]" r2 ex r2'] ro by (metis fst_conv prod.collapse)
      have rec3: "same_record r3 r3'"
        using same_record_route [OF rec, of ex g s1 step rans "[]"] ro ro' by simp
      have "ex_max_steps ex - Suc step < ex_max_steps ex - step" using True by (intro diff_less_mono2) auto
      note IH = less.hyps [OF this rec3]
      show ?thesis
        using True t t' 1 ro ro' rec rec3 IH by (cases out) (auto simp: unfold Let_def)
    qed (use True t t' rec in \<open>simp_all add: unfold Let_def\<close>)
  qed
qed

section \<open>Properties\<close>

text \<open>
  Property C8.  Concurrency does not show: for one behaviour of the nodes, every order in which
  the nodes of the super-steps finish gives the same final state or panic, the same kind of
  error (only which of several failing nodes is named may differ), the same attempts, the same
  snapshots and the same checkpoint store.
\<close>

theorem completion_order_irrelevant:
  "case (run_blueprint ex os g sd t k, run_blueprint ex os g (sd\<lparr>sd_rank := rk\<rparr>) t k) of
     ((res, r), (res', r')) \<Rightarrow>
       blur_outcome res = blur_outcome res' \<and>
       xr_attempts r = xr_attempts r' \<and> xr_saved r = xr_saved r' \<and> xr_store r = xr_store r'"
proof -
  let ?start = "xemit ex (BlueprintStarted (gr_name g) (gr_entry g)) (new_xrun k)"
  from run_steps_rank [OF same_record_refl, of ex "node_ctx_of ex os" g sd 0 "[gr_entry g]" "new_state t" ?start rk]
  show ?thesis
    by (auto simp: run_blueprint_def execute_def run_graph_def cleanup_all_def same_record_def Let_def
        split: prod.split)
qed


section \<open>The step limit counts one super-step too many\<close>

text \<open>
  The one node of this graph leads to the end and the limit is one super-step, yet the run is
  reported as out of steps, after the node has done its work: the loop looks for the empty
  frontier only at the head of a further super-step.
\<close>

lemma step_limit_after_last_step:
  "fst (run_blueprint (ex_with_max_steps (new_executor sample_provider Map.empty []) 1) sample_outside
     sample_graph (quiet_schedule False) ''t'' ()) = ErrRun (BlueprintErr (StepLimit 1))"
  "fst (run_blueprint (ex_with_max_steps (new_executor sample_provider Map.empty []) 2) sample_outside
     sample_graph (quiet_schedule False) ''t'' ()) =
   OkState \<lparr>task = ''t'', messages = [\<lparr>te_node = ''start'', te_text = ''done''\<rparr>], status = Some Ok,
            vars = [''start'' \<mapsto> ''done'']\<rparr>"
  by (simp_all add: sample_run_defs ex_with_max_steps_def map_filter_simps Let_def route_def route_targets_def
      from_node_def apply_update_def map_extend_def new_state_def)

end
