(* ===== verification/Utf8.thy ===== *)
theory Utf8
  imports Prelude
begin

text \<open>
  UTF-8 as the standard library reads it: which byte sequences a \<open>str\<close> may hold
  (\<open>valid_utf8\<close>) and \<open>String::from_utf8_lossy\<close>, which replaces every maximal ill-formed piece
  by U+FFFD.  A sequence is its first byte and the ranges the following bytes must lie in.
\<close>

section \<open>Sequences\<close>

definition byte :: "char \<Rightarrow> nat" where
  "byte c = of_char c"

definition utf8_ranges :: "nat \<Rightarrow> (nat \<times> nat) list option" where
  "utf8_ranges b =
     (if b < 128 then Some []
      else if 194 \<le> b \<and> b \<le> 223 then Some [(128, 191)]
      else if b = 224 then Some [(160, 191), (128, 191)]
      else if b = 237 then Some [(128, 159), (128, 191)]
      else if 225 \<le> b \<and> b \<le> 239 then Some [(128, 191), (128, 191)]
      else if b = 240 then Some [(144, 191), (128, 191), (128, 191)]
      else if 241 \<le> b \<and> b \<le> 243 then Some [(128, 191), (128, 191), (128, 191)]
      else if b = 244 then Some [(128, 143), (128, 191), (128, 191)]
      else None)"

text \<open>How many of the following bytes fit.\<close>

fun fitting :: "(nat \<times> nat) list \<Rightarrow> string \<Rightarrow> nat" where
  "fitting ((lo, hi) # rs) (c # cs) = (if lo \<le> byte c \<and> byte c \<le> hi then Suc (fitting rs cs) else 0)"
| "fitting rs cs = 0"

text \<open>The first piece of a non-empty string: whether it is well formed, and its length.\<close>

definition first_piece :: "char \<Rightarrow> string \<Rightarrow> bool \<times> nat" where
  "first_piece c cs =
     (case utf8_ranges (byte c) of
        None \<Rightarrow> (False, 1)
      | Some rs \<Rightarrow> (fitting rs cs = length rs, Suc (fitting rs cs)))"

function valid_utf8 :: "string \<Rightarrow> bool" where
  "valid_utf8 [] = True"
| "valid_utf8 (c # cs) =
     (case first_piece c cs of (ok, n) \<Rightarrow> ok \<and> valid_utf8 (drop (n - 1) cs))"
  by pat_completeness auto
termination by (relation "measure length") auto

definition replacement_char :: string where
  "replacement_char = map char_of [239::nat, 191, 189]"

function from_utf8_lossy :: "string \<Rightarrow> string" where
  "from_utf8_lossy [] = []"
| "from_utf8_lossy (c # cs) =
     (case first_piece c cs of (ok, n) \<Rightarrow>
        (if ok then take n (c # cs) else replacement_char) @ from_utf8_lossy (drop (n - 1) cs))"
  by pat_completeness auto
termination by (relation "measure length") auto

declare valid_utf8.simps(2) [simp del] from_utf8_lossy.simps(2) [simp del]

section \<open>Facts\<close>

lemma fitting_le: "fitting rs cs \<le> length rs" "fitting rs cs \<le> length cs"
  by (induction rs cs rule: fitting.induct) auto

lemma utf8_ranges_cont: "utf8_ranges b = Some rs \<Longrightarrow> (lo, hi) \<in> set rs \<Longrightarrow> 128 \<le> lo \<and> hi \<le> 191"
  by (auto simp: utf8_ranges_def split: if_splits)

lemma utf8_ranges_short: "utf8_ranges b = Some rs \<Longrightarrow> length rs \<le> 3"
  by (auto simp: utf8_ranges_def split: if_splits)

lemma utf8_ranges_lead: "utf8_ranges (byte c) = Some rs \<Longrightarrow> \<not> cont_byte c"
  by (auto simp: utf8_ranges_def cont_byte_def byte_def Let_def split: if_splits)

lemma fitting_cont:
  "(\<And>lo hi. (lo, hi) \<in> set rs \<Longrightarrow> 128 \<le> lo \<and> hi \<le> 191) \<Longrightarrow> i < fitting rs cs \<Longrightarrow> cont_byte (cs ! i)"
proof (induction rs cs arbitrary: i rule: fitting.induct)
  case (1 lo hi rs c cs)
  have "128 \<le> lo \<and> hi \<le> 191" using 1(2) [of lo hi] by simp
  moreover have "i - 1 < fitting rs cs \<Longrightarrow> cont_byte (cs ! (i - 1))"
    using 1 by (auto split: if_splits)
  ultimately show ?case
    using 1(3) by (cases i) (auto simp: cont_byte_def byte_def Let_def split: if_splits)
qed auto

lemma valid_Cons:
  "valid_utf8 (c # cs) \<longleftrightarrow>
     (\<exists>rs. utf8_ranges (byte c) = Some rs \<and> fitting rs cs = length rs \<and> valid_utf8 (drop (length rs) cs))"
  by (auto simp: valid_utf8.simps(2) first_piece_def split: option.splits)

text \<open>A well-formed string is left alone.\<close>

lemma from_utf8_lossy_valid [codec_simps]: "valid_utf8 s \<Longrightarrow> from_utf8_lossy s = s"
proof (induction s rule: from_utf8_lossy.induct)
  case (2 c cs)
  then obtain rs where "utf8_ranges (byte c) = Some rs" "fitting rs cs = length rs"
    "valid_utf8 (drop (length rs) cs)" by (auto simp: valid_Cons)
  with 2(1) [of True "Suc (length rs)"] show ?case
    by (simp add: from_utf8_lossy.simps(2) first_piece_def)
qed simp

text \<open>Cutting a well-formed string at a character boundary leaves both sides well formed.\<close>

lemma valid_drop_boundary:
  "valid_utf8 s \<Longrightarrow> char_boundary s i \<Longrightarrow> valid_utf8 (drop i s)"
proof (induction s arbitrary: i rule: valid_utf8.induct)
  case (2 c cs)
  then obtain rs where rs: "utf8_ranges (byte c) = Some rs" "fitting rs cs = length rs"
    "valid_utf8 (drop (length rs) cs)" by (auto simp: valid_Cons)
  show ?case
  proof (cases "i \<le> length rs")
    case True
    show ?thesis
    proof (cases i)
      case (Suc j)
      then have "cont_byte (cs ! j)"
        using fitting_cont [OF utf8_ranges_cont [OF rs(1)], where i = j and cs = cs] rs(2) True by simp
      moreover have "j < length cs" using fitting_le(2) [of rs cs] rs(2) Suc True by simp
      ultimately show ?thesis using "2.prems"(2) Suc by (simp add: char_boundary_def)
    qed (use 2 in simp)
  next
    case False
    let ?i = "i - Suc (length rs)"
    have i: "drop i (c # cs) = drop ?i (drop (length rs) cs)" using False by (cases i) simp_all
    have "char_boundary (drop (length rs) cs) ?i"
      using "2.prems"(2) False fitting_le(2) [of rs cs] rs(2)
      by (cases i) (auto simp: char_boundary_def)
    with "2.IH" [of True "Suc (length rs)" ?i] rs show ?thesis
      unfolding i by (simp add: first_piece_def)
  qed
qed simp

end
