(* ===== verification/Exchange.thy ===== *)
theory Exchange
  imports Messages
begin

text \<open>
  One HTTP exchange with a model provider, as the three providers of
  \<open>boitata-core/src/provider\<close> make it: a request with headers and a JSON body goes out, a status
  and a body come back, or a failure.  The network and the JSON codec are arguments.  Redirects
  are not followed (\<open>http_client\<close>), so an exchange involves exactly one address.
\<close>

record http_request =
  hr_url :: string
  hr_headers :: "(string \<times> string) list"
  hr_body :: json

datatype http_outcome = NotSent string | Answered nat "string + string"

definition is_success :: "nat \<Rightarrow> bool" where
  "is_success status \<longleftrightarrow> 200 \<le> status \<and> status < 300"

definition post_json ::
    "(http_request \<Rightarrow> http_outcome) \<Rightarrow> http_request \<Rightarrow> (nat \<Rightarrow> string \<Rightarrow> provider_error) \<Rightarrow>
     (string \<Rightarrow> string + 'r) \<Rightarrow> provider_error + 'r" where
  "post_json http rq parse_error decode =
     (case http rq of
        NotSent e \<Rightarrow> Inl (RequestFailed e)
      | Answered status body \<Rightarrow>
          (case body of
             Inl e \<Rightarrow> Inl (RequestFailed e)
           | Inr text \<Rightarrow>
               if \<not> is_success status then Inl (parse_error status text)
               else map_err InvalidResponse (decode text)))"

lemma post_json_Inr_iff:
  "post_json http rq pe decode = Inr v \<longleftrightarrow>
     (\<exists>status text. http rq = Answered status (Inr text) \<and> is_success status \<and> decode text = Inr v)"
  by (auto simp: post_json_def split: http_outcome.splits sum.splits)

text \<open>Indexing a JSON value by a key: null when it is not there.\<close>

definition jindex :: "json \<Rightarrow> string \<Rightarrow> json" where
  "jindex v k = unwrap_or JNull (jget v k)"

text \<open>The fields an object is written with: an absent value that is skipped leaves no field.\<close>

definition opt_field :: "string \<Rightarrow> ('a \<Rightarrow> json) \<Rightarrow> 'a option \<Rightarrow> (string \<times> json) list" where
  "opt_field k f x = (case x of None \<Rightarrow> [] | Some v \<Rightarrow> [(k, f v)])"

definition jnat :: "nat \<Rightarrow> json" where
  "jnat n = JNum (PosInt n)"

end
