(* ===== verification/Anthropic.thy ===== *)
theory Anthropic
  imports Exchange
begin

text \<open>
  The Anthropic provider (\<open>boitata-core/src/provider/anthropic.rs\<close>): how a request becomes a body
  of the Messages API, how a response and an error are read.  The streaming side is the theory
  \<open>Anthropic_Stream\<close>.
\<close>

section \<open>The provider\<close>

record anthropic_provider =
  an_api_key :: string
  an_model :: string
  an_max_tokens :: nat
  an_base_url :: string

definition anthropic_api_version :: string where
  "anthropic_api_version = ''2023-06-01''"

definition anthropic_with_config :: "string \<Rightarrow> string \<Rightarrow> string option \<Rightarrow> anthropic_provider" where
  "anthropic_with_config key model base =
     \<lparr>an_api_key = key, an_model = model, an_max_tokens = 8192,
      an_base_url = unwrap_or ''https://api.anthropic.com/v1/messages'' base\<rparr>"

definition anthropic_new :: "string \<Rightarrow> string \<Rightarrow> anthropic_provider" where
  "anthropic_new key model = anthropic_with_config key model None"

definition anthropic_with_max_tokens :: "anthropic_provider \<Rightarrow> nat \<Rightarrow> anthropic_provider" where
  "anthropic_with_max_tokens p n = p\<lparr>an_max_tokens := n\<rparr>"

definition anthropic_context_limit :: nat where
  "anthropic_context_limit = 200000"

text \<open>What \<open>Debug\<close> prints of a provider: never the key.\<close>

definition anthropic_debug :: "anthropic_provider \<Rightarrow> (string \<times> string) list" where
  "anthropic_debug p = [(''model'', an_model p), (''base_url'', an_base_url p)]"

section \<open>Requests\<close>

datatype anthropic_result_block = ARText string | ARImage string string string

datatype anthropic_content =
    AText string
  | AToolUse string string json
  | AToolResult string "anthropic_result_block list" "bool option"

record anthropic_message =
  am_role :: string
  am_content :: "anthropic_content list"

record anthropic_request =
  ar_model :: string
  ar_messages :: "anthropic_message list"
  ar_system :: "string option"
  ar_tools :: "tool_definition list option"
  ar_max_tokens :: nat
  ar_temperature :: "string option"
  ar_stream :: bool

definition tool_result_blocks :: "tool_content list \<Rightarrow> anthropic_result_block list" where
  "tool_result_blocks content =
     map (\<lambda>item. case item of
            TText text \<Rightarrow> ARText text
          | TImage mime_type data \<Rightarrow> ARImage ''base64'' mime_type data) content"

fun anthropic_blocks :: "message_content \<Rightarrow> anthropic_content list" where
  "anthropic_blocks (MText text) = [AText text]"
| "anthropic_blocks (MToolResults results) =
     map (\<lambda>r. AToolResult (tr_call_id r) (tool_result_blocks (tr_content r)) (tr_is_error r)) results"
| "anthropic_blocks (MToolUse text tool_calls) =
     (case text of None \<Rightarrow> [] | Some t \<Rightarrow> if t = [] then [] else [AText t]) @
     map (\<lambda>call. AToolUse (tc_id call) (tc_name call) (tc_arguments call)) tool_calls"

fun anthropic_role :: "message_role \<Rightarrow> string option" where
  "anthropic_role System = None"
| "anthropic_role User = Some ''user''"
| "anthropic_role Assistant = Some ''assistant''"
| "anthropic_role Tool = Some ''user''"

definition anthropic_message_of :: "message \<Rightarrow> anthropic_message option" where
  "anthropic_message_of m =
     map_option (\<lambda>role. \<lparr>am_role = role, am_content = anthropic_blocks (msg_content m)\<rparr>)
       (anthropic_role (msg_role m))"

definition anthropic_build_request :: "anthropic_provider \<Rightarrow> completion_request \<Rightarrow> anthropic_request" where
  "anthropic_build_request p q =
     \<lparr>ar_model = an_model p, ar_messages = List.map_filter anthropic_message_of (req_messages q),
      ar_system = req_system q, ar_tools = req_tools q,
      ar_max_tokens = min (unwrap_or 4096 (req_max_tokens q)) (an_max_tokens p),
      ar_temperature = req_temperature q, ar_stream = False\<rparr>"

section \<open>The body\<close>

fun result_block_json :: "anthropic_result_block \<Rightarrow> json" where
  "result_block_json (ARText t) = JObj [(''type'', JStr ''text''), (''text'', JStr t)]"
| "result_block_json (ARImage source_type mt d) =
     JObj [(''type'', JStr ''image''),
       (''source'', JObj [(''type'', JStr source_type), (''media_type'', JStr mt), (''data'', JStr d)])]"

fun content_json :: "anthropic_content \<Rightarrow> json" where
  "content_json (AText t) = JObj [(''type'', JStr ''text''), (''text'', JStr t)]"
| "content_json (AToolUse i n v) =
     JObj [(''type'', JStr ''tool_use''), (''id'', JStr i), (''name'', JStr n), (''input'', v)]"
| "content_json (AToolResult i bs err) =
     JObj ([(''type'', JStr ''tool_result''), (''tool_use_id'', JStr i),
       (''content'', JArr (map result_block_json bs))] @ opt_field ''is_error'' JBool err)"

definition message_json :: "anthropic_message \<Rightarrow> json" where
  "message_json m =
     JObj ((''role'', JStr (am_role m)) #
       (if am_content m = [] then [] else [(''content'', JArr (map content_json (am_content m)))]))"

definition definition_json :: "tool_definition \<Rightarrow> json" where
  "definition_json t =
     JObj [(''name'', JStr (td_name t)), (''description'', JStr (td_description t)),
       (''input_schema'', td_input_schema t)]"

definition request_json :: "anthropic_request \<Rightarrow> json" where
  "request_json r =
     JObj ([(''model'', JStr (ar_model r)), (''messages'', JArr (map message_json (ar_messages r)))] @
       opt_field ''system'' JStr (ar_system r) @
       opt_field ''tools'' (\<lambda>ts. JArr (map definition_json ts)) (ar_tools r) @
       [(''max_tokens'', jnat (ar_max_tokens r))] @
       opt_field ''temperature'' (\<lambda>t. JNum (JFloat t)) (ar_temperature r) @
       [(''stream'', JBool (ar_stream r))])"

definition anthropic_http :: "anthropic_provider \<Rightarrow> anthropic_request \<Rightarrow> http_request" where
  "anthropic_http p r =
     \<lparr>hr_url = an_base_url p,
      hr_headers = [(''x-api-key'', an_api_key p), (''anthropic-version'', anthropic_api_version),
        (''content-type'', ''application/json'')],
      hr_body = request_json r\<rparr>"

section \<open>Responses\<close>

datatype anthropic_response_content =
    RText string
  | RToolUse string string json
  | RToolResult string string

record anthropic_response =
  an_content :: "anthropic_response_content list"
  an_stop_reason :: "string option"
  an_usage :: usage

definition response_texts :: "anthropic_response_content list \<Rightarrow> string list" where
  "response_texts bs = List.map_filter (\<lambda>b. case b of RText t \<Rightarrow> Some t | _ \<Rightarrow> None) bs"

definition response_calls :: "anthropic_response_content list \<Rightarrow> tool_call list" where
  "response_calls bs =
     List.map_filter (\<lambda>b. case b of
        RToolUse i n v \<Rightarrow> Some \<lparr>tc_id = i, tc_name = n, tc_arguments = v\<rparr> | _ \<Rightarrow> None) bs"

definition convert_anthropic_response :: "anthropic_response \<Rightarrow> completion_response" where
  "convert_anthropic_response r =
     \<lparr>resp_content =
        (if response_texts (an_content r) = [] then None
         else Some (join [CHR 0x0A] (response_texts (an_content r)))),
      resp_tool_calls = response_calls (an_content r), resp_usage = Some (an_usage r),
      resp_finish_reason = an_stop_reason r\<rparr>"

text \<open>
  The error body is decoded to its optional type and its message.
\<close>

definition parse_anthropic_error ::
    "(string \<Rightarrow> (string option \<times> string) option) \<Rightarrow> nat \<Rightarrow> string \<Rightarrow> provider_error" where
  "parse_anthropic_error decode_error status body =
     (if status = 401 then AuthenticationFailed
      else if status = 429 then RateLimited
      else
        let failed = RequestFailed (''HTTP '' @ show_nat status @ '': '' @ body)
        in if status = 400 then
             (case decode_error body of
                Some (Some t, msg) \<Rightarrow>
                  if t = ''invalid_request_error'' then
                    (if contains_str msg ''prompt is too long'' \<or> contains_str msg ''context_length_exceeded'' \<or>
                        contains_str msg ''context window''
                     then ContextLengthExceeded
                     else if contains_str msg ''model'' \<and> contains_str msg ''not found''
                     then ModelNotFound msg else failed)
                  else failed
              | _ \<Rightarrow> failed)
           else failed)"

definition anthropic_complete ::
    "anthropic_provider \<Rightarrow> (http_request \<Rightarrow> http_outcome) \<Rightarrow> (string \<Rightarrow> string + anthropic_response) \<Rightarrow>
     (string \<Rightarrow> (string option \<times> string) option) \<Rightarrow> completion_request \<Rightarrow>
     provider_error + completion_response" where
  "anthropic_complete p http decode decode_error q =
     and_then (post_json http (anthropic_http p (anthropic_build_request p q))
         (parse_anthropic_error decode_error) decode)
       (\<lambda>r. Inr (convert_anthropic_response r))"

end
