(* ===== verification/Anthropic_Stream.thy ===== *)
theory Anthropic_Stream
  imports Utf8 Anthropic
begin

text \<open>
  Reading a streamed response (\<open>stream_complete\<close> in \<open>boitata-core/src/provider/anthropic.rs\<close>).
  The body arrives as byte chunks, cut anywhere; the task collects bytes, takes whole lines off
  the buffer, and turns each event of the protocol into chunks sent to a receiver, which may go
  away: it takes \<open>limit\<close> items, or any number.
\<close>

section \<open>The reading task\<close>

record sse_state =
  ss_buffer :: string
  ss_tool :: "(string \<times> string \<times> string) option"
  ss_sent :: "(provider_error + chunk) list"
  ss_done :: bool

definition sse_start :: sse_state where
  "sse_start = \<lparr>ss_buffer = [], ss_tool = None, ss_sent = [], ss_done = False\<rparr>"

text \<open>Sending a chunk; the task returns when the receiver is gone.\<close>

definition receiver_open :: "nat option \<Rightarrow> sse_state \<Rightarrow> bool" where
  "receiver_open limit s \<longleftrightarrow> (case limit of None \<Rightarrow> True | Some n \<Rightarrow> length (ss_sent s) < n)"

definition send_chunk :: "nat option \<Rightarrow> chunk \<Rightarrow> sse_state \<Rightarrow> sse_state" where
  "send_chunk limit c s =
     (if receiver_open limit s
      then s\<lparr>ss_sent := ss_sent s @ [Inr c]\<rparr>
      else s\<lparr>ss_done := True\<rparr>)"

text \<open>Sending an error is the last thing the task does, whether or not it arrives.\<close>

definition send_error :: "nat option \<Rightarrow> string \<Rightarrow> sse_state \<Rightarrow> sse_state" where
  "send_error limit msg s =
     (if receiver_open limit s
      then s\<lparr>ss_sent := ss_sent s @ [Inl (RequestFailed msg)], ss_done := True\<rparr>
      else s\<lparr>ss_done := True\<rparr>)"

definition block_start :: "json \<Rightarrow> sse_state \<Rightarrow> sse_state" where
  "block_start event s =
     (let cb = jindex event ''content_block''
      in if get_str cb ''type'' = Some ''tool_use''
         then s\<lparr>ss_tool := Some (unwrap_or [] (get_str cb ''id''), unwrap_or [] (get_str cb ''name''), [])\<rparr>
         else s)"

definition block_delta :: "nat option \<Rightarrow> json \<Rightarrow> sse_state \<Rightarrow> sse_state" where
  "block_delta limit event s =
     (let delta = jindex event ''delta''
      in if get_str delta ''type'' = Some ''text_delta'' then
           (case get_str delta ''text'' of
              Some text \<Rightarrow>
                send_chunk limit \<lparr>ch_content = Some text, ch_tool_calls = None, ch_finish_reason = None\<rparr> s
            | None \<Rightarrow> s)
         else if get_str delta ''type'' = Some ''input_json_delta'' then
           (case (ss_tool s, get_str delta ''partial_json'') of
              (Some (i, n, acc), Some partial) \<Rightarrow> s\<lparr>ss_tool := Some (i, n, acc @ partial)\<rparr>
            | _ \<Rightarrow> s)
         else s)"

definition block_stop :: "nat option \<Rightarrow> (string \<Rightarrow> json option) \<Rightarrow> sse_state \<Rightarrow> sse_state" where
  "block_stop limit from_str s =
     (case ss_tool s of
        None \<Rightarrow> s
      | Some (i, n, acc) \<Rightarrow>
          send_chunk limit
            \<lparr>ch_content = None,
             ch_tool_calls = Some [\<lparr>tc_id = i, tc_name = n, tc_arguments = unwrap_or (JObj []) (from_str acc)\<rparr>],
             ch_finish_reason = None\<rparr> (s\<lparr>ss_tool := None\<rparr>))"

definition message_delta :: "nat option \<Rightarrow> json \<Rightarrow> sse_state \<Rightarrow> sse_state" where
  "message_delta limit event s =
     (case get_str (jindex event ''delta'') ''stop_reason'' of
        None \<Rightarrow> s
      | Some reason \<Rightarrow>
          send_chunk limit \<lparr>ch_content = None, ch_tool_calls = None, ch_finish_reason = Some reason\<rparr> s)"

definition handle_event :: "nat option \<Rightarrow> (string \<Rightarrow> json option) \<Rightarrow> json \<Rightarrow> sse_state \<Rightarrow> sse_state" where
  "handle_event limit from_str event s =
     (let ty = get_str event ''type''
      in if ty = Some ''content_block_start'' then block_start event s
         else if ty = Some ''content_block_delta'' then block_delta limit event s
         else if ty = Some ''content_block_stop'' then block_stop limit from_str s
         else if ty = Some ''message_delta'' then message_delta limit event s
         else if ty = Some ''message_stop'' then s\<lparr>ss_done := True\<rparr>
         else if ty = Some ''error''
         then send_error limit
           (unwrap_or ''stream error'' (as_str (jindex (jindex event ''error'') ''message''))) s
         else s)"

definition event_data :: "string \<Rightarrow> string option" where
  "event_data line_bytes =
     (let line = trim (from_utf8_lossy line_bytes)
      in if prefix ''data:'' line then
           (let data = trim (drop (length ''data:'') line) in if data = [] then None else Some data)
         else None)"

definition handle_line :: "nat option \<Rightarrow> (string \<Rightarrow> json option) \<Rightarrow> string \<Rightarrow> sse_state \<Rightarrow> sse_state" where
  "handle_line limit from_str line s =
     (case Option.bind (event_data line) from_str of
        None \<Rightarrow> s
      | Some event \<Rightarrow> handle_event limit from_str event s)"

text \<open>The inner loop: whole lines off the buffer, the newline with them, until none is left.\<close>

fun take_line :: "string \<Rightarrow> (string \<times> string) option" where
  "take_line [] = None"
| "take_line (c # cs) =
     (if c = CHR 0x0A then Some ([c], cs)
      else map_option (\<lambda>(line, rest). (c # line, rest)) (take_line cs))"

lemma take_line_split: "take_line b = Some (line, rest) \<Longrightarrow> b = line @ rest \<and> line \<noteq> []"
  by (induction b arbitrary: line) (auto split: if_splits)

function drain_lines :: "nat option \<Rightarrow> (string \<Rightarrow> json option) \<Rightarrow> string \<Rightarrow> sse_state \<Rightarrow> sse_state" where
  "drain_lines limit from_str b s =
     (if ss_done s then s\<lparr>ss_buffer := b\<rparr>
      else case take_line b of
             None \<Rightarrow> s\<lparr>ss_buffer := b\<rparr>
           | Some (line, rest) \<Rightarrow> drain_lines limit from_str rest (handle_line limit from_str line s))"
  by pat_completeness auto
termination
  by (relation "measure (\<lambda>(limit, from_str, b, s). length b)") (auto dest!: take_line_split)

declare drain_lines.simps [simp del]

definition read_item ::
    "nat option \<Rightarrow> (string \<Rightarrow> json option) \<Rightarrow> sse_state \<Rightarrow> string + string \<Rightarrow> sse_state" where
  "read_item limit from_str s item =
     (if ss_done s then s
      else case item of
             Inl e \<Rightarrow> send_error limit e s
           | Inr bytes \<Rightarrow> drain_lines limit from_str (ss_buffer s @ bytes) s)"

definition read_stream ::
    "nat option \<Rightarrow> (string \<Rightarrow> json option) \<Rightarrow> (string + string) list \<Rightarrow> sse_state" where
  "read_stream limit from_str items = foldl (read_item limit from_str) sse_start items"

text \<open>Opening the stream; the body of a refusal is read whole.\<close>

definition anthropic_stream_complete ::
    "anthropic_provider \<Rightarrow> (http_request \<Rightarrow> http_outcome) \<Rightarrow> (http_request \<Rightarrow> (string + string) list) \<Rightarrow>
     (string \<Rightarrow> (string option \<times> string) option) \<Rightarrow> (string \<Rightarrow> json option) \<Rightarrow> nat option \<Rightarrow>
     completion_request \<Rightarrow> provider_error + (provider_error + chunk) list" where
  "anthropic_stream_complete p http body_items decode_error from_str limit q =
     (let rq = anthropic_http p ((anthropic_build_request p q)\<lparr>ar_stream := True\<rparr>)
      in case http rq of
           NotSent e \<Rightarrow> Inl (RequestFailed e)
         | Answered status body \<Rightarrow>
             if \<not> is_success status then
               (case body of
                  Inl e \<Rightarrow> Inl (RequestFailed e)
                | Inr text \<Rightarrow> Inl (parse_anthropic_error decode_error status text))
             else Inr (ss_sent (read_stream limit from_str (body_items rq))))"


section \<open>The specification: whole lines of the whole body\<close>

function whole_lines :: "string \<Rightarrow> string list" where
  "whole_lines b = (case take_line b of None \<Rightarrow> [] | Some (line, rest) \<Rightarrow> line # whole_lines rest)"
  by pat_completeness auto
termination by (relation "measure length") (auto dest!: take_line_split)

declare whole_lines.simps [simp del]

fun read_lines :: "nat option \<Rightarrow> (string \<Rightarrow> json option) \<Rightarrow> string list \<Rightarrow> sse_state \<Rightarrow> sse_state" where
  "read_lines limit from_str [] s = s"
| "read_lines limit from_str (l # ls) s =
     (if ss_done s then s else read_lines limit from_str ls (handle_line limit from_str l s))"

text \<open>What follows the last newline.\<close>

function partial_line :: "string \<Rightarrow> string" where
  "partial_line b = (case take_line b of None \<Rightarrow> b | Some (line, rest) \<Rightarrow> partial_line rest)"
  by pat_completeness auto
termination by (relation "measure length") (auto dest!: take_line_split)

declare partial_line.simps [simp del]

lemma take_line_append: "take_line b = Some (line, rest) \<Longrightarrow> take_line (b @ c) = Some (line, rest @ c)"
  by (induction b arbitrary: line) (auto split: if_splits)

lemma lines_append:
  "whole_lines (b @ c) = whole_lines b @ whole_lines (partial_line b @ c) \<and>
   partial_line (b @ c) = partial_line (partial_line b @ c)"
proof (induction b rule: whole_lines.induct)
  case (1 b)
  show ?case
  proof (cases "take_line b")
    case None
    then show ?thesis by (simp add: whole_lines.simps [of b] partial_line.simps [of b])
  next
    case (Some p)
    then obtain line rest where p: "take_line b = Some (line, rest)" by (cases p) simp
    note t = p [THEN take_line_append, of c]
    from 1 [OF p refl] show ?thesis
      by (simp add: whole_lines.simps [of b] whole_lines.simps [of "b @ c"] partial_line.simps [of b]
          partial_line.simps [of "b @ c"] p t)
  qed
qed

text \<open>Handling a line does not look at the buffer.\<close>

lemma receiver_open_buffer [simp]: "receiver_open limit (s\<lparr>ss_buffer := b\<rparr>) = receiver_open limit s"
  by (simp add: receiver_open_def split: option.split)

lemma update_buffer:
  "s\<lparr>ss_buffer := b, ss_sent := out\<rparr> = s\<lparr>ss_sent := out, ss_buffer := b\<rparr>"
  "s\<lparr>ss_buffer := b, ss_done := d\<rparr> = s\<lparr>ss_done := d, ss_buffer := b\<rparr>"
  "s\<lparr>ss_buffer := b, ss_tool := t\<rparr> = s\<lparr>ss_tool := t, ss_buffer := b\<rparr>"
  by simp_all

lemma send_buffer [frame_simps]:
  "send_chunk limit c (s\<lparr>ss_buffer := b\<rparr>) = (send_chunk limit c s)\<lparr>ss_buffer := b\<rparr>"
  "send_error limit msg (s\<lparr>ss_buffer := b\<rparr>) = (send_error limit msg s)\<lparr>ss_buffer := b\<rparr>"
  by (simp_all add: send_chunk_def send_error_def update_buffer)

lemma block_start_buffer [frame_simps]:
  "block_start event (s\<lparr>ss_buffer := b\<rparr>) = (block_start event s)\<lparr>ss_buffer := b\<rparr>"
  by (simp add: block_start_def Let_def update_buffer)

lemma block_delta_buffer [frame_simps]:
  "block_delta limit event (s\<lparr>ss_buffer := b\<rparr>) = (block_delta limit event s)\<lparr>ss_buffer := b\<rparr>"
  by (auto simp: block_delta_def Let_def send_buffer update_buffer split: option.split)

lemma message_delta_buffer [frame_simps]:
  "message_delta limit event (s\<lparr>ss_buffer := b\<rparr>) = (message_delta limit event s)\<lparr>ss_buffer := b\<rparr>"
  by (simp add: message_delta_def send_buffer split: option.split)

lemma block_stop_buffer [frame_simps]:
  "block_stop limit from_str (s\<lparr>ss_buffer := b\<rparr>) = (block_stop limit from_str s)\<lparr>ss_buffer := b\<rparr>"
  by (simp add: block_stop_def update_buffer send_buffer split: option.split prod.split)

lemma handle_line_buffer [frame_simps]:
  "handle_line limit from_str l (s\<lparr>ss_buffer := b\<rparr>) = (handle_line limit from_str l s)\<lparr>ss_buffer := b\<rparr>"
  by (simp add: handle_line_def handle_event_def send_buffer block_start_buffer block_delta_buffer message_delta_buffer
      block_stop_buffer update_buffer Let_def split: option.split)

lemma read_lines_buffer [frame_simps]:
  "read_lines limit from_str ls (s\<lparr>ss_buffer := b\<rparr>) = (read_lines limit from_str ls s)\<lparr>ss_buffer := b\<rparr>"
  by (induction ls arbitrary: s) (simp_all add: handle_line_buffer)

lemma read_lines_done [simp]: "ss_done s \<Longrightarrow> read_lines limit from_str ls s = s"
  by (cases ls) simp_all

lemma read_lines_append:
  "read_lines limit from_str (ls @ ms) s = read_lines limit from_str ms (read_lines limit from_str ls s)"
  by (induction ls arbitrary: s) simp_all

text \<open>The inner loop reads the whole lines and keeps the partial one.\<close>

lemma drain_lines_spec:
  "\<exists>b1. drain_lines limit from_str b s = (read_lines limit from_str (whole_lines b) s)\<lparr>ss_buffer := b1\<rparr> \<and>
     (\<not> ss_done (drain_lines limit from_str b s) \<longrightarrow> b1 = partial_line b)"
proof (induction limit from_str b s rule: drain_lines.induct)
  case (1 limit from_str b s)
  show ?case
  proof (cases "ss_done s")
    case True
    then show ?thesis by (auto simp: drain_lines.simps [of limit from_str b s])
  next
    case False
    show ?thesis
    proof (cases "take_line b")
      case None
      with False show ?thesis
        by (auto simp: drain_lines.simps [of limit from_str b s] whole_lines.simps [of b] partial_line.simps [of b])
    next
      case (Some p)
      then obtain line rest where p: "take_line b = Some (line, rest)" by (cases p) simp
      with False 1 [OF False p refl] show ?thesis
        by (simp add: drain_lines.simps [of limit from_str b s] whole_lines.simps [of b] partial_line.simps [of b])
    qed
  qed
qed

text \<open>The state without its buffer.\<close>

abbreviation unbuffered :: "sse_state \<Rightarrow> sse_state" where
  "unbuffered s \<equiv> s\<lparr>ss_buffer := []\<rparr>"

text \<open>Reading chunks of bytes: after each, the whole lines so far have been read.\<close>

definition stream_inv :: "nat option \<Rightarrow> (string \<Rightarrow> json option) \<Rightarrow> string \<Rightarrow> sse_state \<Rightarrow> bool" where
  "stream_inv limit from_str t s \<longleftrightarrow>
     unbuffered s = read_lines limit from_str (whole_lines t) sse_start \<and>
     (\<not> ss_done s \<longrightarrow> ss_buffer s = partial_line t)"

lemma unbuffered_eqD: "unbuffered s = s1 \<Longrightarrow> \<exists>b. s = s1\<lparr>ss_buffer := b\<rparr>"
  by (metis sse_state.surjective sse_state.update_convs(1))

lemma stream_chunk_inv:
  assumes "stream_inv limit from_str t s"
  shows "stream_inv limit from_str (t @ bytes) (read_item limit from_str s (Inr bytes))"
proof -
  let ?L = "read_lines limit from_str"
  have "?L (whole_lines (t @ bytes)) sse_start = ?L (whole_lines (partial_line t @ bytes)) (unbuffered s)"
    using assms lines_append [of t bytes] by (simp add: stream_inv_def read_lines_append)
  also have "\<dots> = unbuffered (?L (whole_lines (partial_line t @ bytes)) s)" by (rule read_lines_buffer)
  finally have lines: "?L (whole_lines (t @ bytes)) sse_start = unbuffered (?L (whole_lines (partial_line t @ bytes)) s)" .
  show ?thesis
  proof (cases "ss_done s")
    case True
    with lines show ?thesis by (simp add: stream_inv_def read_item_def)
  next
    case False
    with assms have b: "ss_buffer s = partial_line t" by (simp add: stream_inv_def)
    from drain_lines_spec [of limit from_str "partial_line t @ bytes" s] obtain b1 where
      d: "drain_lines limit from_str (partial_line t @ bytes) s =
          (?L (whole_lines (partial_line t @ bytes)) s)\<lparr>ss_buffer := b1\<rparr>"
      "\<not> ss_done (drain_lines limit from_str (partial_line t @ bytes) s) \<longrightarrow> b1 = partial_line (partial_line t @ bytes)"
      by blast
    have "read_item limit from_str s (Inr bytes) = drain_lines limit from_str (partial_line t @ bytes) s"
      using False b by (simp add: read_item_def)
    with d lines lines_append [of t bytes] show ?thesis by (simp add: stream_inv_def)
  qed
qed

lemma stream_chunks_inv:
  "stream_inv limit from_str t s \<Longrightarrow>
   stream_inv limit from_str (t @ concat chunks) (foldl (read_item limit from_str) s (map Inr chunks))"
proof (induction chunks arbitrary: t s)
  case (Cons c cs)
  from Cons.IH [OF stream_chunk_inv [OF Cons.prems]] show ?case by simp
qed simp

lemma read_item_done: "ss_done s \<Longrightarrow> foldl (read_item limit from_str) s items = s"
  by (induction items) (simp_all add: read_item_def)

text \<open>A receiver that goes away only cuts what is sent.\<close>

definition cut_off :: "nat \<Rightarrow> sse_state \<Rightarrow> sse_state \<Rightarrow> bool" where
  "cut_off n s u \<longleftrightarrow>
     s = u \<and> length (ss_sent s) \<le> n \<or>
     ss_done s \<and> length (ss_sent s) = n \<and> prefix (ss_sent s) (ss_sent u)"

lemma send_chunk_cut: "length (ss_sent s) \<le> n \<Longrightarrow> cut_off n (send_chunk (Some n) c s) (send_chunk None c s)"
  by (auto simp: cut_off_def send_chunk_def receiver_open_def)

lemma send_error_cut: "length (ss_sent s) \<le> n \<Longrightarrow> cut_off n (send_error (Some n) m s) (send_error None m s)"
  by (auto simp: cut_off_def send_error_def receiver_open_def)

lemma cut_off_same: "length (ss_sent s) \<le> n \<Longrightarrow> cut_off n s s"
  by (simp add: cut_off_def)

lemma block_start_sent: "ss_sent (block_start e s) = ss_sent s"
  by (simp add: block_start_def Let_def)

lemma block_delta_cut:
  assumes "length (ss_sent s) \<le> n"
  shows "cut_off n (block_delta (Some n) e s) (block_delta None e s)"
proof -
  let ?ty = "get_str (jindex e ''delta'') ''type''"
  consider "?ty = Some ''text_delta''" | "?ty = Some ''input_json_delta''"
    | "?ty \<noteq> Some ''text_delta''" "?ty \<noteq> Some ''input_json_delta''" by blast
  then show ?thesis
  proof cases
    case 1
    with assms show ?thesis by (simp add: block_delta_def send_chunk_cut cut_off_same split: option.split)
  next
    case 2
    with assms have "block_delta (Some n) e s = block_delta None e s"
        "ss_sent (block_delta None e s) = ss_sent s"
      by (simp_all add: block_delta_def split: option.split prod.split)
    with assms cut_off_same show ?thesis by metis
  next
    case 3
    with assms show ?thesis by (simp add: block_delta_def cut_off_same)
  qed
qed

lemma block_stop_cut:
  "length (ss_sent s) \<le> n \<Longrightarrow> cut_off n (block_stop (Some n) from_str s) (block_stop None from_str s)"
  using send_chunk_cut [of "s\<lparr>ss_tool := None\<rparr>" n]
  by (simp add: block_stop_def cut_off_same split: option.split prod.split)

lemma message_delta_cut: "length (ss_sent s) \<le> n \<Longrightarrow> cut_off n (message_delta (Some n) e s) (message_delta None e s)"
  by (simp add: message_delta_def send_chunk_cut cut_off_same split: option.split)

lemma handle_line_cut:
  assumes "length (ss_sent s) \<le> n"
  shows "cut_off n (handle_line (Some n) from_str l s) (handle_line None from_str l s)"
proof (cases "Option.bind (event_data l) from_str")
  case (Some e)
  with assms show ?thesis
    by (simp add: handle_line_def handle_event_def Let_def block_delta_cut block_stop_cut message_delta_cut
        send_error_cut cut_off_same block_start_sent)
qed (simp add: handle_line_def assms cut_off_same)

text \<open>What is sent only grows.\<close>

lemma handle_line_grows: "prefix (ss_sent s) (ss_sent (handle_line limit from_str l s))"
proof -
  have send: "prefix (ss_sent s) (ss_sent (send_chunk limit c s))" "prefix (ss_sent s) (ss_sent (send_error limit m s))" for c m s
    by (simp_all add: send_chunk_def send_error_def)
  have "prefix (ss_sent s) (ss_sent (handle_event limit from_str e s))" for e
    using send(1) [of "s\<lparr>ss_tool := None\<rparr>"]
    by (auto simp: handle_event_def Let_def block_start_sent block_delta_def block_stop_def message_delta_def send
        split: option.split)
  then show ?thesis by (simp add: handle_line_def split: option.split)
qed

lemma read_lines_grows: "prefix (ss_sent s) (ss_sent (read_lines limit from_str ls s))"
  by (induction ls arbitrary: s) (auto intro: prefix_order.trans [OF handle_line_grows])

lemma read_lines_cut:
  "cut_off n s u \<Longrightarrow> cut_off n (read_lines (Some n) from_str ls s) (read_lines None from_str ls u)"
proof (induction ls arbitrary: s u)
  case (Cons l ls)
  from Cons.prems consider "s = u" "length (ss_sent s) \<le> n"
    | "ss_done s" "length (ss_sent s) = n" "prefix (ss_sent s) (ss_sent u)"
    by (auto simp: cut_off_def)
  then show ?case
  proof cases
    case 1
    with Cons.IH [OF handle_line_cut] cut_off_same show ?thesis by simp
  next
    case 2
    with read_lines_grows [of u None from_str "l # ls"] show ?thesis
      by (auto simp: cut_off_def simp del: read_lines.simps intro: prefix_order.trans)
  qed
qed simp

lemma cut_off_take: "cut_off n s u \<Longrightarrow> ss_sent s = take n (ss_sent u)"
  by (auto simp: cut_off_def prefix_def)

lemma items_split:
  obtains chunks where "items = map Inr chunks" | chunks e rest where "items = map Inr chunks @ Inl e # rest"
proof (induction items arbitrary: thesis)
  case (Cons i items)
  show ?case
  proof (cases i)
    case (Inr c)
    show ?thesis by (rule Cons.IH) (use Cons.prems [of "c # _"] Inr in auto)
  qed (use Cons.prems(2) [of "[]"] in simp)
qed simp

lemma read_stream_chunks:
  "unbuffered (read_stream limit from_str (map Inr chunks)) =
     read_lines limit from_str (whole_lines (concat chunks)) sse_start"
proof -
  have "stream_inv limit from_str [] sse_start"
    by (simp add: stream_inv_def sse_start_def whole_lines.simps [of "[]"] partial_line.simps [of "[]"])
  from stream_chunks_inv [OF this, of chunks] show ?thesis by (simp add: stream_inv_def read_stream_def)
qed

lemma read_stream_failed:
  "unbuffered (read_stream limit from_str (map Inr chunks @ Inl e # rest)) =
     (let s = read_lines limit from_str (whole_lines (concat chunks)) sse_start
      in if ss_done s then s else send_error limit e s)"
proof -
  let ?s = "read_stream limit from_str (map Inr chunks)"
  have err: "unbuffered (send_error limit e ?s) = send_error limit e (unbuffered ?s)" "ss_done (send_error limit e ?s)"
    by (simp_all add: send_buffer) (simp add: send_error_def)
  have "read_stream limit from_str (map Inr chunks @ Inl e # rest) =
      (if ss_done ?s then ?s else send_error limit e ?s)"
    using err(2) by (simp add: read_stream_def read_item_def [of limit from_str _ "Inl e"] read_item_done)
  with err(1) show ?thesis by (simp add: read_stream_chunks [symmetric] Let_def)
qed

text \<open>A tool call whose input is streamed in pieces is sent once, with the pieces put together.\<close>

definition input_delta :: "string \<Rightarrow> json" where
  "input_delta p =
     JObj [(''type'', JStr ''content_block_delta''),
       (''delta'', JObj [(''type'', JStr ''input_json_delta''), (''partial_json'', JStr p)])]"

lemma input_deltas:
  "ss_tool s = Some (i, n, acc) \<Longrightarrow>
   foldl (\<lambda>s e. handle_event limit from_str e s) s (map input_delta ps) = s\<lparr>ss_tool := Some (i, n, acc @ concat ps)\<rparr>"
proof (induction ps arbitrary: s acc)
  case (Cons p ps)
  have "handle_event limit from_str (input_delta p) s = s\<lparr>ss_tool := Some (i, n, acc @ p)\<rparr>"
    using Cons.prems
    by (simp add: handle_event_def input_delta_def block_delta_def get_str_def jget_def jindex_def as_str_def)
  with Cons.IH [of "s\<lparr>ss_tool := Some (i, n, acc @ p)\<rparr>" "acc @ p"] show ?case by simp
qed simp

lemma streamed_tool_call:
  "foldl (\<lambda>s e. handle_event limit from_str e s) s
     ([JObj [(''type'', JStr ''content_block_start''),
        (''content_block'', JObj [(''type'', JStr ''tool_use''), (''id'', JStr i), (''name'', JStr n)])]] @
      map input_delta ps @ [JObj [(''type'', JStr ''content_block_stop'')]]) =
   send_chunk limit
     \<lparr>ch_content = None,
      ch_tool_calls = Some [\<lparr>tc_id = i, tc_name = n, tc_arguments = unwrap_or (JObj []) (from_str (concat ps))\<rparr>],
      ch_finish_reason = None\<rparr> (s\<lparr>ss_tool := None\<rparr>)"
proof -
  let ?s1 = "s\<lparr>ss_tool := Some (i, n, [])\<rparr>"
  have "handle_event limit from_str (JObj [(''type'', JStr ''content_block_start''),
        (''content_block'', JObj [(''type'', JStr ''tool_use''), (''id'', JStr i), (''name'', JStr n)])]) s = ?s1"
    by (simp add: handle_event_def block_start_def get_str_def jget_def jindex_def as_str_def Let_def)
  moreover have "foldl (\<lambda>s e. handle_event limit from_str e s) ?s1 (map input_delta ps) =
      s\<lparr>ss_tool := Some (i, n, concat ps)\<rparr>"
    using input_deltas [of ?s1 i n "[]" limit from_str ps] by simp
  ultimately show ?thesis
    by (simp add: handle_event_def block_stop_def get_str_def jget_def as_str_def Let_def)
qed

section \<open>Properties\<close>

text \<open>
  Property C16.  A streamed response does not depend on how the network cuts it: whatever the
  chunks, the whole lines of the whole body are read once each in order (so no character is
  decoded in halves), up to the end of the message; a failure of the connection is reported after
  them; and a receiver that goes away only cuts the sequence short.
\<close>

theorem stream_chunking_irrelevant:
  "unbuffered (read_stream limit from_str
       (map Inr chunks @ (case failure of None \<Rightarrow> [] | Some e \<Rightarrow> Inl e # rest))) =
     (let s = read_lines limit from_str (whole_lines (concat chunks)) sse_start
      in case failure of None \<Rightarrow> s | Some e \<Rightarrow> if ss_done s then s else send_error limit e s) \<and>
   ss_sent (read_stream (Some n) from_str items) = take n (ss_sent (read_stream None from_str items))"
proof
  show "unbuffered (read_stream limit from_str
       (map Inr chunks @ (case failure of None \<Rightarrow> [] | Some e \<Rightarrow> Inl e # rest))) =
     (let s = read_lines limit from_str (whole_lines (concat chunks)) sse_start
      in case failure of None \<Rightarrow> s | Some e \<Rightarrow> if ss_done s then s else send_error limit e s)"
    by (cases failure) (simp_all add: read_stream_chunks read_stream_failed)
next
  note sent = read_stream_chunks [THEN arg_cong, of ss_sent, simplified]
    read_stream_failed [THEN arg_cong, of ss_sent, simplified]
  have cut: "cut_off n (read_lines (Some n) from_str ls sse_start) (read_lines None from_str ls sse_start)" for ls
    by (rule read_lines_cut) (simp add: cut_off_def sse_start_def)
  show "ss_sent (read_stream (Some n) from_str items) = take n (ss_sent (read_stream None from_str items))"
  proof (cases items rule: items_split)
    case (1 cs)
    with cut_off_take [OF cut] show ?thesis by (simp only: sent)
  next
    case (2 cs e rest)
    let ?s = "read_lines (Some n) from_str (whole_lines (concat cs)) sse_start"
    let ?u = "read_lines None from_str (whole_lines (concat cs)) sse_start"
    have "cut_off n (if ss_done ?s then ?s else send_error (Some n) e ?s)
        (if ss_done ?u then ?u else send_error None e ?u)"
      using cut [of "whole_lines (concat cs)"] send_error_cut [of ?s n e]
      by (auto simp: cut_off_def send_error_def [of None] receiver_open_def)
    with 2 cut_off_take show ?thesis by (simp only: sent Let_def)
  qed
qed

end
