(* ===== verification/Chat_Providers.thy ===== *)
theory Chat_Providers
  imports Exchange "HOL-Library.Word"
begin

text \<open>
  The OpenAI and Ollama providers (\<open>openai.rs\<close> and \<open>ollama.rs\<close> of \<open>boitata-core/src/provider\<close>).
  Both send one flat list of messages: a tool result becomes a message of its own, an image in
  it a placeholder.  Writing and reading the arguments of a call as JSON text are arguments.
\<close>

section \<open>OpenAI\<close>

record openai_provider =
  oa_api_key :: string
  oa_model :: string
  oa_max_tokens :: nat
  oa_base_url :: string

definition openai_with_config :: "string \<Rightarrow> string \<Rightarrow> string option \<Rightarrow> openai_provider" where
  "openai_with_config key model base =
     \<lparr>oa_api_key = key, oa_model = model, oa_max_tokens = 128000,
      oa_base_url = unwrap_or ''https://api.openai.com/v1/chat/completions'' base\<rparr>"

definition openai_with_max_tokens :: "openai_provider \<Rightarrow> nat \<Rightarrow> openai_provider" where
  "openai_with_max_tokens p n = p\<lparr>oa_max_tokens := n\<rparr>"

definition openai_debug :: "openai_provider \<Rightarrow> (string \<times> string) list" where
  "openai_debug p = [(''model'', oa_model p), (''base_url'', oa_base_url p)]"

text \<open>Messages; a call carries its arguments as JSON text.\<close>

record openai_tool_call =
  ot_id :: string
  ot_type :: string
  ot_name :: string
  ot_arguments :: string

record openai_message =
  om_role :: string
  om_content :: "string option"
  om_tool_calls :: "openai_tool_call list option"
  om_tool_call_id :: "string option"

fun role_text :: "message_role \<Rightarrow> string" where
  "role_text System = ''system''"
| "role_text User = ''user''"
| "role_text Assistant = ''assistant''"
| "role_text Tool = ''tool''"

definition openai_call :: "(json \<Rightarrow> string) \<Rightarrow> tool_call \<Rightarrow> openai_tool_call" where
  "openai_call to_text c =
     \<lparr>ot_id = tc_id c, ot_type = ''function'', ot_name = tc_name c, ot_arguments = to_text (tc_arguments c)\<rparr>"

definition openai_messages_of :: "(json \<Rightarrow> string) \<Rightarrow> message \<Rightarrow> openai_message list" where
  "openai_messages_of to_text m =
     (case msg_content m of
        MText text \<Rightarrow>
          [\<lparr>om_role = role_text (msg_role m), om_content = Some text, om_tool_calls = None, om_tool_call_id = None\<rparr>]
      | MToolResults results \<Rightarrow>
          map (\<lambda>r. \<lparr>om_role = ''tool'', om_content = Some (tool_content_text (tr_content r)),
                   om_tool_calls = None, om_tool_call_id = Some (tr_call_id r)\<rparr>) results
      | MToolUse text tool_calls \<Rightarrow>
          let calls = map (openai_call to_text) tool_calls
          in [\<lparr>om_role = ''assistant'', om_content = text,
               om_tool_calls = (if calls = [] then None else Some calls), om_tool_call_id = None\<rparr>])"

definition to_openai_messages :: "(json \<Rightarrow> string) \<Rightarrow> string option \<Rightarrow> message list \<Rightarrow> openai_message list" where
  "to_openai_messages to_text sys messages =
     (case sys of
        None \<Rightarrow> []
      | Some s \<Rightarrow> [\<lparr>om_role = ''system'', om_content = Some s, om_tool_calls = None, om_tool_call_id = None\<rparr>]) @
     concat (map (openai_messages_of to_text) messages)"

text \<open>The declaration of a tool, the same record for both providers.\<close>

record function_tool =
  fn_type :: string
  fn_name :: string
  fn_description :: string
  fn_parameters :: json

definition function_tool_of :: "tool_definition \<Rightarrow> function_tool" where
  "function_tool_of t =
     \<lparr>fn_type = ''function'', fn_name = td_name t, fn_description = td_description t,
      fn_parameters = td_input_schema t\<rparr>"

record openai_request =
  or_model :: string
  or_messages :: "openai_message list"
  or_max_tokens :: "nat option"
  or_temperature :: "string option"
  or_tools :: "function_tool list option"

definition openai_build_request :: "openai_provider \<Rightarrow> (json \<Rightarrow> string) \<Rightarrow> completion_request \<Rightarrow> openai_request" where
  "openai_build_request p to_text q =
     \<lparr>or_model = oa_model p, or_messages = to_openai_messages to_text (req_system q) (req_messages q),
      or_max_tokens = req_max_tokens q, or_temperature = req_temperature q,
      or_tools = map_option (map function_tool_of) (req_tools q)\<rparr>"

definition openai_call_json :: "openai_tool_call \<Rightarrow> json" where
  "openai_call_json c =
     JObj [(''id'', JStr (ot_id c)), (''type'', JStr (ot_type c)),
       (''function'', JObj [(''name'', JStr (ot_name c)), (''arguments'', JStr (ot_arguments c))])]"

definition openai_message_json :: "openai_message \<Rightarrow> json" where
  "openai_message_json m =
     JObj ([(''role'', JStr (om_role m))] @ opt_field ''content'' JStr (om_content m) @
       opt_field ''tool_calls'' (\<lambda>cs. JArr (map openai_call_json cs)) (om_tool_calls m) @
       opt_field ''tool_call_id'' JStr (om_tool_call_id m))"

definition function_tool_json :: "function_tool \<Rightarrow> json" where
  "function_tool_json t =
     JObj [(''type'', JStr (fn_type t)),
       (''function'', JObj [(''name'', JStr (fn_name t)), (''description'', JStr (fn_description t)),
          (''parameters'', fn_parameters t)])]"

definition openai_request_json :: "openai_request \<Rightarrow> json" where
  "openai_request_json r =
     JObj ([(''model'', JStr (or_model r)), (''messages'', JArr (map openai_message_json (or_messages r)))] @
       opt_field ''max_completion_tokens'' jnat (or_max_tokens r) @
       opt_field ''temperature'' (\<lambda>t. JNum (JFloat t)) (or_temperature r) @
       opt_field ''tools'' (\<lambda>ts. JArr (map function_tool_json ts)) (or_tools r))"

definition openai_http :: "openai_provider \<Rightarrow> openai_request \<Rightarrow> http_request" where
  "openai_http p r =
     \<lparr>hr_url = oa_base_url p,
      hr_headers = [(''authorization'', ''Bearer '' @ oa_api_key p), (''content-type'', ''application/json'')],
      hr_body = openai_request_json r\<rparr>"

text \<open>Responses: the first choice, with its message, and the token counts.\<close>

record openai_choice =
  oc_content :: "string option"
  oc_tool_calls :: "openai_tool_call list"
  oc_finish_reason :: "string option"

record openai_response =
  os_choices :: "openai_choice list"
  os_usage :: "(nat \<times> nat) option"

definition convert_openai_response ::
    "(string \<Rightarrow> json option) \<Rightarrow> openai_response \<Rightarrow> provider_error + completion_response" where
  "convert_openai_response from_str r =
     (case os_choices r of
        [] \<Rightarrow> Inl (InvalidResponse ''no choices in response'')
      | choice # _ \<Rightarrow>
          Inr \<lparr>resp_content = oc_content choice,
               resp_tool_calls =
                 map (\<lambda>tc. \<lparr>tc_id = ot_id tc, tc_name = ot_name tc,
                           tc_arguments = unwrap_or (JObj []) (from_str (ot_arguments tc))\<rparr>)
                   (oc_tool_calls choice),
               resp_usage = map_option (\<lambda>(prompt, completion).
                 \<lparr>input_tokens = prompt, output_tokens = completion,
                  cache_creation_input_tokens = None, cache_read_input_tokens = None\<rparr>) (os_usage r),
               resp_finish_reason = oc_finish_reason choice\<rparr>)"

definition parse_openai_error :: "nat \<Rightarrow> string \<Rightarrow> provider_error" where
  "parse_openai_error status body =
     (if status = 401 then AuthenticationFailed
      else if status = 429 then RateLimited
      else if status = 404 then ModelNotFound body
      else RequestFailed (''HTTP '' @ show_nat status @ '': '' @ body))"

definition openai_complete ::
    "openai_provider \<Rightarrow> (json \<Rightarrow> string) \<Rightarrow> (string \<Rightarrow> json option) \<Rightarrow> (http_request \<Rightarrow> http_outcome) \<Rightarrow>
     (string \<Rightarrow> string + openai_response) \<Rightarrow> completion_request \<Rightarrow> provider_error + completion_response" where
  "openai_complete p to_text from_str http decode q =
     and_then (post_json http (openai_http p (openai_build_request p to_text q)) parse_openai_error decode)
       (convert_openai_response from_str)"

definition openai_stream_complete ::
    "openai_provider \<Rightarrow> (json \<Rightarrow> string) \<Rightarrow> (string \<Rightarrow> json option) \<Rightarrow> (http_request \<Rightarrow> http_outcome) \<Rightarrow>
     (string \<Rightarrow> string + openai_response) \<Rightarrow> completion_request \<Rightarrow> provider_error + chunk list" where
  "openai_stream_complete p to_text from_str http decode q =
     and_then (openai_complete p to_text from_str http decode q) (\<lambda>r. Inr (single_chunk_stream r))"

section \<open>Ollama\<close>

record ollama_provider =
  ol_base_url :: string
  ol_model :: string
  ol_max_tokens :: nat

definition ollama_with_config :: "string \<Rightarrow> string option \<Rightarrow> ollama_provider" where
  "ollama_with_config model base =
     \<lparr>ol_base_url = unwrap_or ''http://localhost:11434'' base, ol_model = model, ol_max_tokens = 128000\<rparr>"

definition ollama_with_max_tokens :: "ollama_provider \<Rightarrow> nat \<Rightarrow> ollama_provider" where
  "ollama_with_max_tokens p n = p\<lparr>ol_max_tokens := n\<rparr>"

text \<open>A call has no id; its arguments are a JSON value.\<close>

record ollama_tool_call =
  lt_name :: string
  lt_arguments :: json

record ollama_message =
  lm_role :: string
  lm_content :: string
  lm_tool_calls :: "ollama_tool_call list option"

definition ollama_messages_of :: "message \<Rightarrow> ollama_message list" where
  "ollama_messages_of m =
     (case msg_content m of
        MText text \<Rightarrow> [\<lparr>lm_role = role_text (msg_role m), lm_content = text, lm_tool_calls = None\<rparr>]
      | MToolResults results \<Rightarrow>
          map (\<lambda>r. \<lparr>lm_role = ''tool'', lm_content = tool_content_text (tr_content r), lm_tool_calls = None\<rparr>) results
      | MToolUse text tool_calls \<Rightarrow>
          let calls = map (\<lambda>c. \<lparr>lt_name = tc_name c, lt_arguments = tc_arguments c\<rparr>) tool_calls
          in [\<lparr>lm_role = ''assistant'', lm_content = unwrap_or [] text,
               lm_tool_calls = (if calls = [] then None else Some calls)\<rparr>])"

definition to_ollama_messages :: "string option \<Rightarrow> message list \<Rightarrow> ollama_message list" where
  "to_ollama_messages sys messages =
     (case sys of None \<Rightarrow> [] | Some s \<Rightarrow> [\<lparr>lm_role = ''system'', lm_content = s, lm_tool_calls = None\<rparr>]) @
     concat (map ollama_messages_of messages)"

record ollama_options =
  lo_temperature :: "string option"
  lo_num_predict :: "int option"

text \<open>The token limit is cast to a signed 64-bit number, which wraps.\<close>

definition as_i64 :: "nat \<Rightarrow> int" where
  "as_i64 n = sint (word_of_nat n :: 64 word)"

record ollama_request =
  lr_model :: string
  lr_messages :: "ollama_message list"
  lr_stream :: bool
  lr_tools :: "function_tool list option"
  lr_options :: "ollama_options option"

definition ollama_build_request :: "ollama_provider \<Rightarrow> completion_request \<Rightarrow> ollama_request" where
  "ollama_build_request p q =
     \<lparr>lr_model = ol_model p, lr_messages = to_ollama_messages (req_system q) (req_messages q),
      lr_stream = False, lr_tools = map_option (map function_tool_of) (req_tools q),
      lr_options =
        (if req_temperature q \<noteq> None \<or> req_max_tokens q \<noteq> None
         then Some \<lparr>lo_temperature = req_temperature q, lo_num_predict = map_option as_i64 (req_max_tokens q)\<rparr>
         else None)\<rparr>"

definition jint :: "int \<Rightarrow> json" where
  "jint i = JNum (if 0 \<le> i then PosInt (nat i) else NegInt i)"

definition ollama_message_json :: "ollama_message \<Rightarrow> json" where
  "ollama_message_json m =
     JObj ([(''role'', JStr (lm_role m)), (''content'', JStr (lm_content m))] @
       opt_field ''tool_calls''
         (\<lambda>cs. JArr (map (\<lambda>c. JObj [(''function'', JObj [(''name'', JStr (lt_name c)), (''arguments'', lt_arguments c)])]) cs))
         (lm_tool_calls m))"

definition ollama_request_json :: "ollama_request \<Rightarrow> json" where
  "ollama_request_json r =
     JObj ([(''model'', JStr (lr_model r)), (''messages'', JArr (map ollama_message_json (lr_messages r))),
         (''stream'', JBool (lr_stream r))] @
       opt_field ''tools'' (\<lambda>ts. JArr (map function_tool_json ts)) (lr_tools r) @
       opt_field ''options''
         (\<lambda>opts. JObj (opt_field ''temperature'' (\<lambda>t. JNum (JFloat t)) (lo_temperature opts) @
            opt_field ''num_predict'' jint (lo_num_predict opts))) (lr_options r))"

definition trim_slashes :: "string \<Rightarrow> string" where
  "trim_slashes s = rev (dropWhile (\<lambda>c. c = CHR ''/'') (rev s))"

definition ollama_http :: "ollama_provider \<Rightarrow> ollama_request \<Rightarrow> http_request" where
  "ollama_http p r =
     \<lparr>hr_url = trim_slashes (ol_base_url p) @ ''/api/chat'',
      hr_headers = [(''content-type'', ''application/json'')], hr_body = ollama_request_json r\<rparr>"

record ollama_response =
  ls_content :: string
  ls_tool_calls :: "ollama_tool_call list"
  ls_done_reason :: "string option"
  ls_prompt_eval_count :: nat
  ls_eval_count :: nat

text \<open>The fresh ids are drawn from \<open>uuids\<close>.\<close>

definition convert_ollama_response :: "(nat \<Rightarrow> string) \<Rightarrow> ollama_response \<Rightarrow> completion_response" where
  "convert_ollama_response uuids r =
     \<lparr>resp_content = (if ls_content r = [] then None else Some (ls_content r)),
      resp_tool_calls =
        map (\<lambda>(i, tc). \<lparr>tc_id = uuids i, tc_name = lt_name tc, tc_arguments = lt_arguments tc\<rparr>)
          (enumerate 0 (ls_tool_calls r)),
      resp_usage = Some \<lparr>input_tokens = ls_prompt_eval_count r, output_tokens = ls_eval_count r,
        cache_creation_input_tokens = None, cache_read_input_tokens = None\<rparr>,
      resp_finish_reason = ls_done_reason r\<rparr>"

definition parse_ollama_error :: "nat \<Rightarrow> string \<Rightarrow> provider_error" where
  "parse_ollama_error status body =
     (if status = 404 then ModelNotFound body
      else RequestFailed (''HTTP '' @ show_nat status @ '': '' @ body))"

definition ollama_complete ::
    "ollama_provider \<Rightarrow> (nat \<Rightarrow> string) \<Rightarrow> (http_request \<Rightarrow> http_outcome) \<Rightarrow>
     (string \<Rightarrow> string + ollama_response) \<Rightarrow> completion_request \<Rightarrow> provider_error + completion_response" where
  "ollama_complete p uuids http decode q =
     and_then (post_json http (ollama_http p (ollama_build_request p q)) parse_ollama_error decode)
       (\<lambda>r. Inr (convert_ollama_response uuids r))"

definition ollama_stream_complete ::
    "ollama_provider \<Rightarrow> (nat \<Rightarrow> string) \<Rightarrow> (http_request \<Rightarrow> http_outcome) \<Rightarrow>
     (string \<Rightarrow> string + ollama_response) \<Rightarrow> completion_request \<Rightarrow> provider_error + chunk list" where
  "ollama_stream_complete p uuids http decode q =
     and_then (ollama_complete p uuids http decode q) (\<lambda>r. Inr (single_chunk_stream r))"

end
