(* ===== verification/Provider_Wire.thy ===== *)
theory Provider_Wire
  imports Agent_Loop Anthropic Chat_Providers
begin

text \<open>
  What the providers put on the wire: the calls and results of a history survive the translation,
  and the requests of an agent run are ones the strictest of the three accepts.
\<close>

section \<open>Reading the wire\<close>

text \<open>The calls and results of a message, in order.\<close>

definition history_refs :: "message \<Rightarrow> (tool_call + tool_result) list" where
  "history_refs m =
     (case msg_content m of
        MText t \<Rightarrow> []
      | MToolResults rs \<Rightarrow> map Inr rs
      | MToolUse t cs \<Rightarrow> map Inl cs)"

fun block_back :: "anthropic_result_block \<Rightarrow> tool_content" where
  "block_back (ARText t) = TText t"
| "block_back (ARImage source_type mt d) = TImage mt d"

fun content_ref :: "anthropic_content \<Rightarrow> (tool_call + tool_result) option" where
  "content_ref (AText t) = None"
| "content_ref (AToolUse i n v) = Some (Inl \<lparr>tc_id = i, tc_name = n, tc_arguments = v\<rparr>)"
| "content_ref (AToolResult i bs e) =
     Some (Inr \<lparr>tr_call_id = i, tr_content = map block_back bs, tr_is_error = e\<rparr>)"

definition anthropic_refs :: "anthropic_message list \<Rightarrow> (tool_call + tool_result) list" where
  "anthropic_refs ms = concat (map (\<lambda>m. List.map_filter content_ref (am_content m)) ms)"

definition openai_refs :: "openai_message list \<Rightarrow> (openai_tool_call + string \<times> string) list" where
  "openai_refs ms =
     concat (map (\<lambda>m. map Inl (unwrap_or [] (om_tool_calls m)) @
       (case om_tool_call_id m of None \<Rightarrow> [] | Some i \<Rightarrow> [Inr (i, unwrap_or [] (om_content m))])) ms)"

text \<open>Ollama pairs results with calls by role and order.\<close>

definition ollama_refs :: "ollama_message list \<Rightarrow> (ollama_tool_call + string) list" where
  "ollama_refs ms =
     concat (map (\<lambda>m. map Inl (unwrap_or [] (lm_tool_calls m)) @
       (if lm_role m = ''tool'' then [Inr (lm_content m)] else [])) ms)"

definition named_ref :: "(json \<Rightarrow> string) \<Rightarrow> tool_call + tool_result \<Rightarrow> openai_tool_call + string \<times> string" where
  "named_ref to_text = map_sum (openai_call to_text) (\<lambda>r. (tr_call_id r, tool_content_text (tr_content r)))"

definition nameless_ref :: "tool_call + tool_result \<Rightarrow> ollama_tool_call + string" where
  "nameless_ref =
     map_sum (\<lambda>c. \<lparr>lt_name = tc_name c, lt_arguments = tc_arguments c\<rparr>) (\<lambda>r. tool_content_text (tr_content r))"

text \<open>A text under the tool role, which no operation of a conversation writes.\<close>

definition tool_text :: "message \<Rightarrow> bool" where
  "tool_text m \<longleftrightarrow> msg_role m = Tool \<and> (case msg_content m of MText t \<Rightarrow> True | _ \<Rightarrow> False)"

section \<open>The translations keep them\<close>

lemma map_filter_map: "List.map_filter f (map g xs) = List.map_filter (f \<circ> g) xs"
  by (simp add: List.map_filter_def filter_map comp_def)

lemma map_filter_Some: "List.map_filter (\<lambda>x. Some (g x)) xs = map g xs"
  by (simp add: List.map_filter_def comp_def)

lemma map_filter_append: "List.map_filter f (xs @ ys) = List.map_filter f xs @ List.map_filter f ys"
  by (simp add: List.map_filter_def)

lemma map_filter_Cons_opt: "List.map_filter f (x # xs) = (case f x of None \<Rightarrow> [] | Some y \<Rightarrow> [y]) @ List.map_filter f xs"
  by (simp add: List.map_filter_def split: option.split)

lemma block_back_blocks: "map block_back (tool_result_blocks c) = c"
  by (induction c) (auto simp: tool_result_blocks_def split: tool_content.split)

lemma anthropic_blocks_refs: "List.map_filter content_ref (anthropic_blocks (msg_content m)) = history_refs m"
  by (cases "msg_content m")
    (auto simp: history_refs_def map_filter_append map_filter_map comp_def map_filter_Some block_back_blocks
      map_filter_Cons_opt List.map_filter_def split: option.split)

lemma anthropic_refs_request:
  "anthropic_refs (ar_messages (anthropic_build_request p q)) =
     concat (map history_refs (filter (\<lambda>m. msg_role m \<noteq> System) (req_messages q)))"
proof -
  have "anthropic_refs (List.map_filter anthropic_message_of ms) =
      concat (map history_refs (filter (\<lambda>m. msg_role m \<noteq> System) ms))" for ms
  proof (induction ms)
    case (Cons m ms)
    then show ?case
      by (cases "msg_role m")
        (simp_all add: map_filter_Cons_opt anthropic_message_of_def anthropic_refs_def anthropic_blocks_refs)
  qed (simp add: anthropic_refs_def List.map_filter_def)
  then show ?thesis by (simp add: anthropic_build_request_def)
qed

lemma openai_refs_append: "openai_refs (xs @ ys) = openai_refs xs @ openai_refs ys"
  by (simp add: openai_refs_def)

lemma openai_message_refs: "openai_refs (openai_messages_of to_text m) = map (named_ref to_text) (history_refs m)"
proof (cases "msg_content m")
  case (MToolResults rs)
  have "openai_refs (map (\<lambda>r. \<lparr>om_role = ''tool'', om_content = Some (tool_content_text (tr_content r)),
      om_tool_calls = None, om_tool_call_id = Some (tr_call_id r)\<rparr>) rs) = map (named_ref to_text) (map Inr rs)"
    by (induction rs) (simp_all add: openai_refs_def named_ref_def)
  with MToolResults show ?thesis by (simp add: openai_messages_of_def history_refs_def)
qed (simp_all add: openai_refs_def openai_messages_of_def history_refs_def named_ref_def)

lemma openai_refs_messages:
  "openai_refs (to_openai_messages to_text sys ms) = map (named_ref to_text) (concat (map history_refs ms))"
proof -
  have "openai_refs (concat (map (openai_messages_of to_text) ms)) = map (named_ref to_text) (concat (map history_refs ms))"
    by (induction ms) (simp_all add: openai_refs_append openai_message_refs openai_refs_def [of "[]"])
  then show ?thesis by (simp add: to_openai_messages_def openai_refs_append split: option.split)
      (simp add: openai_refs_def)
qed

lemma ollama_refs_append: "ollama_refs (xs @ ys) = ollama_refs xs @ ollama_refs ys"
  by (simp add: ollama_refs_def)

lemma ollama_message_refs:
  "\<not> tool_text m \<Longrightarrow> ollama_refs (ollama_messages_of m) = map nameless_ref (history_refs m)"
proof (cases "msg_content m")
  case (MToolResults rs)
  have "ollama_refs (map (\<lambda>r. \<lparr>lm_role = ''tool'', lm_content = tool_content_text (tr_content r),
      lm_tool_calls = None\<rparr>) rs) = map nameless_ref (map Inr rs)"
    by (induction rs) (simp_all add: ollama_refs_def nameless_ref_def)
  with MToolResults show ?thesis by (simp add: ollama_messages_of_def history_refs_def)
next
  case (MText t)
  moreover assume "\<not> tool_text m"
  ultimately show ?thesis
    by (cases "msg_role m") (simp_all add: ollama_refs_def ollama_messages_of_def history_refs_def tool_text_def)
qed (simp add: ollama_refs_def ollama_messages_of_def history_refs_def nameless_ref_def)

lemma ollama_refs_messages:
  "list_all (\<lambda>m. \<not> tool_text m) ms \<Longrightarrow>
   ollama_refs (to_ollama_messages sys ms) = map nameless_ref (concat (map history_refs ms))"
proof -
  assume "list_all (\<lambda>m. \<not> tool_text m) ms"
  then have "ollama_refs (concat (map ollama_messages_of ms)) = map nameless_ref (concat (map history_refs ms))"
    by (induction ms) (simp_all add: ollama_refs_append ollama_message_refs ollama_refs_def [of "[]"])
  then show ?thesis by (simp add: to_ollama_messages_def ollama_refs_append split: option.split)
      (simp add: ollama_refs_def)
qed

section \<open>What the strictest provider requires\<close>

text \<open>
  The Messages API: a user message first; every assistant message with tool calls is followed by a
  user message that holds exactly the results of those calls.
\<close>

definition use_ids :: "anthropic_message \<Rightarrow> string list" where
  "use_ids m = List.map_filter (\<lambda>c. case c of AToolUse i n v \<Rightarrow> Some i | _ \<Rightarrow> None) (am_content m)"

definition result_ids :: "anthropic_message \<Rightarrow> string list" where
  "result_ids m = List.map_filter (\<lambda>c. case c of AToolResult i bs e \<Rightarrow> Some i | _ \<Rightarrow> None) (am_content m)"

fun api_turns :: "anthropic_message list \<Rightarrow> bool" where
  "api_turns [] = True"
| "api_turns [a] = False"
| "api_turns (a # u # ms) \<longleftrightarrow>
     am_role a = ''assistant'' \<and> am_role u = ''user'' \<and> use_ids a = result_ids u \<and> result_ids a = [] \<and>
     length (result_ids u) = length (am_content u) \<and> api_turns ms"

definition api_accepts :: "anthropic_provider \<Rightarrow> anthropic_request \<Rightarrow> bool" where
  "api_accepts p r \<longleftrightarrow>
     (case ar_messages r of
        [] \<Rightarrow> False
      | m # ms \<Rightarrow> am_role m = ''user'' \<and> (\<exists>t. am_content m = [AText t]) \<and> api_turns ms) \<and>
     ar_max_tokens r \<le> an_max_tokens p"

lemma use_ids_blocks:
  "use_ids \<lparr>am_role = r, am_content = anthropic_blocks (MToolUse t cs)\<rparr> = map tc_id cs"
  "result_ids \<lparr>am_role = r, am_content = anthropic_blocks (MToolUse t cs)\<rparr> = []"
  "result_ids \<lparr>am_role = r, am_content = anthropic_blocks (MToolResults rs)\<rparr> = map tr_call_id rs"
  by (auto simp: use_ids_def result_ids_def map_filter_append map_filter_map comp_def map_filter_Some
      map_filter_Cons_opt List.map_filter_def split: option.split)

definition provider_message :: "context_message \<Rightarrow> message" where
  "provider_message m = \<lparr>msg_role = cm_role m, msg_content = provider_content (cm_content m)\<rparr>"

lemma api_turns_of_turns:
  "turns ms \<Longrightarrow> api_turns (List.map_filter anthropic_message_of (map provider_message ms))"
proof (induction ms rule: turns.induct)
  case (3 a r ms)
  then obtain t calls results where "cm_content a = CToolUse t calls" "cm_content r = CToolResults results"
      "cm_role a = Assistant" "cm_role r = Tool" "map tr_call_id results = map tc_id calls"
    by (auto simp: answers_def split: context_content.splits)
  moreover from this(5) have "length results = length calls" by (rule map_eq_imp_length_eq)
  moreover have "length (anthropic_blocks (MToolResults results)) = length results" by simp
  ultimately show ?case
    using 3 by (simp add: map_filter_Cons_opt anthropic_message_of_def provider_message_def use_ids_blocks
        del: anthropic_blocks.simps)
qed (simp_all add: List.map_filter_def)

lemma sendable_accepted: "sendable q \<Longrightarrow> api_accepts p (anthropic_build_request p q)"
proof -
  assume "sendable q"
  then obtain c where c: "well_formed_history (cx_messages c)" "req_messages q = to_messages c"
    by (auto simp: sendable_def)
  then obtain m ts t where m: "cx_messages c = m # ts" "cm_role m = User" "cm_content m = CText t" "turns ts"
    by (auto simp: well_formed_history_def split: list.splits context_content.splits)
  have "req_messages q = provider_message m # map provider_message ts"
    using c(2) m(1) by (simp add: to_messages_def provider_message_def)
  with m api_turns_of_turns [OF m(4)] show ?thesis
    by (simp add: api_accepts_def anthropic_build_request_def map_filter_Cons_opt anthropic_message_of_def
        provider_message_def [of m])
qed

section \<open>Properties\<close>



definition sample_request :: completion_request where
  "sample_request =
     \<lparr>req_messages =
        [\<lparr>msg_role = User, msg_content = MText ''go''\<rparr>,
         \<lparr>msg_role = Assistant,
          msg_content = MToolUse (Some '''') [\<lparr>tc_id = ''a'', tc_name = ''search'', tc_arguments = JObj []\<rparr>]\<rparr>,
         \<lparr>msg_role = Tool,
          msg_content = MToolResults [\<lparr>tr_call_id = ''a'', tr_content = [TText ''one''], tr_is_error = Some False\<rparr>]\<rparr>],
      req_tools = None, req_max_tokens = Some 9000, req_temperature = None, req_system = None\<rparr>"


end
