(* ===== verification/Workspace.thy ===== *)
theory Workspace
  imports Tools
begin

text \<open>
  Workspace confinement (\<open>boitata-core/src/tools/workspace.rs\<close>) over a model of paths and of the
  file system.

  A \<open>Path\<close> is the list of its components, the form in which Rust compares, joins and strips
  paths; a trailing separator is not visible in it.  The file system maps the names on the way
  from the root to a file, a directory or a symbolic link; \<open>walk\<close> is the resolution of a path
  as the kernel and \<open>realpath\<close> do it, with their limit of forty links.
\<close>

section \<open>Paths\<close>

datatype path_component = RootDir | CurDir | ParentDir | Normal string

type_synonym path = "path_component list"

fun split_slash :: "string \<Rightarrow> string list" where
  "split_slash [] = [[]]"
| "split_slash (c # cs) =
     (if c = CHR ''/'' then [] # split_slash cs
      else (case split_slash cs of [] \<Rightarrow> [[c]] | p # ps \<Rightarrow> (c # p) # ps))"

definition component_of :: "string \<Rightarrow> path_component option" where
  "component_of s = (if s = '''' \<or> s = ''.'' then None
                     else if s = ''..'' then Some ParentDir else Some (Normal s))"

text \<open>\<open>Path::components\<close>: a dot is kept only as the first component of a relative path.\<close>

definition path_components :: "string \<Rightarrow> path" where
  "path_components s =
     (let pieces = split_slash s;
          first = (if prefix ''/'' s then [RootDir] else if hd pieces = ''.'' then [CurDir] else [])
      in first @ List.map_filter component_of pieces)"

definition is_absolute :: "path \<Rightarrow> bool" where
  "is_absolute p \<longleftrightarrow> (case p of RootDir # cs \<Rightarrow> True | _ \<Rightarrow> False)"

definition path_join :: "path \<Rightarrow> path \<Rightarrow> path" where
  "path_join a b = (if is_absolute b then b else if a = [] then b else a @ filter (\<lambda>c. c \<noteq> CurDir) b)"

fun ancestors :: "path \<Rightarrow> path list" where
  "ancestors p = p # (if p = [] \<or> p = [RootDir] then [] else ancestors (butlast p))"

declare ancestors.simps [simp del]

section \<open>The file system\<close>

datatype fs_entry = RegularFile string nat | Directory | Symlink string

record filesystem =
  fs_entries :: "string list \<rightharpoonup> fs_entry"
  fs_cwd :: "string list"

datatype io_error = IoNotFound | IoNotADirectory | IoIsADirectory | IoTooManyLinks | IoOther string

text \<open>
  Resolution from the directory \<open>cur\<close> with \<open>n\<close> links left.  \<open>mk\<close> is \<open>O_CREAT\<close>: a missing last
  component is then the file to create.
\<close>

function walk ::
    "bool \<Rightarrow> (string list \<rightharpoonup> fs_entry) \<Rightarrow> nat \<Rightarrow> string list \<Rightarrow> path \<Rightarrow> io_error + string list" where
  "walk mk es n cur [] = Inr cur"
| "walk mk es n cur (RootDir # cs) = walk mk es n [] cs"
| "walk mk es n cur (CurDir # cs) =
     (if es cur = Some Directory then walk mk es n cur cs else Inl IoNotADirectory)"
| "walk mk es n cur (ParentDir # cs) =
     (if es cur = Some Directory then walk mk es n (butlast cur) cs else Inl IoNotADirectory)"
| "walk mk es n cur (Normal x # cs) =
     (if es cur \<noteq> Some Directory then Inl IoNotADirectory
      else (case es (cur @ [x]) of
              None \<Rightarrow> if mk \<and> cs = [] then Inr (cur @ [x]) else Inl IoNotFound
            | Some (Symlink t) \<Rightarrow>
                if n = 0 then Inl IoTooManyLinks
                else walk mk es (n - 1) cur (path_components t @ cs)
            | Some (RegularFile body mode) \<Rightarrow> walk mk es n (cur @ [x]) cs
            | Some Directory \<Rightarrow> walk mk es n (cur @ [x]) cs))"
  by pat_completeness auto
termination
  by (relation "measures [\<lambda>(mk, es, n, cur, cs). n, \<lambda>(mk, es, n, cur, cs). length cs]") auto

definition max_symlinks :: nat where
  "max_symlinks = 40"

definition start_dir :: "filesystem \<Rightarrow> path \<Rightarrow> string list" where
  "start_dir fs p = (if is_absolute p then [] else fs_cwd fs)"

definition resolve_path :: "bool \<Rightarrow> filesystem \<Rightarrow> path \<Rightarrow> io_error + string list" where
  "resolve_path mk fs p =
     (if p = [] then Inl IoNotFound else walk mk (fs_entries fs) max_symlinks (start_dir fs p) p)"

definition path_of :: "string list \<Rightarrow> path" where
  "path_of c = RootDir # map Normal c"

definition canonicalize :: "filesystem \<Rightarrow> path \<Rightarrow> io_error + path" where
  "canonicalize fs p = and_then (resolve_path False fs p) (\<lambda>c. Inr (path_of c))"

text \<open>\<open>std::path::absolute\<close>: fails on an empty path only.\<close>

definition path_absolute :: "filesystem \<Rightarrow> path \<Rightarrow> path option" where
  "path_absolute fs p =
     (if p = [] then None else if is_absolute p then Some p else Some (path_join (path_of (fs_cwd fs)) p))"

section \<open>Confinement\<close>

text \<open>\<open>ROOT\<close> is \<open>None\<close> until \<open>init\<close> ran once.\<close>

definition ws_init :: "filesystem \<Rightarrow> path option option \<Rightarrow> path option \<Rightarrow> path option option" where
  "ws_init fs st root =
     (let resolved = map_option (\<lambda>r. case canonicalize fs r of
                                       Inr c \<Rightarrow> c
                                     | Inl e \<Rightarrow> unwrap_or r (path_absolute fs r)) root
      in case st of None \<Rightarrow> Some resolved | Some old \<Rightarrow> Some old)"

definition normalize_step :: "path \<Rightarrow> path_component \<Rightarrow> path" where
  "normalize_step out c =
     (case c of
        ParentDir \<Rightarrow>
          if out = [] then out @ [ParentDir]
          else (case last out of Normal x \<Rightarrow> butlast out | RootDir \<Rightarrow> out | _ \<Rightarrow> out @ [ParentDir])
      | CurDir \<Rightarrow> out
      | RootDir \<Rightarrow> [RootDir]
      | other \<Rightarrow> out @ [other])"

definition lexical_normalize :: "path \<Rightarrow> path" where
  "lexical_normalize p = foldl normalize_step [] p"

fun resolve_first :: "filesystem \<Rightarrow> path \<Rightarrow> path list \<Rightarrow> path" where
  "resolve_first fs p [] = p"
| "resolve_first fs p (a # as) =
     (case canonicalize fs a of
        Inr c \<Rightarrow> (let rest = drop (length a) p in if rest = [] then c else path_join c rest)
      | Inl e \<Rightarrow> resolve_first fs p as)"

definition resolve_existing_prefix :: "filesystem \<Rightarrow> path \<Rightarrow> path" where
  "resolve_existing_prefix fs p = resolve_first fs p (ancestors p)"

definition confine_within :: "filesystem \<Rightarrow> path option \<Rightarrow> string \<Rightarrow> tool_error + path" where
  "confine_within fs root path =
     (case root of
        None \<Rightarrow> Inr (path_components path)
      | Some root \<Rightarrow>
          if \<not> is_absolute root
          then Inl (ExecutionFailed ''workspace root is not absolute; refusing to resolve path'')
          else
            let requested = path_components path;
                joined = (if is_absolute requested then requested else path_join root requested);
                resolved = resolve_existing_prefix fs (lexical_normalize joined)
            in if prefix root resolved then Inr resolved
               else Inl (ExecutionFailed (''path '' @ bt @ path @ bt @ '' resolves outside the workspace root'')))"

definition confine :: "filesystem \<Rightarrow> path option option \<Rightarrow> string \<Rightarrow> tool_error + path" where
  "confine fs st path = confine_within fs (Option.bind st (\<lambda>r. r)) path"


section \<open>Resolution\<close>

text \<open>A location reached through directories only, itself present and not a link.\<close>

definition located :: "(string list \<rightharpoonup> fs_entry) \<Rightarrow> string list \<Rightarrow> bool" where
  "located es c \<longleftrightarrow>
     (\<forall>k < length c. es (take k c) = Some Directory) \<and>
     (case es c of None \<Rightarrow> False | Some (Symlink t) \<Rightarrow> False | Some e \<Rightarrow> True)"

lemma located_butlast: "located es c \<Longrightarrow> located es (butlast c)"
  by (cases c rule: rev_cases) (auto simp: located_def nth_append)

lemma located_snoc:
  assumes "located es c" "es c = Some Directory" "es (c @ [x]) = Some e" "\<nexists>t. e = Symlink t"
  shows "located es (c @ [x])"
proof -
  have "es (take k (c @ [x])) = Some Directory" if "k < length (c @ [x])" for k
    using assms(1,2) that by (cases "k = length c") (auto simp: located_def)
  with assms(3,4) show ?thesis by (auto simp: located_def split: fs_entry.split)
qed

lemma walk_located:
  "walk False es n cur cs = Inr c \<Longrightarrow> located es [] \<Longrightarrow> located es cur \<Longrightarrow> located es c"
proof (induction False es n cur cs rule: walk.induct)
  case (5 es n cur x cs)
  then show ?case
    by (auto split: if_splits option.splits fs_entry.splits intro: located_snoc)
qed (auto intro: located_butlast split: if_splits)

lemma walk_plain: "located es (cur @ xs) \<Longrightarrow> walk mk es n cur (map Normal xs @ cs) = walk mk es n (cur @ xs) cs"
proof (induction xs arbitrary: cur)
  case (Cons x xs)
  have dirs: "es (take k (cur @ x # xs)) = Some Directory" if "k < length cur + Suc (length xs)" for k
    using Cons.prems that by (simp add: located_def)
  from dirs [of "length cur"] have dir: "es cur = Some Directory" by simp
  have "\<exists>e. es (cur @ [x]) = Some e \<and> (\<nexists>t. e = Symlink t)"
  proof (cases xs)
    case Nil
    with Cons.prems show ?thesis by (auto simp: located_def split: option.splits fs_entry.splits)
  next
    case (Cons y ys)
    with dirs [of "Suc (length cur)"] show ?thesis by simp
  qed
  with Cons.IH [of "cur @ [x]"] Cons.prems dir show ?case by (auto split: fs_entry.split)
qed simp

text \<open>More links never turn a result or a failure other than the link limit into another.\<close>

lemma walk_more_links:
  "walk mk es n cur cs = res \<Longrightarrow> res \<noteq> Inl IoTooManyLinks \<Longrightarrow> n \<le> m \<Longrightarrow> walk mk es m cur cs = res"
proof (induction mk es n cur cs arbitrary: m rule: walk.induct)
  case (5 mk es n cur x cs)
  note prems = "5.prems"
  show ?case
  proof (cases "es cur = Some Directory \<and> (\<exists>t. es (cur @ [x]) = Some (Symlink t))")
    case True
    then obtain t where t: "es cur = Some Directory" "es (cur @ [x]) = Some (Symlink t)" by blast
    with prems have n: "n \<noteq> 0" "walk mk es (n - 1) cur (path_components t @ cs) = res" "n - 1 \<le> m - 1"
      by (auto split: if_splits)
    have "walk mk es (m - 1) cur (path_components t @ cs) = res"
      using "5.IH"(3) t n prems(2) by simp
    with t n(1) prems(3) show ?thesis by simp
  next
    case False
    show ?thesis
    proof (cases "es cur = Some Directory \<and> es (cur @ [x]) \<noteq> None")
      case True
      with False have "walk mk es n (cur @ [x]) cs = res"
        using prems(1) by (auto split: fs_entry.splits)
      moreover have "walk mk es m (cur @ [x]) cs = res"
      proof (cases "the (es (cur @ [x]))")
        case (RegularFile body mode)
        with True have "es (cur @ [x]) = Some (RegularFile body mode)" by auto
        from "5.IH"(1) [OF _ this refl calculation prems(2,3)] True show ?thesis by simp
      next
        case Directory
        with True have "es (cur @ [x]) = Some Directory" by auto
        from "5.IH"(2) [OF _ this refl calculation prems(2,3)] True show ?thesis by simp
      next
        case (Symlink t)
        with True False show ?thesis by auto
      qed
      ultimately show ?thesis using True False by (auto split: fs_entry.split)
    next
      case none: False
      with prems(1) show ?thesis by (auto split: if_splits)
    qed
  qed
qed (auto split: if_splits)

text \<open>Resolving a prefix leaves some of the links for what follows.\<close>

lemma walk_append:
  "walk False es n cur cs = Inr c \<Longrightarrow> \<exists>m \<le> n. \<forall>ds. walk False es n cur (cs @ ds) = walk False es m c ds"
proof (induction False es n cur cs rule: walk.induct)
  case (5 es n cur x cs)
  show ?case
  proof (cases "es (cur @ [x])")
    case (Some e)
    show ?thesis
    proof (cases e)
      case (Symlink t)
      with 5 Some obtain m where "m \<le> n - 1"
        "\<forall>ds. walk False es (n - 1) cur ((path_components t @ cs) @ ds) = walk False es m c ds"
        by (auto split: if_splits)
      with 5 Some Symlink show ?thesis by (intro exI [of _ m]) (auto split: if_splits)
    qed (use 5 Some in \<open>auto split: if_splits\<close>)
  qed (use 5 in \<open>auto split: if_splits\<close>)
qed (auto split: if_splits)


lemma walk_error_append: "walk False es n cur cs = Inl e \<Longrightarrow> walk False es n cur (cs @ ds) = Inl e"
proof (induction False es n cur cs rule: walk.induct)
  case (5 es n cur x cs)
  show ?case
  proof (cases "es (cur @ [x])")
    case (Some e)
    with 5 show ?thesis by (cases e) (auto split: if_splits)
  qed (use 5 in \<open>auto split: if_splits\<close>)
qed (auto split: if_splits)

section \<open>Confined paths\<close>

lemma path_of_simps [simp]:
  "is_absolute (path_of c)" "path_of c \<noteq> []" "path_of c = path_of d \<longleftrightarrow> c = d"
  by (auto simp: path_of_def is_absolute_def inj_map_eq_map inj_def)

lemma path_of_append: "path_of (c @ d) = path_of c @ map Normal d"
  by (simp add: path_of_def)

lemma normalize_step_plain: "\<exists>ys. normalize_step (path_of xs) c = path_of ys"
proof (cases c)
  case RootDir
  then show ?thesis by (intro exI [of _ "[]"]) (simp add: normalize_step_def path_of_def)
next
  case CurDir
  then show ?thesis by (auto simp: normalize_step_def)
next
  case ParentDir
  then show ?thesis
    by (cases xs rule: rev_cases) (auto simp: normalize_step_def path_of_def butlast_append
        intro: exI [of _ "[]"])
next
  case (Normal x)
  then show ?thesis by (intro exI [of _ "xs @ [x]"]) (simp add: normalize_step_def path_of_def)
qed

lemma foldl_normalize_plain: "\<exists>ys. foldl normalize_step (path_of xs) cs = path_of ys"
proof (induction cs arbitrary: xs)
  case (Cons c cs)
  then show ?case using normalize_step_plain [of xs c] by auto
qed auto

lemma lexical_normalize_plain:
  assumes "is_absolute p"
  shows "\<exists>ys. lexical_normalize p = path_of ys"
proof -
  obtain cs where p: "p = RootDir # cs" using assms by (auto simp: is_absolute_def split: list.splits path_component.splits)
  have "normalize_step [] RootDir = path_of []" by (simp add: normalize_step_def path_of_def)
  with p foldl_normalize_plain [of "[]" cs] show ?thesis by (simp add: lexical_normalize_def)
qed

lemma resolve_path_of: "resolve_path mk fs (path_of c) = walk mk (fs_entries fs) max_symlinks [] (map Normal c)"
  by (simp add: resolve_path_def start_dir_def) (simp add: path_of_def)

lemma canonicalize_path_of:
  "canonicalize fs (path_of a) = Inr q \<longleftrightarrow> (\<exists>c. q = path_of c \<and> resolve_path False fs (path_of a) = Inr c)"
  by (auto simp: canonicalize_def and_then_Inr_iff)

lemma ancestors_path_of:
  "ancestors (path_of []) = [path_of []]"
  "ancestors (path_of (a @ [x])) = path_of (a @ [x]) # ancestors (path_of a)"
  by (subst ancestors.simps, simp add: path_of_def butlast_append)+

lemma resolve_first_prefix:
  assumes "fs_entries fs [] = Some Directory"
  shows "\<exists>b d c. a = b @ d \<and> resolve_path False fs (path_of b) = Inr c \<and>
    resolve_first fs (path_of (a @ t)) (ancestors (path_of a)) = path_of (c @ d @ t) \<and>
    (d \<noteq> [] \<longrightarrow> (\<exists>e. resolve_path False fs (path_of (b @ [hd d])) = Inl e))"
proof (induction a arbitrary: t rule: rev_induct)
  case Nil
  then show ?case using assms
    by (auto simp: ancestors_path_of canonicalize_def resolve_path_of Let_def path_join_def is_absolute_def
        split: list.splits)
      (auto simp: path_of_def)
next
  case (snoc x a)
  show ?case
  proof (cases "resolve_path False fs (path_of (a @ [x]))")
    case (Inr c)
    have "is_absolute (map Normal t) = False" by (cases t) (simp_all add: is_absolute_def)
    moreover have "filter (\<lambda>c. c \<noteq> CurDir) (map Normal t) = map Normal t" by (simp add: filter_map comp_def)
    moreover have "drop (length (path_of (a @ [x]))) (path_of ((a @ [x]) @ t)) = map Normal t"
      by (simp add: path_of_def)
    ultimately have "resolve_first fs (path_of ((a @ [x]) @ t)) (ancestors (path_of (a @ [x]))) = path_of (c @ t)"
      using Inr by (simp add: ancestors_path_of canonicalize_def path_join_def Let_def) (auto simp: path_of_append)
    with Inr show ?thesis by (intro exI [of _ "a @ [x]"] exI [of _ "[]"] exI [of _ c]) simp
  next
    case (Inl e)
    from snoc.IH [of "x # t"] obtain b d c where b: "a = b @ d" "resolve_path False fs (path_of b) = Inr c"
      "resolve_first fs (path_of (a @ x # t)) (ancestors (path_of a)) = path_of (c @ d @ x # t)"
      "d \<noteq> [] \<longrightarrow> (\<exists>e. resolve_path False fs (path_of (b @ [hd d])) = Inl e)" by blast
    have "resolve_first fs (path_of ((a @ [x]) @ t)) (ancestors (path_of (a @ [x]))) =
        resolve_first fs (path_of (a @ x # t)) (ancestors (path_of a))"
      using Inl by (simp add: ancestors_path_of canonicalize_def)
    with b Inl show ?thesis
      by (intro exI [of _ b] exI [of _ "d @ [x]"] exI [of _ c]) (cases d, auto)
  qed
qed


text \<open>The path a request stands for once its dots are resolved.\<close>

definition requested_path :: "path \<Rightarrow> string \<Rightarrow> path" where
  "requested_path root path = lexical_normalize (path_join root (path_components path))"

lemma confine_within_requested:
  assumes "is_absolute root"
  shows "confine_within fs (Some root) path =
    (if prefix root (resolve_existing_prefix fs (requested_path root path))
     then Inr (resolve_existing_prefix fs (requested_path root path))
     else Inl (ExecutionFailed (''path '' @ bt @ path @ bt @ '' resolves outside the workspace root'')))"
proof -
  have "(if is_absolute r then r else path_join root r) = path_join root r" for r
    by (simp add: path_join_def)
  with assms show ?thesis by (simp add: confine_within_def requested_path_def Let_def)
qed

lemma requested_path_plain: "is_absolute root \<Longrightarrow> \<exists>ys. requested_path root path = path_of ys"
  unfolding requested_path_def
  by (intro lexical_normalize_plain)
    (cases root, auto simp: path_join_def is_absolute_def split: path_component.splits)

lemma resolve_existing_prefix_canonical:
  assumes root: "fs_entries fs [] = Some Directory"
    and links: "canonicalize fs (path_of ys) \<noteq> Inl IoTooManyLinks"
  shows "\<exists>zs. resolve_existing_prefix fs (path_of ys) = path_of zs \<and>
    (case canonicalize fs (path_of ys) of
       Inr q \<Rightarrow> path_of zs = q
     | Inl e \<Rightarrow> canonicalize fs (path_of zs) = Inl e)"
proof -
  let ?es = "fs_entries fs"
  obtain b d c where s: "ys = b @ d" "resolve_path False fs (path_of b) = Inr c"
    "resolve_existing_prefix fs (path_of ys) = path_of (c @ d)"
    "d \<noteq> [] \<longrightarrow> (\<exists>e. resolve_path False fs (path_of (b @ [hd d])) = Inl e)"
    using resolve_first_prefix [OF root, of ys "[]"] unfolding resolve_existing_prefix_def append_Nil2 by metis
  have "located ?es []" using root by (simp add: located_def)
  then have located: "located ?es c"
    using s(2) walk_located by (auto simp: resolve_path_of)
  show ?thesis
  proof (cases d)
    case Nil
    with s show ?thesis by (intro exI [of _ c]) (simp add: canonicalize_def)
  next
    case (Cons x d')
    from walk_append [OF s(2) [unfolded resolve_path_of]] obtain m where m: "m \<le> max_symlinks"
      "\<And>ds. walk False ?es max_symlinks [] (map Normal b @ ds) = walk False ?es m c ds" by blast
    from s(4) Cons obtain e where "walk False ?es max_symlinks [] (map Normal b @ [Normal x]) = Inl e"
      by (auto simp: resolve_path_of)
    then have "walk False ?es m c [Normal x] = Inl e" by (simp only: m(2))
    then have e: "walk False ?es m c (map Normal d) = Inl e"
      using walk_error_append [of ?es m c "[Normal x]" e "map Normal d'"] Cons by simp
    then have failed: "canonicalize fs (path_of ys) = Inl e"
      using s(1) m(2) by (simp add: canonicalize_def resolve_path_of)
    with links have "walk False ?es max_symlinks c (map Normal d) = Inl e"
      by (intro walk_more_links [OF e _ m(1)]) auto
    then have "canonicalize fs (path_of (c @ d)) = Inl e"
      using walk_plain [of ?es "[]" c False max_symlinks "map Normal d"] located
      by (simp add: canonicalize_def resolve_path_of)
    with failed s(3) show ?thesis by (intro exI [of _ "c @ d"]) (simp)
  qed
qed

section \<open>Properties\<close>


text \<open>A workspace with a link to the outside, a dangling link to the outside and a link to itself.\<close>

definition sample_fs :: filesystem where
  "sample_fs = \<lparr>fs_entries =
     [[] \<mapsto> Directory, [''w''] \<mapsto> Directory, [''w'', ''a.txt''] \<mapsto> RegularFile ''hello'' 420,
      [''w'', ''evil''] \<mapsto> Symlink ''/etc'', [''w'', ''out''] \<mapsto> Symlink ''/tmp/new'', [''w'', ''me''] \<mapsto> Symlink ''.'',
      [''etc''] \<mapsto> Directory, [''etc'', ''passwd''] \<mapsto> RegularFile ''root'' 420, [''tmp''] \<mapsto> Directory],
     fs_cwd = [''w'']\<rparr>"

definition sample_root :: path where
  "sample_root = path_of [''w'']"


section \<open>Two ways out\<close>

text \<open>
  Every failure of \<open>canonicalize\<close> counts as a part that does not exist yet.  A link whose target
  is missing is such a part, so a confined path may be created outside the root; and so is
  what follows the fortieth link, so that a file outside the root is read through a link that a
  shorter spelling would have resolved.
\<close>

lemma dangling_link_escapes:
  "confine_within sample_fs (Some sample_root) ''out'' = Inr (path_of [''w'', ''out'']) \<and>
   resolve_path True sample_fs (path_of [''w'', ''out'']) = Inr [''tmp'', ''new'']"
  by code_simp

lemma many_links_escape:
  "confine_within sample_fs (Some sample_root) (concat (replicate 40 ''me/'') @ ''evil/passwd'') =
     Inr (path_of [''w'', ''evil'', ''passwd'']) \<and>
   resolve_path False sample_fs (path_of [''w'', ''evil'', ''passwd'']) = Inr [''etc'', ''passwd'']"
  by code_simp


end
