(* ===== verification/File_Ops.thy ===== *)
theory File_Ops
  imports Utf8 Workspace
begin

text \<open>
  The file tools (\<open>boitata-core/src/tools/builtins/fs.rs\<close>) over the file system of \<open>Workspace\<close>.

  A regular file has its bytes and its mode.  What can go wrong on the disk is the record
  \<open>faults\<close>: a write may fail after some bytes, a temporary file may not be created or renamed,
  its mode may not be set.  The tools run on the blocking pool; a panic there is not modelled.
\<close>

section \<open>System calls\<close>

record faults =
  ft_read :: "io_error option"
  ft_write :: "(io_error \<times> nat) option"
  ft_create_temp :: "io_error option"
  ft_write_temp :: "(io_error \<times> nat) option"
  ft_chmod_ok :: bool
  ft_rename :: "io_error option"

definition no_faults :: faults where
  "no_faults = \<lparr>ft_read = None, ft_write = None, ft_create_temp = None, ft_write_temp = None,
     ft_chmod_ok = True, ft_rename = None\<rparr>"

fun show_io_error :: "io_error \<Rightarrow> string" where
  "show_io_error IoNotFound = ''No such file or directory (os error 2)''"
| "show_io_error IoNotADirectory = ''Not a directory (os error 20)''"
| "show_io_error IoIsADirectory = ''Is a directory (os error 21)''"
| "show_io_error IoTooManyLinks = ''Too many levels of symbolic links (os error 40)''"
| "show_io_error (IoOther m) = m"

definition put_entry :: "filesystem \<Rightarrow> string list \<Rightarrow> fs_entry option \<Rightarrow> filesystem" where
  "put_entry fs c e = fs\<lparr>fs_entries := (fs_entries fs)(c := e)\<rparr>"

lemma put_entry_entries [simp, frame_simps]:
  "fs_entries (put_entry fs c e) = (fs_entries fs)(c := e)"
  "fs_cwd (put_entry fs c e) = fs_cwd fs"
  by (simp_all add: put_entry_def)

definition read_to_string :: "filesystem \<Rightarrow> faults \<Rightarrow> path \<Rightarrow> io_error + string" where
  "read_to_string fs ft p =
     and_then (resolve_path False fs p) (\<lambda>c.
       case ft_read ft of
         Some e \<Rightarrow> Inl e
       | None \<Rightarrow>
           (case fs_entries fs c of
              Some (RegularFile body mode) \<Rightarrow>
                if valid_utf8 body then Inr body else Inl (IoOther ''stream did not contain valid UTF-8'')
            | _ \<Rightarrow> Inl IoIsADirectory))"

text \<open>\<open>fs::write\<close>: create or truncate, then write; a failure leaves what was written.\<close>

definition default_mode :: nat where
  "default_mode = 420"

definition fs_write :: "filesystem \<Rightarrow> faults \<Rightarrow> path \<Rightarrow> string \<Rightarrow> (io_error + unit) \<times> filesystem" where
  "fs_write fs ft p body =
     (case resolve_path True fs p of
        Inl e \<Rightarrow> (Inl e, fs)
      | Inr c \<Rightarrow>
          (case fs_entries fs c of
             Some Directory \<Rightarrow> (Inl IoIsADirectory, fs)
           | entry \<Rightarrow>
               let mode = (case entry of Some (RegularFile old m) \<Rightarrow> m | _ \<Rightarrow> default_mode)
               in case ft_write ft of
                    Some (e, k) \<Rightarrow> (Inl e, put_entry fs c (Some (RegularFile (take k body) mode)))
                  | None \<Rightarrow> (Inr (), put_entry fs c (Some (RegularFile body mode)))))"

text \<open>The directory a path names its last component in, without following that component.\<close>

definition entry_of :: "filesystem \<Rightarrow> path \<Rightarrow> io_error + string list" where
  "entry_of fs p =
     (case rev p of
        Normal x # _ \<Rightarrow>
          and_then (if butlast p = [] then Inr (fs_cwd fs) else resolve_path False fs (butlast p)) (\<lambda>d.
            if fs_entries fs d = Some Directory then Inr (d @ [x]) else Inl IoNotADirectory)
      | _ \<Rightarrow> Inl IoIsADirectory)"

definition file_name :: "path \<Rightarrow> string option" where
  "file_name p = (case rev p of Normal x # _ \<Rightarrow> Some x | _ \<Rightarrow> None)"

definition with_file_name :: "path \<Rightarrow> string \<Rightarrow> path" where
  "with_file_name p name = (if file_name p = None then p else butlast p) @ [Normal name]"

section \<open>Reading\<close>

text \<open>\<open>str::lines\<close>: a line ends at a line feed, with a carriage return before it dropped.\<close>

fun split_lf :: "string \<Rightarrow> string list" where
  "split_lf [] = [[]]"
| "split_lf (c # cs) =
     (if c = CHR 0x0A then [] # split_lf cs
      else (case split_lf cs of [] \<Rightarrow> [[c]] | p # ps \<Rightarrow> (c # p) # ps))"

definition chomp_cr :: "string \<Rightarrow> string" where
  "chomp_cr l = (if l \<noteq> [] \<and> last l = CHR 0x0D then butlast l else l)"

definition str_lines :: "string \<Rightarrow> string list" where
  "str_lines s =
     (let ps = split_lf s
      in map chomp_cr (butlast ps) @ (if last ps = [] then [] else [last ps]))"

definition pad_left :: "nat \<Rightarrow> string \<Rightarrow> string" where
  "pad_left w s = replicate (w - length s) (CHR '' '') @ s"

definition max_read_lines :: nat where
  "max_read_lines = 2000"

definition numbered_line :: "nat \<Rightarrow> string \<Rightarrow> string" where
  "numbered_line n l = pad_left 6 (show_nat n) @ [CHR 0x09] @ l @ [CHR 0x0A]"

definition format_with_line_numbers :: "string \<Rightarrow> nat option \<Rightarrow> nat option \<Rightarrow> string" where
  "format_with_line_numbers content offset limit =
     (let total = length (str_lines content)
      in if total = 0 then ''(empty file)''
         else
           let start = max (unwrap_or 1 offset) 1
           in if total < start
              then ''(offset '' @ show_nat start @ '' is past the end of the file, which has '' @
                   show_nat total @ '' line(s))''
              else
                let start_idx = start - 1;
                    want = min (unwrap_or max_read_lines limit) max_read_lines;
                    end_idx = min (start_idx + want) total;
                    shown = end_idx - start_idx;
                    out = concat (map (\<lambda>(i, l). numbered_line (start + i) l)
                            (enumerate 0 (take shown (drop start_idx (str_lines content)))));
                    note = (if end_idx < total
                            then ''... ('' @ show_nat (total - end_idx) @ '' more line(s); use offset='' @
                                 show_nat (end_idx + 1) @ '' to continue)'' else [])
                in trim_end (out @ note))"

definition file_arg :: "json \<Rightarrow> string \<Rightarrow> string \<Rightarrow> tool_error + string" where
  "file_arg args key tool_name =
     ok_or (InvalidArguments tool_name (''missing '' @ [CHR 0x27] @ key @ [CHR 0x27] @ '' argument''))
       (Option.bind (jget args key) as_str)"

definition file_read ::
    "filesystem \<Rightarrow> path option option \<Rightarrow> faults \<Rightarrow> json \<Rightarrow> tool_error + string" where
  "file_read fs ws ft args =
     and_then (file_arg args ''path'' ''file_read'') (\<lambda>path.
       let offset = Option.bind (jget args ''offset'') as_u64;
           limit = Option.bind (jget args ''limit'') as_u64
       in and_then (confine fs ws path) (\<lambda>p.
            and_then (map_err (\<lambda>e. ExecutionFailed (''failed to read file: '' @ show_io_error e))
                (read_to_string fs ft p)) (\<lambda>content.
              Inr (format_with_line_numbers content offset limit))))"

section \<open>Writing\<close>

definition file_write ::
    "filesystem \<Rightarrow> path option option \<Rightarrow> faults \<Rightarrow> json \<Rightarrow> (tool_error + string) \<times> filesystem" where
  "file_write fs ws ft args =
     (case and_then (file_arg args ''path'' ''file_write'') (\<lambda>path.
             and_then (file_arg args ''content'' ''file_write'') (\<lambda>content.
               and_then (confine fs ws path) (\<lambda>p. Inr (path, content, p)))) of
        Inl e \<Rightarrow> (Inl e, fs)
      | Inr (path, content, p) \<Rightarrow>
          (case fs_write fs ft p content of
             (Inl e, fs1) \<Rightarrow> (Inl (ExecutionFailed (''failed to write file: '' @ show_io_error e)), fs1)
           | (Inr u, fs1) \<Rightarrow>
               (Inr (''Successfully wrote '' @ show_nat (length content) @ '' bytes to '' @ path), fs1)))"

section \<open>Editing\<close>

datatype edit_error = EmptyOld | Noop | NotFound | Ambiguous "nat list"

definition line_of_byte :: "string \<Rightarrow> nat \<Rightarrow> nat" where
  "line_of_byte content i = length (filter (\<lambda>c. c = CHR 0x0A) (take i content)) + 1"

function match_lines_from :: "string \<Rightarrow> string \<Rightarrow> nat \<Rightarrow> nat list" where
  "match_lines_from content needle start =
     (if needle = [] then []
      else case find_str needle (drop start content) of
             None \<Rightarrow> []
           | Some pos \<Rightarrow> line_of_byte content (start + pos) #
               match_lines_from content needle (start + pos + length needle))"
  by pat_completeness auto
termination
  by (relation "measure (\<lambda>(content, needle, start). length content - start)")
    (auto dest!: find_str_Some simp: length_greater_0_conv [symmetric] simp del: length_greater_0_conv)

declare match_lines_from.simps [simp del]

definition match_line_numbers :: "string \<Rightarrow> string \<Rightarrow> nat list" where
  "match_line_numbers content needle = match_lines_from content needle 0"

text \<open>\<open>str::replacen(old, new, 1)\<close> for a non-empty pattern.\<close>

definition replace_first :: "string \<Rightarrow> string \<Rightarrow> string \<Rightarrow> string" where
  "replace_first content old new =
     (case find_str old content of
        None \<Rightarrow> content
      | Some i \<Rightarrow> take i content @ new @ drop (i + length old) content)"

definition compute_edit :: "string \<Rightarrow> string \<Rightarrow> string \<Rightarrow> edit_error + string \<times> nat" where
  "compute_edit content old new =
     (if old = [] then Inl EmptyOld
      else if old = new then Inl Noop
      else case match_line_numbers content old of
             [] \<Rightarrow> Inl NotFound
           | [line] \<Rightarrow> Inr (replace_first content old new, line)
           | lines \<Rightarrow> Inl (Ambiguous lines))"


definition edit_failure :: "string \<Rightarrow> string \<Rightarrow> string \<Rightarrow> edit_error \<Rightarrow> tool_error" where
  "edit_failure path content old e =
     (case e of
        EmptyOld \<Rightarrow> InvalidArguments ''file_edit'' (bt @ ''old'' @ bt @ '' must not be empty'')
      | Noop \<Rightarrow> InvalidArguments ''file_edit''
          (bt @ ''old'' @ bt @ '' and '' @ bt @ ''new'' @ bt @ '' are identical; nothing to change'')
      | NotFound \<Rightarrow>
          ExecutionFailed (''no exact occurrence of '' @ bt @ ''old'' @ bt @ '' was found in '' @ path @
            (if trim old \<noteq> old \<and> contains_str content (trim old)
             then '' (a match exists ignoring surrounding whitespace '' @ map char_of [226::nat, 128, 148] @
                  '' check indentation and trailing spaces)''
             else ''''))
      | Ambiguous lines \<Rightarrow>
          ExecutionFailed (bt @ ''old'' @ bt @ '' matches '' @ show_nat (length lines) @ '' times in '' @ path @
            '' (lines '' @ join '', '' (map show_nat (take 5 lines)) @ (if 5 < length lines then '', ...'' else '''') @
            ''); add surrounding context so it matches exactly once''))"

definition edit_arg :: "json \<Rightarrow> string \<Rightarrow> tool_error + string" where
  "edit_arg args key =
     ok_or (InvalidArguments ''file_edit'' (''missing '' @ [CHR 0x27] @ key @ [CHR 0x27] @ '' argument''))
       (Option.bind (jget args key) as_str)"

definition temp_path :: "path \<Rightarrow> string \<Rightarrow> path" where
  "temp_path p uuid = with_file_name p (''.'' @ unwrap_or '''' (file_name p) @ ''.boitata-'' @ uuid @ ''.tmp'')"

definition temp_mode :: nat where
  "temp_mode = 384"

definition create_temp :: "filesystem \<Rightarrow> faults \<Rightarrow> path \<Rightarrow> io_error + string list" where
  "create_temp fs ft tmp =
     and_then (entry_of fs tmp) (\<lambda>t.
       case ft_create_temp ft of
         Some e \<Rightarrow> Inl e
       | None \<Rightarrow> if fs_entries fs t \<noteq> None then Inl (IoOther ''File exists (os error 17)'') else Inr t)"

text \<open>Setting the temporary file's mode to the original's; a failure is ignored.\<close>

definition copy_mode :: "filesystem \<Rightarrow> faults \<Rightarrow> path \<Rightarrow> string list \<Rightarrow> string \<Rightarrow> filesystem" where
  "copy_mode fs ft p t body =
     (case resolve_path False fs p of
        Inl e \<Rightarrow> fs
      | Inr c \<Rightarrow>
          (case fs_entries fs c of
             Some (RegularFile old m) \<Rightarrow>
               if ft_chmod_ok ft then put_entry fs t (Some (RegularFile body m)) else fs
           | _ \<Rightarrow> fs))"

definition rename_over :: "filesystem \<Rightarrow> faults \<Rightarrow> string list \<Rightarrow> path \<Rightarrow> (io_error + unit) \<times> filesystem" where
  "rename_over fs ft t p =
     (case ft_rename ft of
        Some e \<Rightarrow> (Inl e, fs)
      | None \<Rightarrow>
          (case entry_of fs p of
             Inl e \<Rightarrow> (Inl e, fs)
           | Inr c \<Rightarrow>
               if fs_entries fs c = Some Directory then (Inl IoIsADirectory, fs)
               else (Inr (), put_entry (put_entry fs t None) c (fs_entries fs t))))"

definition replace_file ::
    "filesystem \<Rightarrow> faults \<Rightarrow> string \<Rightarrow> path \<Rightarrow> string \<Rightarrow> (tool_error + unit) \<times> filesystem" where
  "replace_file fs ft uuid p body =
     (case create_temp fs ft (temp_path p uuid) of
        Inl e \<Rightarrow> (Inl (ExecutionFailed (''failed to write temp file: '' @ show_io_error e)), fs)
      | Inr t \<Rightarrow>
          (case ft_write_temp ft of
             Some (e, k) \<Rightarrow>
               (Inl (ExecutionFailed (''failed to write temp file: '' @ show_io_error e)),
                put_entry fs t (Some (RegularFile (take k body) temp_mode)))
           | None \<Rightarrow>
               let fs1 = copy_mode (put_entry fs t (Some (RegularFile body temp_mode))) ft p t body
               in (case rename_over fs1 ft t p of
                     (Inl e, fs2) \<Rightarrow>
                       (Inl (ExecutionFailed (''failed to replace file: '' @ show_io_error e)),
                        put_entry fs2 t None)
                   | (Inr u, fs2) \<Rightarrow> (Inr (), fs2))))"

definition file_edit ::
    "filesystem \<Rightarrow> path option option \<Rightarrow> faults \<Rightarrow> string \<Rightarrow> json \<Rightarrow> (tool_error + string) \<times> filesystem" where
  "file_edit fs ws ft uuid args =
     (case and_then (edit_arg args ''path'') (\<lambda>path.
             and_then (edit_arg args ''old'') (\<lambda>old.
               and_then (edit_arg args ''new'') (\<lambda>new.
                 and_then (confine fs ws path) (\<lambda>p.
                   and_then (map_err (\<lambda>e. ExecutionFailed (''failed to read file: '' @ show_io_error e))
                       (read_to_string fs ft p)) (\<lambda>content.
                     and_then (map_err (edit_failure path content old) (compute_edit content old new))
                       (\<lambda>(out, line). Inr (path, new, p, out, line))))))) of
        Inl e \<Rightarrow> (Inl e, fs)
      | Inr (path, new, p, out, line) \<Rightarrow>
          (case replace_file fs ft uuid p out of
             (Inl e, fs1) \<Rightarrow> (Inl e, fs1)
           | (Inr u, fs1) \<Rightarrow>
               let new_span = length (filter (\<lambda>c. c = CHR 0x0A) new) + 1;
                   snippet = format_with_line_numbers out (Some (max (line - 2) 1)) (Some (new_span + 4))
               in (Inr (''Edited '' @ path @ '': replaced 1 occurrence at line '' @ show_nat line @ ''.'' @
                     [CHR 0x0A] @ snippet), fs1)))"

section \<open>Listing\<close>

text \<open>The order in which the system lists a directory is an argument; a link is not followed.\<close>

definition entry_type :: "fs_entry \<Rightarrow> string" where
  "entry_type e = (case e of Directory \<Rightarrow> ''DIR'' | RegularFile b m \<Rightarrow> ''FILE'' | Symlink t \<Rightarrow> ''OTHER'')"

definition list_directory ::
    "filesystem \<Rightarrow> path option option \<Rightarrow> (string list \<Rightarrow> string list) \<Rightarrow> json \<Rightarrow> tool_error + string" where
  "list_directory fs ws order args =
     and_then (file_arg args ''path'' ''list_directory'') (\<lambda>path.
       and_then (confine fs ws path) (\<lambda>p.
         and_then (map_err (\<lambda>e. ExecutionFailed (''failed to read directory: '' @ show_io_error e))
             (and_then (resolve_path False fs p) (\<lambda>c.
                if fs_entries fs c = Some Directory then Inr c else Inl IoNotADirectory))) (\<lambda>c.
           Inr (join [CHR 0x0A] (List.map_filter
             (\<lambda>n. map_option (\<lambda>e. entry_type e @ '' '' @ n) (fs_entries fs (c @ [n]))) (order c))))))"


section \<open>Lemmas\<close>

lemma match_lines_from_start:
  assumes "needle \<noteq> []"
  shows "match_lines_from content needle start =
    (case find_str needle (drop start content) of
       None \<Rightarrow> []
     | Some pos \<Rightarrow> line_of_byte content (start + pos) #
         match_lines_from content needle (start + pos + length needle))"
  using assms by (subst match_lines_from.simps) simp

lemma match_lines_from_sorted:
  "sorted (match_lines_from content needle start) \<and>
   list_all (\<lambda>l. line_of_byte content start \<le> l) (match_lines_from content needle start)"
proof (induction content needle start rule: match_lines_from.induct)
  case (1 content needle start)
  have mono: "line_of_byte content i \<le> line_of_byte content j" if "i \<le> j" for i j
  proof -
    have "take j content = take i content @ take (j - i) (drop i content)"
      using that take_add [of i "j - i" content] by simp
    then show ?thesis by (simp add: line_of_byte_def)
  qed
  show ?case
  proof (cases "needle = [] \<or> find_str needle (drop start content) = None")
    case True
    then show ?thesis by (subst (1 2) match_lines_from.simps) auto
  next
    case False
    then obtain pos where pos: "needle \<noteq> []" "find_str needle (drop start content) = Some pos" by auto
    let ?rest = "match_lines_from content needle (start + pos + length needle)"
    have "sorted ?rest" "\<forall>l \<in> set ?rest. line_of_byte content (start + pos + length needle) \<le> l"
      using 1 [OF pos] by (simp_all add: list_all_iff)
    moreover have "line_of_byte content (start + pos) \<le> line_of_byte content (start + pos + length needle)"
      "line_of_byte content start \<le> line_of_byte content (start + pos)"
      by (simp_all add: mono)
    ultimately show ?thesis
      using pos by (subst (1 2) match_lines_from.simps) (fastforce simp: list_all_iff)
  qed
qed

lemma match_line_single:
  assumes "old \<noteq> []"
  shows "match_line_numbers content old = [line] \<longleftrightarrow>
    (\<exists>i. find_str old content = Some i \<and> find_str old (drop (i + length old) content) = None \<and>
       line = line_of_byte content i)"
  unfolding match_line_numbers_def
  by (subst match_lines_from_start [OF assms], cases "find_str old content",
      simp, subst match_lines_from_start [OF assms]) (auto split: option.splits)

lemma match_line_none: "old \<noteq> [] \<Longrightarrow> match_line_numbers content old = [] \<longleftrightarrow> \<not> contains_str content old"
  unfolding match_line_numbers_def contains_str_def
  by (subst match_lines_from_start) (auto split: option.splits)

lemma compute_edit_Inr:
  "compute_edit content old new = Inr (out, line) \<longleftrightarrow>
     old \<noteq> [] \<and> old \<noteq> new \<and>
     (\<exists>i. find_str old content = Some i \<and> find_str old (drop (i + length old) content) = None \<and>
        line = line_of_byte content i \<and> out = take i content @ new @ drop (i + length old) content)"
proof (cases "old = [] \<or> old = new")
  case False
  have "compute_edit content old new = Inr (out, line) \<longleftrightarrow>
      match_line_numbers content old = [line] \<and> out = replace_first content old new"
  proof (cases "match_line_numbers content old")
    case Nil
    with False show ?thesis by (simp add: compute_edit_def)
  next
    case (Cons l ls)
    with False show ?thesis by (cases ls) (auto simp: compute_edit_def)
  qed
  then have "compute_edit content old new = Inr (out, line) \<longleftrightarrow>
      (\<exists>i. find_str old content = Some i \<and> find_str old (drop (i + length old) content) = None \<and>
         line = line_of_byte content i) \<and> out = replace_first content old new"
    using False match_line_single [of old content line] by blast
  also have "\<dots> \<longleftrightarrow> (\<exists>i. find_str old content = Some i \<and> find_str old (drop (i + length old) content) = None \<and>
      line = line_of_byte content i \<and> out = take i content @ new @ drop (i + length old) content)"
    by (cases "find_str old content") (simp_all add: replace_first_def conj_ac)
  finally show ?thesis using False by blast
qed (auto simp: compute_edit_def)

lemma located_put:
  assumes "located es c" "es t = None"
  shows "located (es(t := e)) c"
proof -
  have "es (take k c) \<noteq> None" if "k \<le> length c" for k
    using assms(1) that by (cases "k = length c") (auto simp: located_def split: option.splits)
  then have "take k c \<noteq> t" if "k \<le> length c" for k using assms(2) that by (metis (no_types))
  moreover from this [of "length c"] have "c \<noteq> t" by simp
  ultimately show ?thesis using assms(1) by (auto simp: located_def)
qed

lemma located_resolve: "located (fs_entries fs) c \<Longrightarrow> resolve_path False fs (path_of c) = Inr c"
  using walk_plain [of "fs_entries fs" "[]" c False max_symlinks "[]"] by (simp add: resolve_path_of)

lemma located_dir: "located es (d @ [x]) \<Longrightarrow> es d = Some Directory"
  by (auto simp: located_def dest: spec [of _ "length d"])

lemma located_parent: "located es (d @ [x]) \<Longrightarrow> located es d"
  using located_butlast [of es "d @ [x]"] by simp

lemma entry_of_sibling:
  assumes "located (fs_entries fs) (d @ [x])"
  shows "entry_of fs (path_of (d @ [y])) = Inr (d @ [y])"
proof -
  have "butlast (path_of (d @ [y])) = path_of d" by (simp add: path_of_def butlast_append)
  then show ?thesis
    using located_resolve [OF located_parent [OF assms]] located_dir [OF assms]
    by (simp add: entry_of_def) (simp add: path_of_def)
qed


text \<open>Replacing a file that is really there, over every fault of the disk.\<close>

lemma replace_file_effect:
  assumes "located (fs_entries fs) (d @ [x])" "fs_entries fs (d @ [x]) = Some (RegularFile content mode)"
    and run: "replace_file fs ft uuid (path_of (d @ [x])) body = (res, fs1)"
  shows "\<exists>y. y \<noteq> x \<and>
    (case res of
       Inr u \<Rightarrow> fs_entries fs1 = (fs_entries fs)(d @ [x] \<mapsto>
         RegularFile body (if ft_chmod_ok ft then mode else temp_mode)) \<and> fs_entries fs (d @ [y]) = None
     | Inl e \<Rightarrow> fs_entries fs1 = fs_entries fs \<or>
         (ft_write_temp ft \<noteq> None \<and> fs_entries fs (d @ [y]) = None \<and>
          (\<exists>k. fs_entries fs1 = (fs_entries fs)(d @ [y] \<mapsto> RegularFile (take k body) temp_mode))))"
proof -
  let ?p = "path_of (d @ [x])"
  define y where "y = ''.'' @ x @ ''.boitata-'' @ uuid @ ''.tmp''"
  define m where "m = (if ft_chmod_ok ft then mode else temp_mode)"
  let ?t = "d @ [y]"
  have "length y \<noteq> length x" by (simp add: y_def)
  then have yx: "y \<noteq> x" by metis
  have name: "file_name ?p = Some x" "butlast ?p = path_of d"
    by (simp_all add: file_name_def path_of_def butlast_append)
  have "temp_path ?p uuid = path_of ?t"
    unfolding temp_path_def with_file_name_def name by (simp add: y_def path_of_append)
  then have ent: "entry_of fs (temp_path ?p uuid) = Inr ?t" using entry_of_sibling [OF assms(1)] by simp
  have "\<exists>y. y \<noteq> x \<and>
    (case res of
       Inr u \<Rightarrow> fs_entries fs1 = (fs_entries fs)(d @ [x] \<mapsto> RegularFile body m) \<and> fs_entries fs (d @ [y]) = None
     | Inl e \<Rightarrow> fs_entries fs1 = fs_entries fs \<or>
         (ft_write_temp ft \<noteq> None \<and> fs_entries fs (d @ [y]) = None \<and>
          (\<exists>k. fs_entries fs1 = (fs_entries fs)(d @ [y] \<mapsto> RegularFile (take k body) temp_mode))))"
  proof (cases "create_temp fs ft (temp_path ?p uuid)")
    case (Inl e)
    with run show ?thesis by (intro exI [of _ y] conjI yx) (auto simp: replace_file_def)
  next
    case (Inr t)
    then have t: "t = ?t" "fs_entries fs ?t = None"
      using ent by (auto simp: create_temp_def split: option.splits if_splits)
    show ?thesis
    proof (cases "ft_write_temp ft")
      case (Some ek)
      with run Inr t show ?thesis
        by (intro exI [of _ y] conjI yx) (cases ek, auto simp: replace_file_def)
    next
      case None
      let ?f1 = "put_entry fs ?t (Some (RegularFile body temp_mode))"
      let ?f2 = "put_entry fs ?t (Some (RegularFile body m))"
      have loc: "located (fs_entries (put_entry fs ?t e)) (d @ [x])" for e
        using located_put [OF assms(1) t(2), of e] by simp
      have copy: "copy_mode ?f1 ft ?p ?t body = ?f2"
        using located_resolve [OF loc] assms(2) yx by (simp add: copy_mode_def put_entry_def m_def)
      have sib: "entry_of ?f2 ?p = Inr (d @ [x])" using entry_of_sibling [OF loc] .
      have "rename_over ?f2 ft ?t ?p =
          (case ft_rename ft of
             Some e \<Rightarrow> (Inl e, ?f2)
           | None \<Rightarrow> (Inr (), put_entry (put_entry ?f2 ?t None) (d @ [x]) (Some (RegularFile body m))))"
        using assms(2) yx sib by (simp add: rename_over_def split: option.split)
      with run Inr t None copy have res: "(case ft_rename ft of
             Some e \<Rightarrow> (Inl (ExecutionFailed (''failed to replace file: '' @ show_io_error e)), put_entry ?f2 ?t None)
           | None \<Rightarrow> (Inr (), put_entry (put_entry ?f2 ?t None) (d @ [x]) (Some (RegularFile body m)))) = (res, fs1)"
        by (simp add: replace_file_def Let_def split: option.splits)
      have restore: "(fs_entries fs)(?t := None) = fs_entries fs" using t(2) by (simp add: fun_upd_idem)
      show ?thesis
      proof (intro exI [of _ y] conjI yx, cases "ft_rename ft")
        case None
        with res have "res = Inr ()" "fs1 = put_entry (put_entry ?f2 ?t None) (d @ [x]) (Some (RegularFile body m))"
          by simp_all
        with t(2) restore show "case res of
            Inr u \<Rightarrow> fs_entries fs1 = (fs_entries fs)(d @ [x] \<mapsto> RegularFile body m) \<and> fs_entries fs ?t = None
          | Inl e \<Rightarrow> fs_entries fs1 = fs_entries fs \<or>
              (ft_write_temp ft \<noteq> None \<and> fs_entries fs ?t = None \<and>
               (\<exists>k. fs_entries fs1 = (fs_entries fs)(?t \<mapsto> RegularFile (take k body) temp_mode)))"
          by simp
      next
        case (Some e)
        with res have "isl res" "fs1 = put_entry ?f2 ?t None" by auto
        with restore show "case res of
            Inr u \<Rightarrow> fs_entries fs1 = (fs_entries fs)(d @ [x] \<mapsto> RegularFile body m) \<and> fs_entries fs ?t = None
          | Inl e \<Rightarrow> fs_entries fs1 = fs_entries fs \<or>
              (ft_write_temp ft \<noteq> None \<and> fs_entries fs ?t = None \<and>
               (\<exists>k. fs_entries fs1 = (fs_entries fs)(?t \<mapsto> RegularFile (take k body) temp_mode)))"
          by (cases res) simp_all
      qed
    qed
  qed
  then show ?thesis unfolding m_def .
qed

section \<open>Properties\<close>



text \<open>
  Property C29.  Editing is atomic: when the confined target is a plain file, an edit that
  reports success replaced its content by the computed one, and an edit that reports a failure
  (of the arguments, the match or the disk, at any stage) left the file as it was; no other file
  changes, except that a temporary sibling stays behind when writing it failed.
\<close>

theorem edit_atomic:
  assumes "jget args ''path'' = Some (JStr path)" and "confine fs ws path = Inr (path_of (d @ [x]))"
    and "located (fs_entries fs) (d @ [x])"
  shows "case file_edit fs ws ft uuid args of
      (Inr msg, fs1) \<Rightarrow>
        \<exists>old new content mode out line. jget args ''old'' = Some (JStr old) \<and> jget args ''new'' = Some (JStr new) \<and>
          fs_entries fs (d @ [x]) = Some (RegularFile content mode) \<and>
          compute_edit content old new = Inr (out, line) \<and>
          fs_entries fs1 = (fs_entries fs)(d @ [x] \<mapsto> RegularFile out (if ft_chmod_ok ft then mode else temp_mode))
    | (Inl e, fs1) \<Rightarrow>
        fs_entries fs1 = fs_entries fs \<or>
        (\<exists>y body k. y \<noteq> x \<and> ft_write_temp ft \<noteq> None \<and> fs_entries fs (d @ [y]) = None \<and>
           fs_entries fs1 = (fs_entries fs)(d @ [y] \<mapsto> RegularFile (take k body) temp_mode))"
proof -
  let ?p = "path_of (d @ [x])"
  let ?plan = "and_then (edit_arg args ''path'') (\<lambda>path.
             and_then (edit_arg args ''old'') (\<lambda>old.
               and_then (edit_arg args ''new'') (\<lambda>new.
                 and_then (confine fs ws path) (\<lambda>p.
                   and_then (map_err (\<lambda>e. ExecutionFailed (''failed to read file: '' @ show_io_error e))
                       (read_to_string fs ft p)) (\<lambda>content.
                     and_then (map_err (edit_failure path content old) (compute_edit content old new))
                       (\<lambda>(out, line). Inr (path, new, p, out, line)))))))"
  have arg: "edit_arg args k = Inr v \<longleftrightarrow> jget args k = Some (JStr v)" for k v
    by (auto simp: edit_arg_def ok_or_def as_str_def split: option.splits Option.bind_splits json.splits)
  show ?thesis
  proof (cases ?plan)
    case (Inl e)
    then show ?thesis by (simp add: file_edit_def)
  next
    case (Inr plan)
    then obtain old new content out line where parts: "jget args ''old'' = Some (JStr old)"
      "jget args ''new'' = Some (JStr new)" "read_to_string fs ft ?p = Inr content"
      "compute_edit content old new = Inr (out, line)" "plan = (path, new, ?p, out, line)"
      using assms(1,2) by (auto simp: and_then_Inr_iff arg)
    obtain mode where here: "fs_entries fs (d @ [x]) = Some (RegularFile content mode)"
      using parts(3) located_resolve [OF assms(3)]
      by (auto simp: read_to_string_def split: option.splits fs_entry.splits if_splits)
    obtain res fs1 where run: "replace_file fs ft uuid ?p out = (res, fs1)"
      by (cases "replace_file fs ft uuid ?p out")
    have edit: "file_edit fs ws ft uuid args =
        (case res of Inl e \<Rightarrow> (Inl e, fs1)
         | Inr u \<Rightarrow> (Inr (''Edited '' @ path @ '': replaced 1 occurrence at line '' @ show_nat line @ ''.'' @
             [CHR 0x0A] @ format_with_line_numbers out (Some (max (line - 2) 1))
               (Some (length (filter (\<lambda>c. c = CHR 0x0A) new) + 1 + 4))), fs1))"
      unfolding file_edit_def Inr parts(5) by (simp add: run Let_def split: sum.split)
    show ?thesis
    proof (cases res)
      case (Inl e)
      with replace_file_effect [OF assms(3) here run] show ?thesis unfolding edit by auto
    next
      case (Inr u)
      with replace_file_effect [OF assms(3) here run] parts(1,2,4) here show ?thesis unfolding edit by auto
    qed
  qed
qed

definition sample_edit :: json where
  "sample_edit = JObj [(''path'', JStr ''a.txt''), (''old'', JStr ''hello''), (''new'', JStr ''bye'')]"

theorem edit_atomic_witness:
  "fs_entries (snd (file_edit sample_fs (Some (Some sample_root)) no_faults ''u'' sample_edit)) [''w'', ''a.txt''] =
   Some (RegularFile ''bye'' 420)"
proof -
  have pre: "jget sample_edit ''path'' = Some (JStr ''a.txt'')"
    "confine sample_fs (Some (Some sample_root)) ''a.txt'' = Inr (path_of ([''w''] @ [''a.txt'']))"
    by code_simp+
  have loc: "located (fs_entries sample_fs) ([''w''] @ [''a.txt''])"
    by (simp add: located_def sample_fs_def less_Suc_eq)
  have facts: "jget sample_edit ''old'' = Some (JStr ''hello'')" "jget sample_edit ''new'' = Some (JStr ''bye'')"
    "fs_entries sample_fs ([''w''] @ [''a.txt'']) = Some (RegularFile ''hello'' 420)"
    "compute_edit ''hello'' ''hello'' ''bye'' = Inr (''bye'', 1)"
    "\<not> isl (fst (file_edit sample_fs (Some (Some sample_root)) no_faults ''u'' sample_edit))"
    by code_simp+
  from edit_atomic [OF pre loc, of no_faults "''u''"] facts show ?thesis
    by (auto simp: no_faults_def split: prod.splits sum.splits)
qed

section \<open>Two details of an edit\<close>

text \<open>
  A failed write of the temporary file leaves it behind, although a failed rename removes it;
  and an unconfined edit through a link replaces the link, so its target keeps the old text.
\<close>

lemma failed_write_leaves_temp:
  "fs_entries (snd (file_edit sample_fs (Some (Some sample_root))
     (no_faults\<lparr>ft_write_temp := Some (IoOther ''No space left on device (os error 28)'', 1)\<rparr>) ''u'' sample_edit))
     [''w'', ''.a.txt.boitata-u.tmp''] = Some (RegularFile ''b'' 384)"
  by code_simp

definition link_fs :: filesystem where
  "link_fs = \<lparr>fs_entries =
     [[] \<mapsto> Directory, [''w''] \<mapsto> Directory, [''w'', ''real.txt''] \<mapsto> RegularFile ''hello'' 420,
      [''w'', ''a.txt''] \<mapsto> Symlink ''real.txt''], fs_cwd = [''w'']\<rparr>"

lemma edit_replaces_link:
  "case file_edit link_fs None no_faults ''u'' sample_edit of (res, fs1) \<Rightarrow>
     \<not> isl res \<and> fs_entries fs1 [''w'', ''a.txt''] = Some (RegularFile ''bye'' 420) \<and>
     fs_entries fs1 [''w'', ''real.txt''] = Some (RegularFile ''hello'' 420)"
  by code_simp

text \<open>Occurrences are counted without overlaps.\<close>

lemma edit_overlapping_match: "compute_edit ''aaa'' ''aa'' ''x'' = Inr (''xa'', 1)"
  by code_simp

end
