(* ===== verification/Capture.thy ===== *)
theory Capture
  imports Utf8 Workspace Nodes
begin

text \<open>
  Running a subprocess and capturing its output (\<open>boitata-core/src/tools/builtins/exec.rs\<close>).

  A stream arrives in chunks.  What the disk does is part of a chunk: whether the spill file can
  be created, and whether the writes succeed.  A spill file is the bytes written to it; a file
  that was discarded is \<open>None\<close>.  What the child process does is an argument of \<open>run_raw\<close>.
\<close>

section \<open>Capturing a stream\<close>

record chunk =
  ck_data :: string
  ck_write_ok :: bool
  ck_create_ok :: bool
  ck_first_ok :: bool

record stream_end =
  sn_create_ok :: bool
  sn_write_ok :: bool
  sn_flush_ok :: bool

record capped_stream =
  cs_bytes :: string
  cs_truncated :: bool
  cs_spill :: "string option"

record capture =
  ca_buf :: string
  ca_truncated :: bool
  ca_spill :: "string option"
  ca_gave_up :: bool

definition max_stream_bytes :: nat where
  "max_stream_bytes = 30000"

definition trim_front_to_cap :: "string \<Rightarrow> nat \<Rightarrow> bool \<times> string" where
  "trim_front_to_cap buf cap =
     (if length buf \<le> cap then (False, buf)
      else (True, dropWhile cont_byte (drop (length buf - cap) buf)))"

definition new_capture :: capture where
  "new_capture = \<lparr>ca_buf = [], ca_truncated = False, ca_spill = None, ca_gave_up = False\<rparr>"

definition append_spill :: "chunk \<Rightarrow> capture \<Rightarrow> capture" where
  "append_spill ck st =
     (case ca_spill st of
        Some written \<Rightarrow>
          if ck_write_ok ck then st\<lparr>ca_spill := Some (written @ ck_data ck)\<rparr>
          else st\<lparr>ca_spill := None, ca_gave_up := True\<rparr>
      | None \<Rightarrow> st)"

definition start_spill :: "chunk \<Rightarrow> capture \<Rightarrow> capture" where
  "start_spill ck st =
     (if ca_spill st = None \<and> \<not> ca_gave_up st
      then if ck_create_ok ck \<and> ck_first_ok ck then st\<lparr>ca_spill := Some (ca_buf st)\<rparr>
           else st\<lparr>ca_gave_up := True\<rparr>
      else st)"

definition trim_capture :: "nat \<Rightarrow> capture \<Rightarrow> capture" where
  "trim_capture cap st =
     (case trim_front_to_cap (ca_buf st) cap of
        (dropped, buf) \<Rightarrow> st\<lparr>ca_buf := buf, ca_truncated := ca_truncated st \<or> dropped\<rparr>)"

definition read_chunk :: "nat \<Rightarrow> capture \<Rightarrow> chunk \<Rightarrow> capture" where
  "read_chunk cap st ck =
     (let st1 = append_spill ck st;
          st2 = st1\<lparr>ca_buf := ca_buf st1 @ ck_data ck\<rparr>
      in if cap * 2 < length (ca_buf st2) then trim_capture cap (start_spill ck st2) else st2)"

definition finish_capture :: "nat \<Rightarrow> stream_end \<Rightarrow> capture \<Rightarrow> capped_stream" where
  "finish_capture cap e st =
     (let st1 = (if cap < length (ca_buf st) \<and> ca_spill st = None \<and> \<not> ca_gave_up st
                   \<and> sn_create_ok e \<and> sn_write_ok e
                 then st\<lparr>ca_spill := Some (ca_buf st)\<rparr> else st);
          st2 = trim_capture cap st1
      in \<lparr>cs_bytes = ca_buf st2, cs_truncated = ca_truncated st2,
          cs_spill = (if sn_flush_ok e then ca_spill st2 else None)\<rparr>)"

definition read_capped :: "nat \<Rightarrow> chunk list option \<Rightarrow> stream_end \<Rightarrow> capped_stream" where
  "read_capped cap pipe e =
     (case pipe of
        None \<Rightarrow> \<lparr>cs_bytes = [], cs_truncated = False, cs_spill = None\<rparr>
      | Some chunks \<Rightarrow> finish_capture cap e (foldl (read_chunk cap) new_capture chunks))"

definition finalize_stream :: "string \<Rightarrow> capped_stream \<Rightarrow> string" where
  "finalize_stream path_text s =
     (let body = from_utf8_lossy (cs_bytes s)
      in if \<not> cs_truncated s then body
         else case cs_spill s of
                Some written \<Rightarrow>
                  ''... (output truncated to the last '' @ show_nat max_stream_bytes @
                  '' bytes; full output saved to '' @ path_text @ '')'' @ [CHR 0x0A] @ body
              | None \<Rightarrow>
                  ''... (earlier output truncated to at most '' @ show_nat max_stream_bytes @
                  '' bytes)'' @ [CHR 0x0A] @ body)"

section \<open>Running a process\<close>

record proc_output =
  po_code :: "int option"
  po_stdout :: string
  po_stderr :: string

text \<open>
  What the child does: it cannot be started, it ends with its two streams and a wait status, or
  it is interrupted.  \<open>rr_killed\<close> says that its process group was killed.
\<close>

datatype child =
    LaunchFailed bool string
  | Exited capped_stream string capped_stream string "string + int option"
  | ChildTimedOut
  | ChildCancelled

record raw_run =
  rr_result :: "tool_error + proc_output"
  rr_spawned :: bool
  rr_killed :: bool

definition run_raw ::
    "filesystem \<Rightarrow> path option option \<Rightarrow> string \<Rightarrow> string option \<Rightarrow> nat \<Rightarrow> child \<Rightarrow> raw_run" where
  "run_raw fs ws program cwd timeout_secs c =
     (case (case cwd of None \<Rightarrow> Inr () | Some d \<Rightarrow> and_then (confine fs ws d) (\<lambda>p. Inr ())) of
        Inl e \<Rightarrow> \<lparr>rr_result = Inl e, rr_spawned = False, rr_killed = False\<rparr>
      | Inr u \<Rightarrow>
          (case c of
             LaunchFailed not_found e \<Rightarrow>
               \<lparr>rr_result = Inl (ExecutionFailed (''failed to launch '' @ bt @ program @ bt @ '': '' @ e @
                  (if not_found then '' (is '' @ bt @ program @ bt @ '' installed and on PATH?)'' else ''''))),
                rr_spawned = False, rr_killed = False\<rparr>
           | Exited out out_path err err_path st \<Rightarrow>
               \<lparr>rr_result = (case st of
                    Inl e \<Rightarrow> Inl (ExecutionFailed (bt @ program @ bt @ '' failed: '' @ e))
                  | Inr code \<Rightarrow> Inr \<lparr>po_code = code, po_stdout = finalize_stream out_path out,
                                    po_stderr = finalize_stream err_path err\<rparr>),
                rr_spawned = True, rr_killed = False\<rparr>
           | ChildTimedOut \<Rightarrow>
               \<lparr>rr_result = Inl (ExecutionFailed (bt @ program @ bt @ '' timed out after '' @
                  show_nat timeout_secs @ ''s'')), rr_spawned = True, rr_killed = True\<rparr>
           | ChildCancelled \<Rightarrow>
               \<lparr>rr_result = Inl (ToolCancelled (bt @ program @ bt)), rr_spawned = True, rr_killed = True\<rparr>))"

definition format_output :: "proc_output \<Rightarrow> string" where
  "format_output out =
     (let note = (case po_code out of
                    Some code \<Rightarrow> if code = 0 then [] else [''[exit code '' @ show_int code @ '']'']
                  | None \<Rightarrow> [''[terminated by signal]'']);
          stdout = trim_end (po_stdout out);
          stderr = trim_end (po_stderr out);
          sections = note @ (if stdout = [] then [] else [stdout]) @
            (if stderr = [] then [] else [''--- stderr ---'' @ [CHR 0x0A] @ stderr])
      in if sections = [] then ''(command completed successfully with no output)''
         else join [CHR 0x0A] sections)"

definition run_command ::
    "filesystem \<Rightarrow> path option option \<Rightarrow> string \<Rightarrow> string option \<Rightarrow> nat \<Rightarrow> child \<Rightarrow> tool_error + tool_output" where
  "run_command fs ws program cwd timeout_secs c =
     and_then (rr_result (run_raw fs ws program cwd timeout_secs c))
       (\<lambda>out. Inr (output_text (format_output out)))"

definition default_timeout :: nat where
  "default_timeout = 120"

definition build_timeout :: nat where
  "build_timeout = 600"

definition run_script ::
    "filesystem \<Rightarrow> path option option \<Rightarrow> string option \<Rightarrow> child \<Rightarrow> tool_error + script_result" where
  "run_script fs ws cwd c =
     and_then (rr_result (run_raw fs ws ''sh'' cwd default_timeout c))
       (\<lambda>out. Inr \<lparr>sr_code = po_code out, sr_output = format_output out\<rparr>)"

section \<open>Arguments\<close>

definition str_arg :: "json \<Rightarrow> string \<Rightarrow> string \<Rightarrow> tool_error + string" where
  "str_arg args key tool_name =
     ok_or (InvalidArguments tool_name (''missing or non-string '' @ bt @ key @ bt @ '' argument''))
       (Option.bind (jget args key) as_str)"

definition opt_str_arg :: "json \<Rightarrow> string \<Rightarrow> string option" where
  "opt_str_arg args key = Option.bind (jget args key) as_str"

definition opt_bool_arg :: "json \<Rightarrow> string \<Rightarrow> bool" where
  "opt_bool_arg args key = unwrap_or False (Option.bind (jget args key) as_bool)"


section \<open>What is kept of a stream\<close>

text \<open>The specification: the last \<open>cap\<close> bytes, from the first character that starts in them.\<close>

definition tail_view :: "nat \<Rightarrow> string \<Rightarrow> string" where
  "tail_view cap t =
     (if length t \<le> cap then t else dropWhile cont_byte (drop (length t - cap) t))"

text \<open>No four continuation bytes in a row, as in well-formed text.\<close>

definition short_runs :: "string \<Rightarrow> bool" where
  "short_runs s \<longleftrightarrow> (\<forall>a w b. s = a @ w @ b \<longrightarrow> 4 \<le> length w \<longrightarrow> \<not> list_all cont_byte w)"

lemma short_runs_prefix: "short_runs (s @ t) \<Longrightarrow> short_runs s"
  unfolding short_runs_def by (metis append.assoc)

lemma valid_short_runs: "valid_utf8 s \<Longrightarrow> short_runs s"
proof (induction s rule: valid_utf8.induct)
  case 1
  then show ?case by (simp add: short_runs_def)
next
  case (2 c cs)
  then obtain rs where rs: "utf8_ranges (byte c) = Some rs" "fitting rs cs = length rs"
    "valid_utf8 (drop (length rs) cs)" by (auto simp: valid_Cons)
  with 2(1) [of True "Suc (length rs)"] have rest: "short_runs (drop (length rs) cs)"
    by (simp add: first_piece_def)
  have lead: "\<not> cont_byte d" if "drop (length rs) cs = d # ds" for d ds
    using rs(3) that by (auto simp: valid_Cons dest: utf8_ranges_lead)
  show ?case
    unfolding short_runs_def
  proof (intro allI impI notI)
    fix a w b
    assume s: "c # cs = a @ w @ b" and w: "4 \<le> length w" "list_all cont_byte w"
    have len: "length rs \<le> 3" using utf8_ranges_short [OF rs(1)] .
    show False
    proof (cases "length a \<le> length rs")
      case True
      have "a \<noteq> []" using s w utf8_ranges_lead [OF rs(1)] by (cases w) auto
      then have k: "length a \<le> Suc (length rs)" "Suc (length rs) < length a + length w"
        using True len w by (cases a, auto)+
      let ?k = "Suc (length rs) - length a"
      have "?k < length w" using k by linarith
      then have "(c # cs) ! Suc (length rs) = w ! ?k" using k(1) unfolding s by (auto simp: nth_append)
      moreover have "Suc (length rs) < length (c # cs)" using k unfolding s by simp
      then have "drop (length rs) cs = cs ! length rs # drop (Suc (length rs)) cs"
        by (simp add: Cons_nth_drop_Suc)
      ultimately have "\<not> cont_byte (w ! ?k)" using lead by auto
      then show False using w(2) \<open>?k < length w\<close> by (auto simp: list_all_length)
    next
      case False
      then have "drop (length rs) cs = drop (Suc (length rs)) a @ w @ b"
        using arg_cong [OF s, of "drop (Suc (length rs))"] by simp
      with rest w show False by (auto simp: short_runs_def)
    qed
  qed
qed

text \<open>The buffer is the whole stream, or a tail of it that begins at a character.\<close>

definition buffer_inv :: "nat \<Rightarrow> string \<Rightarrow> bool \<Rightarrow> string \<Rightarrow> bool" where
  "buffer_inv cap t tr buf \<longleftrightarrow>
     (if tr
      then cap < length t \<and> buf \<noteq> [] \<and> \<not> cont_byte (hd buf) \<and>
        (\<exists>a pre. t = a @ pre @ buf \<and> list_all cont_byte pre \<and> cap \<le> length (pre @ buf))
      else buf = t)"

lemma buffer_inv_append: "buffer_inv cap t tr buf \<Longrightarrow> buffer_inv cap (t @ d) tr (buf @ d)"
  by (fastforce simp: buffer_inv_def)

lemma buffer_inv_trim:
  assumes "buffer_inv cap t tr buf" "short_runs t" "4 \<le> cap" "trim_front_to_cap buf cap = (dropped, b)"
  shows "buffer_inv cap t (tr \<or> dropped) b"
proof (cases "length buf \<le> cap")
  case True
  with assms show ?thesis by (simp add: trim_front_to_cap_def)
next
  case False
  let ?w = "drop (length buf - cap) buf"
  have b: "dropped" "b = dropWhile cont_byte ?w" using False assms(4) by (simp_all add: trim_front_to_cap_def)
  obtain a where a: "t = a @ buf" using assms(1) by (auto simp: buffer_inv_def split: if_splits)
  have t: "t = (a @ take (length buf - cap) buf) @ takeWhile cont_byte ?w @ b" using a b by simp
  have w: "length ?w = cap" using False by simp
  have "\<not> list_all cont_byte ?w"
    using assms(2,3) w a unfolding short_runs_def
    by (metis append.assoc append_Nil2 append_take_drop_id)
  then have "b \<noteq> []" using b(2) by (auto simp: list_all_iff dropWhile_eq_Nil_conv)
  then have "\<not> cont_byte (hd b)" unfolding b(2) by (rule hd_dropWhile)
  moreover have "list_all cont_byte (takeWhile cont_byte ?w)" by (auto simp: list_all_iff dest: set_takeWhileD)
  moreover have "length (takeWhile cont_byte ?w @ b) = cap" unfolding b(2) takeWhile_dropWhile_id by (rule w)
  ultimately have "\<exists>a pre. t = a @ pre @ b \<and> list_all cont_byte pre \<and> cap \<le> length (pre @ b)"
    using t by (metis order_refl)
  moreover have "cap < length t" using a False by simp
  ultimately show ?thesis
    using b(1) \<open>b \<noteq> []\<close> \<open>\<not> cont_byte (hd b)\<close> by (simp add: buffer_inv_def)
qed

lemma buffer_inv_view:
  assumes "buffer_inv cap t tr buf" "length buf \<le> cap"
  shows "buf = tail_view cap t \<and> tr = (cap < length t)"
proof (cases tr)
  case False
  with assms show ?thesis by (auto simp: buffer_inv_def tail_view_def)
next
  case True
  with assms(1) obtain a pre where t: "t = a @ pre @ buf" "list_all cont_byte pre" "cap \<le> length (pre @ buf)"
    "cap < length t" "buf \<noteq> []" "\<not> cont_byte (hd buf)"
    by (auto simp: buffer_inv_def)
  let ?i = "length pre + length buf - cap"
  have i: "length t - cap = length a + ?i" "?i \<le> length pre" using t(1,3) assms(2) by simp_all
  have "drop (length t - cap) t = drop ?i pre @ buf"
    using i by (simp add: t(1))
  moreover have "\<forall>x \<in> set (drop ?i pre). cont_byte x" using t(2) by (auto simp: list_all_iff dest: in_set_dropD)
  moreover have "dropWhile cont_byte buf = buf" using t(5,6) by (cases buf) simp_all
  ultimately have "dropWhile cont_byte (drop (length t - cap) t) = buf"
    by (simp add: dropWhile_append2)
  with True t(4) show ?thesis by (simp add: tail_view_def)
qed


definition chunk_ok :: "chunk \<Rightarrow> bool" where
  "chunk_ok ck \<longleftrightarrow> ck_write_ok ck \<and> ck_create_ok ck \<and> ck_first_ok ck"

definition stream :: "chunk list \<Rightarrow> string" where
  "stream chunks = concat (map ck_data chunks)"

definition capture_inv :: "nat \<Rightarrow> string \<Rightarrow> bool \<Rightarrow> capture \<Rightarrow> bool" where
  "capture_inv cap t ok st \<longleftrightarrow>
     buffer_inv cap t (ca_truncated st) (ca_buf st) \<and>
     (case ca_spill st of
        Some written \<Rightarrow> written = t
      | None \<Rightarrow> ca_gave_up st \<or> (\<not> ca_truncated st \<and> length t \<le> cap * 2)) \<and>
     (ok \<longrightarrow> \<not> ca_gave_up st)"

lemma read_chunk_inv:
  assumes "capture_inv cap t ok st" "short_runs (t @ ck_data ck)" "4 \<le> cap"
  shows "capture_inv cap (t @ ck_data ck) (ok \<and> chunk_ok ck) (read_chunk cap st ck)"
proof -
  let ?t = "t @ ck_data ck"
  let ?st1 = "append_spill ck st"
  let ?st2 = "?st1\<lparr>ca_buf := ca_buf ?st1 @ ck_data ck\<rparr>"
  have s1: "ca_buf ?st1 = ca_buf st" "ca_truncated ?st1 = ca_truncated st"
    by (simp_all add: append_spill_def split: option.split)
  have buf: "buffer_inv cap ?t (ca_truncated st) (ca_buf st @ ck_data ck)"
    using assms(1) by (simp add: capture_inv_def buffer_inv_append)
  have spill: "case ca_spill ?st2 of Some written \<Rightarrow> written = ?t | None \<Rightarrow> ca_gave_up ?st2 \<or> \<not> ca_truncated st"
    "ok \<and> chunk_ok ck \<longrightarrow> \<not> ca_gave_up ?st2"
    using assms(1) by (auto simp: capture_inv_def append_spill_def chunk_ok_def split: option.splits)
  show ?thesis
  proof (cases "cap * 2 < length (ca_buf ?st2)")
    case False
    then have "\<not> ca_truncated st \<Longrightarrow> length ?t \<le> cap * 2"
      using buf s1 by (simp add: buffer_inv_def)
    with False buf spill s1 show ?thesis
      by (auto simp: read_chunk_def capture_inv_def Let_def split: option.splits)
  next
    case True
    let ?st3 = "start_spill ck ?st2"
    have s3: "ca_buf ?st3 = ca_buf st @ ck_data ck" "ca_truncated ?st3 = ca_truncated st"
      using s1 by (simp_all add: start_spill_def)
    have "buffer_inv cap ?t (ca_truncated st \<or> fst (trim_front_to_cap (ca_buf ?st3) cap))
        (snd (trim_front_to_cap (ca_buf ?st3) cap))"
      using buffer_inv_trim [OF buf assms(2,3)] s3 by simp
    moreover have "case ca_spill ?st3 of Some written \<Rightarrow> written = ?t | None \<Rightarrow> ca_gave_up ?st3"
      using spill(1) buf s1 by (auto simp: start_spill_def buffer_inv_def split: option.splits)
    moreover have "ok \<and> chunk_ok ck \<longrightarrow> \<not> ca_gave_up ?st3"
      using spill(2) by (auto simp: start_spill_def chunk_ok_def)
    ultimately show ?thesis
      using True s3 by (auto simp: read_chunk_def capture_inv_def trim_capture_def Let_def split: option.splits prod.split)
  qed
qed

lemma read_all_inv:
  assumes "short_runs (t @ stream cks)" "4 \<le> cap" "capture_inv cap t ok st"
  shows "capture_inv cap (t @ stream cks) (ok \<and> list_all chunk_ok cks) (foldl (read_chunk cap) st cks)"
  using assms
proof (induction cks arbitrary: t ok st)
  case (Cons ck cks)
  have "short_runs (t @ ck_data ck)"
    using Cons.prems(1) short_runs_prefix [of "t @ ck_data ck" "stream cks"] by (simp add: stream_def)
  from Cons.IH [OF _ assms(2) read_chunk_inv [OF Cons.prems(3) this assms(2)]] Cons.prems(1)
  show ?case by (simp add: stream_def conj_assoc)
qed (simp add: stream_def)

section \<open>Properties\<close>

text \<open>
  Property C28.  Capturing a stream of text: however it is cut into chunks and whatever the disk
  does, what is kept is the last \<open>cap\<close> bytes from the first character that starts in them,
  decoded unchanged; it is marked truncated exactly when the stream is longer than the cap; a
  spill file that is reported holds the whole stream; and with a working disk every stream that
  was truncated has one.
\<close>

theorem capture_keeps_tail:
  assumes "valid_utf8 (stream cks)" and "4 \<le> cap"
  shows "case read_capped cap (Some cks) e of r \<Rightarrow>
     cs_bytes r = tail_view cap (stream cks) \<and> from_utf8_lossy (cs_bytes r) = cs_bytes r \<and>
     length (cs_bytes r) \<le> cap \<and> cs_truncated r = (cap < length (stream cks)) \<and>
     (case cs_spill r of
        Some written \<Rightarrow> written = stream cks
      | None \<Rightarrow> cs_truncated r \<and> list_all chunk_ok cks \<longrightarrow>
          \<not> (sn_create_ok e \<and> sn_write_ok e \<and> sn_flush_ok e))"
proof -
  let ?t = "stream cks"
  let ?st = "foldl (read_chunk cap) new_capture cks"
  have runs: "short_runs ?t" by (rule valid_short_runs [OF assms(1)])
  have "capture_inv cap [] True new_capture"
    by (simp add: capture_inv_def new_capture_def buffer_inv_def)
  from read_all_inv [OF _ assms(2) this, of cks] runs
  have inv: "capture_inv cap ?t (list_all chunk_ok cks) ?st" by simp
  obtain dropped b where trim: "trim_front_to_cap (ca_buf ?st) cap = (dropped, b)"
    by (cases "trim_front_to_cap (ca_buf ?st) cap")
  have b: "buffer_inv cap ?t (ca_truncated ?st \<or> dropped) b"
    using buffer_inv_trim [OF _ runs assms(2) trim] inv by (simp add: capture_inv_def)
  have len: "length b \<le> cap"
    using trim length_dropWhile_le [of cont_byte "drop (length (ca_buf ?st) - cap) (ca_buf ?st)"]
    by (auto simp: trim_front_to_cap_def split: if_splits)
  note view = buffer_inv_view [OF b len]
  have "valid_utf8 b"
  proof (cases "ca_truncated ?st \<or> dropped")
    case False
    with b assms(1) show ?thesis by (simp add: buffer_inv_def)
  next
    case True
    with b obtain a where a: "?t = a @ b" "b \<noteq> []" "\<not> cont_byte (hd b)"
      by (fastforce simp: buffer_inv_def)
    then have "char_boundary ?t (length a)" by (cases b) (simp_all add: char_boundary_def nth_append)
    from valid_drop_boundary [OF assms(1) this] a(1) show ?thesis by simp
  qed
  then have "from_utf8_lossy b = b" by (rule from_utf8_lossy_valid)
  moreover have "ca_buf ?st = ?t" if "\<not> ca_truncated ?st" using inv that by (simp add: capture_inv_def buffer_inv_def)
  ultimately show ?thesis
    using inv view len trim
    by (auto simp: read_capped_def finish_capture_def trim_capture_def capture_inv_def Let_def
        trim_front_to_cap_def split: option.splits if_splits)
qed


definition sample_chunks :: "chunk list" where
  "sample_chunks = map (\<lambda>d. \<lparr>ck_data = d, ck_write_ok = True, ck_create_ok = True, ck_first_ok = True\<rparr>)
     [''hello '', ''wor'', ''ld'']"

theorem capture_keeps_tail_witness:
  "case read_capped 4 (Some sample_chunks) \<lparr>sn_create_ok = True, sn_write_ok = True, sn_flush_ok = True\<rparr> of
     r \<Rightarrow> cs_bytes r = ''orld'' \<and> cs_truncated r \<and> cs_spill r = Some ''hello world''"
proof -
  let ?e = "\<lparr>sn_create_ok = True, sn_write_ok = True, sn_flush_ok = True\<rparr>"
  have "stream sample_chunks = ''hello world''" "list_all chunk_ok sample_chunks" by code_simp+
  moreover have "valid_utf8 ''hello world''" "tail_view 4 ''hello world'' = ''orld''" by code_simp+
  ultimately show ?thesis
    using capture_keeps_tail [of sample_chunks 4 ?e] by (auto split: option.splits)
qed

end
