(* ===== verification/Commands.thy ===== *)
theory Commands
  imports Capture
begin

text \<open>
  The tools that run one program (\<open>command.rs\<close>, \<open>search.rs\<close>, \<open>git.rs\<close> and \<open>cargo.rs\<close> under
  \<open>boitata-core/src/tools/builtins\<close>): each turns its JSON arguments into an invocation, a program
  with its argument vector, and hands it to \<open>Capture\<close>.
\<close>

section \<open>Invocations\<close>

record invocation =
  iv_program :: string
  iv_args :: "string list"
  iv_cwd :: "string option"
  iv_timeout :: nat

text \<open>What the outside does with an invocation: the child it becomes.\<close>

definition invoke ::
    "filesystem \<Rightarrow> path option option \<Rightarrow> (invocation \<Rightarrow> child) \<Rightarrow> invocation \<Rightarrow> tool_error + tool_output" where
  "invoke fs ws os iv = run_command fs ws (iv_program iv) (iv_cwd iv) (iv_timeout iv) (os iv)"

definition execute_command :: "json \<Rightarrow> tool_error + invocation" where
  "execute_command args =
     and_then (str_arg args ''command'' ''execute_command'') (\<lambda>command.
       Inr \<lparr>iv_program = ''sh'', iv_args = [''-c'', command], iv_cwd = opt_str_arg args ''cwd'',
            iv_timeout = default_timeout\<rparr>)"

section \<open>Search\<close>

text \<open>A path as the text \<open>to_string_lossy\<close> gives.\<close>

fun component_text :: "path_component \<Rightarrow> string" where
  "component_text RootDir = ''''"
| "component_text CurDir = ''.''"
| "component_text ParentDir = ''..''"
| "component_text (Normal x) = x"

definition path_text :: "path \<Rightarrow> string" where
  "path_text p = (if p = [RootDir] then ''/'' else join ''/'' (map component_text p))"

definition search_invocation :: "filesystem \<Rightarrow> path option option \<Rightarrow> json \<Rightarrow> tool_error + invocation" where
  "search_invocation fs ws args =
     and_then (str_arg args ''pattern'' ''search'') (\<lambda>pat.
       if trim pat = []
       then Inl (InvalidArguments ''search'' (bt @ ''pattern'' @ bt @ '' must not be empty''))
       else and_then (confine fs ws (unwrap_or ''.'' (opt_str_arg args ''path''))) (\<lambda>p.
         Inr \<lparr>iv_program = ''rg'',
              iv_args = [''--line-number'', ''--no-heading'', ''--color'', ''never''] @
                (if opt_bool_arg args ''case_insensitive'' then [''--ignore-case''] else []) @
                (case opt_str_arg args ''glob'' of Some glob \<Rightarrow> [''--glob='' @ glob] | None \<Rightarrow> []) @
                [''--'', pat, path_text p],
              iv_cwd = None, iv_timeout = default_timeout\<rparr>))"

definition search_result :: "proc_output \<Rightarrow> tool_error + tool_output" where
  "search_result out =
     (if po_code out = Some 0 then
        (let trimmed = trim_end (po_stdout out)
         in Inr (output_text (if trimmed = [] then ''(no matches found)'' else trimmed)))
      else if po_code out = Some 1 then Inr (output_text ''(no matches found)'')
      else
        (let detail = (if trim (po_stderr out) = [] then ''unknown error'' else trim (po_stderr out))
         in Inl (ExecutionFailed (''ripgrep error: '' @ detail))))"

definition search ::
    "filesystem \<Rightarrow> path option option \<Rightarrow> (invocation \<Rightarrow> child) \<Rightarrow> json \<Rightarrow> tool_error + tool_output" where
  "search fs ws os args =
     and_then (search_invocation fs ws args) (\<lambda>iv.
       and_then (rr_result (run_raw fs ws (iv_program iv) (iv_cwd iv) (iv_timeout iv) (os iv))) search_result)"

section \<open>Git\<close>

definition git :: "json \<Rightarrow> string list \<Rightarrow> invocation" where
  "git args argv = \<lparr>iv_program = ''git'', iv_args = argv, iv_cwd = opt_str_arg args ''cwd'',
     iv_timeout = default_timeout\<rparr>"

definition git_status :: "json \<Rightarrow> tool_error + invocation" where
  "git_status args = Inr (git args [''status'', ''--short'', ''--branch''])"

definition git_diff :: "filesystem \<Rightarrow> path option option \<Rightarrow> json \<Rightarrow> tool_error + invocation" where
  "git_diff fs ws args =
     (let argv = ''diff'' # (if opt_bool_arg args ''staged'' then [''--staged''] else [])
      in case opt_str_arg args ''path'' of
           None \<Rightarrow> Inr (git args argv)
         | Some path \<Rightarrow> and_then (confine fs ws path) (\<lambda>p. Inr (git args (argv @ [''--'', path_text p]))))"

definition git_commit :: "json \<Rightarrow> tool_error + invocation" where
  "git_commit args =
     and_then (str_arg args ''message'' ''git_commit'') (\<lambda>message.
       Inr (git args (''commit'' # (if opt_bool_arg args ''all'' then [''--all''] else []) @
         [''--message='' @ message])))"

definition branch_name :: "json \<Rightarrow> tool_error + string" where
  "branch_name args =
     and_then (str_arg args ''name'' ''git_branch'') (\<lambda>name.
       if prefix ''-'' name
       then Inl (InvalidArguments ''git_branch'' (''branch name '' @ bt @ name @ bt @ '' must not start with '' @
              [CHR 0x27, CHR ''-'', CHR 0x27]))
       else Inr name)"

definition git_branch :: "json \<Rightarrow> tool_error + invocation" where
  "git_branch args =
     (let action = unwrap_or ''list'' (opt_str_arg args ''action'')
      in if action = ''list'' then Inr (git args [''branch'', ''--list''])
         else if action = ''create''
         then and_then (branch_name args) (\<lambda>name. Inr (git args [''checkout'', ''-b'', name]))
         else if action = ''switch''
         then and_then (branch_name args) (\<lambda>name. Inr (git args [''checkout'', ''--'', name]))
         else Inl (InvalidArguments ''git_branch'' (''unknown action '' @ bt @ action @ bt @
                '' (expected list, create, or switch)'')))"

section \<open>Cargo\<close>

definition cargo :: "json \<Rightarrow> nat \<Rightarrow> string list \<Rightarrow> invocation" where
  "cargo args timeout argv = \<lparr>iv_program = ''cargo'', iv_args = argv, iv_cwd = opt_str_arg args ''cwd'',
     iv_timeout = timeout\<rparr>"

definition cargo_check :: "json \<Rightarrow> tool_error + invocation" where
  "cargo_check args = Inr (cargo args build_timeout [''check''])"

definition cargo_clippy :: "json \<Rightarrow> tool_error + invocation" where
  "cargo_clippy args =
     Inr (cargo args build_timeout (''clippy'' #
       (if opt_bool_arg args ''fix'' then [''--fix'', ''--allow-dirty'', ''--allow-staged''] else [])))"

definition cargo_fmt :: "json \<Rightarrow> tool_error + invocation" where
  "cargo_fmt args =
     Inr (cargo args default_timeout (''fmt'' # (if opt_bool_arg args ''check'' then [''--check''] else [])))"

definition cargo_test :: "json \<Rightarrow> tool_error + invocation" where
  "cargo_test args =
     Inr (cargo args build_timeout (''test'' #
       (case opt_str_arg args ''filter'' of Some f \<Rightarrow> [''--'', f] | None \<Rightarrow> [])))"

fun check_features :: "string list \<Rightarrow> tool_error + unit" where
  "check_features [] = Inr ()"
| "check_features (f # fs) =
     (if prefix ''-'' f
      then Inl (InvalidArguments ''cargo_add'' (''feature '' @ bt @ f @ bt @ '' must not start with '' @
             [CHR 0x27, CHR ''-'', CHR 0x27]))
      else check_features fs)"

definition cargo_add :: "json \<Rightarrow> tool_error + invocation" where
  "cargo_add args =
     and_then (str_arg args ''crate'' ''cargo_add'') (\<lambda>krate.
       if prefix ''-'' krate
       then Inl (InvalidArguments ''cargo_add'' (''crate '' @ bt @ krate @ bt @ '' must not start with '' @
              [CHR 0x27, CHR ''-'', CHR 0x27]))
       else
         let dev = (if opt_bool_arg args ''dev'' then [''--dev''] else []);
             features = (case Option.bind (jget args ''features'') as_array of
                           Some vs \<Rightarrow> List.map_filter as_str vs | None \<Rightarrow> [])
         in and_then (check_features features) (\<lambda>u.
              Inr (cargo args build_timeout (''add'' # dev @
                (if features = [] then [] else [''--features'', join '','' features]) @ [''--'', krate]))))"


section \<open>Properties\<close>

text \<open>The options an argument vector is read with: everything before the separator.\<close>

definition option_part :: "string list \<Rightarrow> string list" where
  "option_part argv = takeWhile (\<lambda>a. a \<noteq> ''--'') argv"

definition fixed_options :: "string list" where
  "fixed_options =
     [''--line-number'', ''--no-heading'', ''--color'', ''--ignore-case'', ''--short'', ''--branch'', ''--staged'',
      ''--all'', ''--list'', ''-b'', ''--fix'', ''--allow-dirty'', ''--allow-staged'', ''--check'', ''--dev'',
      ''--features'']"

definition harmless :: "string \<Rightarrow> bool" where
  "harmless a \<longleftrightarrow> \<not> prefix ''-'' a \<or> a \<in> set fixed_options \<or> prefix ''--glob='' a \<or> prefix ''--message='' a"

definition invocation_harmless :: "tool_error + invocation \<Rightarrow> bool" where
  "invocation_harmless r \<longleftrightarrow> (case r of Inl e \<Rightarrow> True | Inr iv \<Rightarrow> list_all harmless (option_part (iv_args iv)))"

lemma harmless_simps [simp]:
  "a \<in> set fixed_options \<Longrightarrow> harmless a"
  "\<not> prefix ''-'' a \<Longrightarrow> harmless a"
  "harmless (''--glob='' @ v)"
  "harmless (''--message='' @ v)"
  by (auto simp: harmless_def)

lemma option_part_simps:
  "option_part [] = []"
  "option_part (a # argv) = (if a = ''--'' then [] else a # option_part argv)"
  by (simp_all add: option_part_def)

lemma harmlessI:
  "(\<And>iv. r = Inr iv \<Longrightarrow> list_all harmless (option_part (iv_args iv))) \<Longrightarrow> invocation_harmless r"
  by (cases r) (simp_all add: invocation_harmless_def)

lemma harmless_join: "list_all (\<lambda>f. \<not> prefix ''-'' f) fs \<Longrightarrow> \<not> prefix ''-'' (join '','' fs)"
proof (induction "'',''" fs rule: join.induct)
  case (3 x y ys)
  then show ?case by (cases x) auto
qed auto

lemma check_features_Inr: "check_features fs = Inr u \<Longrightarrow> list_all (\<lambda>f. \<not> prefix ''-'' f) fs"
  by (induction fs) (auto split: if_splits)

lemma cargo_add_harmless: "invocation_harmless (cargo_add args)"
proof (rule harmlessI)
  fix iv
  assume iv: "cargo_add args = Inr iv"
  define fs where "fs = (case Option.bind (jget args ''features'') as_array of
      Some vs \<Rightarrow> List.map_filter as_str vs | None \<Rightarrow> [])"
  from iv obtain krate where krate: "str_arg args ''crate'' ''cargo_add'' = Inr krate"
    by (auto simp: cargo_add_def and_then_Inr_iff)
  with iv have "\<not> prefix ''-'' krate" by (auto simp: cargo_add_def)
  with iv krate have "and_then (check_features fs) (\<lambda>u. Inr (cargo args build_timeout (''add'' #
      (if opt_bool_arg args ''dev'' then [''--dev''] else []) @
      (if fs = [] then [] else [''--features'', join '','' fs]) @ [''--'', krate]))) = Inr iv"
    by (simp only: cargo_add_def and_then_simps if_False Let_def fs_def)
  then have ok: "list_all (\<lambda>f. \<not> prefix ''-'' f) fs" and
    argv: "iv_args iv = ''add'' # (if opt_bool_arg args ''dev'' then [''--dev''] else []) @
      (if fs = [] then [] else [''--features'', join '','' fs]) @ [''--'', krate]"
    by (auto simp: and_then_Inr_iff cargo_def dest: check_features_Inr)
  from harmless_join [OF ok] show "list_all harmless (option_part (iv_args iv))"
    unfolding argv by (auto simp: option_part_simps fixed_options_def)
qed

lemmas command_defs =
  search_invocation_def git_def git_status_def git_diff_def git_commit_def git_branch_def branch_name_def
  cargo_def cargo_check_def cargo_clippy_def cargo_fmt_def cargo_test_def


end
