(* ===== verification/Builtins.thy ===== *)
theory Builtins
  imports File_Ops Commands
begin

text \<open>
  The built-in tools as the registry holds them (the \<open>impl Tool\<close> blocks of \<open>fs.rs\<close>, \<open>command.rs\<close>,
  \<open>search.rs\<close>, \<open>git.rs\<close> and \<open>cargo.rs\<close>): name, description, input schema, annotations, and the
  execution on a host, the machine the tools act on.
\<close>

section \<open>The host\<close>

text \<open>
  What the tools read and change: the files, the workspace root set at startup, and the programs
  started so far.  What lies outside is an argument: the disk's failures, fresh ids, the order of
  directory listings, and what becomes of a started program with the files it leaves.
\<close>

record host =
  ho_fs :: filesystem
  ho_workspace :: "path option option"
  ho_started :: "invocation list"

record machine =
  ma_faults :: "host \<Rightarrow> faults"
  ma_uuid :: "host \<Rightarrow> string"
  ma_order :: "host \<Rightarrow> string list \<Rightarrow> string list"
  ma_child :: "invocation \<Rightarrow> host \<Rightarrow> child \<times> filesystem"

definition text_result :: "tool_error + string \<Rightarrow> tool_error + tool_output" where
  "text_result r = map_sum id output_text r"

text \<open>Running a program: a launch that fails, or a bad working directory, starts nothing.\<close>

definition run_program ::
    "machine \<Rightarrow> (proc_output \<Rightarrow> tool_error + tool_output) \<Rightarrow> tool_error + invocation \<Rightarrow> host \<Rightarrow>
     (tool_error + tool_output) \<times> host" where
  "run_program m finish iv h =
     (case iv of
        Inl e \<Rightarrow> (Inl e, h)
      | Inr iv \<Rightarrow>
          (case ma_child m iv h of (c, files) \<Rightarrow>
             let r = run_raw (ho_fs h) (ho_workspace h) (iv_program iv) (iv_cwd iv) (iv_timeout iv) c
             in (and_then (rr_result r) finish,
                 if rr_spawned r then h\<lparr>ho_fs := files, ho_started := ho_started h @ [iv]\<rparr> else h)))"

definition show_output :: "proc_output \<Rightarrow> tool_error + tool_output" where
  "show_output out = Inr (output_text (format_output out))"

section \<open>Schemas\<close>

definition property_schema :: "string \<Rightarrow> string \<Rightarrow> json" where
  "property_schema ty description = JObj [(''type'', JStr ty), (''description'', JStr description)]"

definition object_schema :: "(string \<times> json) list \<Rightarrow> string list option \<Rightarrow> json" where
  "object_schema props required =
     JObj ([(''type'', JStr ''object''), (''properties'', JObj props)] @
       (case required of None \<Rightarrow> [] | Some names \<Rightarrow> [(''required'', JArr (map JStr names))]))"

definition text_property :: "string \<Rightarrow> json" where
  "text_property description = property_schema ''string'' description"

definition flag_property :: "string \<Rightarrow> json" where
  "flag_property description = property_schema ''boolean'' description"

definition quoted :: "string \<Rightarrow> string" where
  "quoted s = [CHR 0x60] @ s @ [CHR 0x60]"

definition apostrophe :: string where
  "apostrophe = [CHR 0x27]"

section \<open>Files\<close>

definition file_read_tool :: "machine \<Rightarrow> host tool" where
  "file_read_tool m =
     \<lparr>tl_name = ''file_read'',
      tl_description = ''Read a file'' @ apostrophe @ ''s contents. Each line is prefixed with its 1-based line '' @
        ''number (the numbers are for display only and are not part of the file). '' @
        ''Optionally start at '' @ quoted ''offset'' @ '' and read at most '' @ quoted ''limit'' @ '' lines; at most '' @
        ''2000 lines are returned per call, so page through large files with '' @ quoted ''offset'' @ ''.'',
      tl_input_schema = object_schema
        [(''path'', text_property ''The path to the file to read''),
         (''offset'', property_schema ''integer'' ''1-based line number to start reading from (default 1)''),
         (''limit'', property_schema ''integer'' ''Maximum number of lines to read (default and cap: 2000)'')]
        (Some [''path'']),
      tl_annotations = read_only_annotations,
      tl_execute = (\<lambda>args h. (text_result (file_read (ho_fs h) (ho_workspace h) (ma_faults m h) args), h))\<rparr>"

definition file_write_tool :: "machine \<Rightarrow> host tool" where
  "file_write_tool m =
     \<lparr>tl_name = ''file_write'',
      tl_description = ''Write content to a file. Creates the file if it doesn'' @ apostrophe @
        ''t exist, overwrites if it does.'',
      tl_input_schema = object_schema
        [(''path'', text_property ''The path to the file to write''),
         (''content'', text_property ''The content to write to the file'')]
        (Some [''path'', ''content'']),
      tl_annotations = default_annotations,
      tl_execute = (\<lambda>args h. case file_write (ho_fs h) (ho_workspace h) (ma_faults m h) args of
        (r, files) \<Rightarrow> (text_result r, h\<lparr>ho_fs := files\<rparr>))\<rparr>"

definition dash_text :: string where
  "dash_text = map char_of [226::nat, 128, 148]"

definition file_edit_tool :: "machine \<Rightarrow> host tool" where
  "file_edit_tool m =
     \<lparr>tl_name = ''file_edit'',
      tl_description = ''Edit a file by replacing an exact, unique occurrence of '' @ quoted ''old'' @ '' with '' @
        quoted ''new'' @ ''. '' @ quoted ''old'' @ '' must match the file byte-for-byte (including whitespace and '' @
        ''indentation) and must appear exactly once '' @ dash_text @ '' include enough surrounding '' @
        ''context to make it unique. Prefer this over file_write for changing part '' @
        ''of a file; use file_write only to create a file or replace it whole. '' @
        ''Note that file_read prefixes lines with display-only numbers; do not '' @
        ''include those in '' @ quoted ''old'' @ ''.'',
      tl_input_schema = object_schema
        [(''path'', text_property ''The path to the file to edit''),
         (''old'', text_property ''Exact text to find (must be unique in the file)''),
         (''new'', text_property ''Replacement text'')]
        (Some [''path'', ''old'', ''new'']),
      tl_annotations = default_annotations,
      tl_execute = (\<lambda>args h. case file_edit (ho_fs h) (ho_workspace h) (ma_faults m h) (ma_uuid m h) args of
        (r, files) \<Rightarrow> (text_result r, h\<lparr>ho_fs := files\<rparr>))\<rparr>"

definition list_directory_tool :: "machine \<Rightarrow> host tool" where
  "list_directory_tool m =
     \<lparr>tl_name = ''list_directory'',
      tl_description = ''List the contents of a directory. Returns a list of file and directory names.'',
      tl_input_schema = object_schema
        [(''path'', text_property ''The path to the directory to list'')] (Some [''path'']),
      tl_annotations = read_only_annotations,
      tl_execute = (\<lambda>args h. (text_result (list_directory (ho_fs h) (ho_workspace h) (ma_order m h) args), h))\<rparr>"

section \<open>Commands, search and git\<close>

definition execute_command_tool :: "machine \<Rightarrow> host tool" where
  "execute_command_tool m =
     \<lparr>tl_name = ''execute_command'',
      tl_description = ''Run a shell command (via '' @ quoted ''sh -c'' @ '') and return its combined stdout, stderr, '' @
        ''and exit code. Use for operations without a dedicated tool; prefer the '' @
        ''cargo_*, git_*, and search tools when they apply.'',
      tl_input_schema = object_schema
        [(''command'', text_property ''The shell command to run''),
         (''cwd'', text_property ''Working directory (defaults to the current directory)'')]
        (Some [''command'']),
      tl_annotations =
        \<lparr>an_read_only = False, an_destructive = True, an_idempotent = False, an_open_world = True\<rparr>,
      tl_execute = (\<lambda>args. run_program m show_output (execute_command args))\<rparr>"

definition search_tool :: "machine \<Rightarrow> host tool" where
  "search_tool m =
     \<lparr>tl_name = ''search'',
      tl_description = ''Search file contents with ripgrep (regex). Returns matching lines with '' @
        ''their file paths and line numbers.'',
      tl_input_schema = object_schema
        [(''pattern'', text_property ''The regex pattern to search for''),
         (''path'', text_property ''File or directory to search (defaults to the current directory)''),
         (''glob'', text_property (''Only search files matching this glob, e.g. '' @ apostrophe @ ''*.rs'' @ apostrophe)),
         (''case_insensitive'', flag_property ''Case-insensitive search (default false)'')]
        (Some [''pattern'']),
      tl_annotations = read_only_annotations,
      tl_execute = (\<lambda>args h. run_program m search_result (search_invocation (ho_fs h) (ho_workspace h) args) h)\<rparr>"

definition repository_property :: json where
  "repository_property = text_property ''Repository directory (defaults to the current directory)''"

definition git_status_tool :: "machine \<Rightarrow> host tool" where
  "git_status_tool m =
     \<lparr>tl_name = ''git_status'',
      tl_description = ''Show the git working-tree status (short format, with branch info).'',
      tl_input_schema = object_schema [(''cwd'', repository_property)] None,
      tl_annotations = read_only_annotations,
      tl_execute = (\<lambda>args. run_program m show_output (git_status args))\<rparr>"

definition git_diff_tool :: "machine \<Rightarrow> host tool" where
  "git_diff_tool m =
     \<lparr>tl_name = ''git_diff'',
      tl_description = ''Show git changes as a diff. By default shows unstaged changes; set '' @
        quoted ''staged'' @ '' to show staged changes (the two are separate views, not '' @
        ''combined). Untracked files are not shown; use '' @ quoted ''git_status'' @ '' to see '' @
        ''those. Optionally limit to a path.'',
      tl_input_schema = object_schema
        [(''staged'', flag_property ''Show staged changes instead of unstaged (default false)''),
         (''path'', text_property ''Limit the diff to this file or directory''),
         (''cwd'', repository_property)] None,
      tl_annotations = read_only_annotations,
      tl_execute = (\<lambda>args h. run_program m show_output (git_diff (ho_fs h) (ho_workspace h) args) h)\<rparr>"

definition git_commit_tool :: "machine \<Rightarrow> host tool" where
  "git_commit_tool m =
     \<lparr>tl_name = ''git_commit'',
      tl_description = ''Create a git commit with the given message. Set '' @ quoted ''all'' @ '' to stage all '' @
        ''tracked modified files first (equivalent to '' @ quoted ''git commit -a'' @ ''). Does not push.'',
      tl_input_schema = object_schema
        [(''message'', text_property ''The commit message''),
         (''all'', flag_property ''Stage all tracked modified files before committing (default false)''),
         (''cwd'', repository_property)] (Some [''message'']),
      tl_annotations = default_annotations\<lparr>an_destructive := False\<rparr>,
      tl_execute = (\<lambda>args. run_program m show_output (git_commit args))\<rparr>"

definition git_branch_tool :: "machine \<Rightarrow> host tool" where
  "git_branch_tool m =
     \<lparr>tl_name = ''git_branch'',
      tl_description = ''Manage git branches. '' @ quoted ''action'' @ '' is one of: '' @ quoted ''list'' @
        '' (default), '' @ quoted ''create'' @ '' (create and switch to '' @ quoted ''name'' @ ''), or '' @
        quoted ''switch'' @ '' (switch to '' @ quoted ''name'' @ '').'',
      tl_input_schema = object_schema
        [(''action'', JObj [(''type'', JStr ''string''),
            (''enum'', JArr [JStr ''list'', JStr ''create'', JStr ''switch'']),
            (''description'', JStr (''The branch operation (default '' @ apostrophe @ ''list'' @ apostrophe @ '')''))]),
         (''name'', text_property ''Branch name (required for create/switch)''),
         (''cwd'', repository_property)] None,
      tl_annotations = default_annotations,
      tl_execute = (\<lambda>args. run_program m show_output (git_branch args))\<rparr>"

section \<open>Cargo\<close>

definition cwd_property :: json where
  "cwd_property = text_property ''Crate/workspace directory (defaults to the current directory)''"

definition cargo_check_tool :: "machine \<Rightarrow> host tool" where
  "cargo_check_tool m =
     \<lparr>tl_name = ''cargo_check'',
      tl_description = ''Run '' @ quoted ''cargo check'' @
        '' to type-check the crate. Reports compiler errors and warnings.'',
      tl_input_schema = object_schema [(''cwd'', cwd_property)] None,
      tl_annotations = default_annotations,
      tl_execute = (\<lambda>args. run_program m show_output (cargo_check args))\<rparr>"

definition cargo_clippy_tool :: "machine \<Rightarrow> host tool" where
  "cargo_clippy_tool m =
     \<lparr>tl_name = ''cargo_clippy'',
      tl_description = ''Run '' @ quoted ''cargo clippy'' @ '' to lint the crate. Set '' @ quoted ''fix'' @
        '' to apply Clippy'' @ apostrophe @ ''s automatic fixes in place (uses --allow-dirty --allow-staged).'',
      tl_input_schema = object_schema
        [(''fix'', flag_property ''Apply automatic fixes in place (default false)''), (''cwd'', cwd_property)] None,
      tl_annotations = default_annotations,
      tl_execute = (\<lambda>args. run_program m show_output (cargo_clippy args))\<rparr>"

definition cargo_fmt_tool :: "machine \<Rightarrow> host tool" where
  "cargo_fmt_tool m =
     \<lparr>tl_name = ''cargo_fmt'',
      tl_description = ''Run '' @ quoted ''cargo fmt'' @ '' to format the crate. By default it reformats files in '' @
        ''place; set '' @ quoted ''check'' @ '' to only report what would change without writing.'',
      tl_input_schema = object_schema
        [(''check'', flag_property (''Only check formatting, don'' @ apostrophe @ ''t modify files (default false)'')),
         (''cwd'', cwd_property)] None,
      tl_annotations = default_annotations,
      tl_execute = (\<lambda>args. run_program m show_output (cargo_fmt args))\<rparr>"

definition cargo_test_tool :: "machine \<Rightarrow> host tool" where
  "cargo_test_tool m =
     \<lparr>tl_name = ''cargo_test'',
      tl_description = ''Run '' @ quoted ''cargo test'' @ ''. Optionally pass '' @ quoted ''filter'' @
        '' to run only tests whose name contains that substring.'',
      tl_input_schema = object_schema
        [(''filter'', text_property ''Only run tests matching this name substring''), (''cwd'', cwd_property)] None,
      tl_annotations = default_annotations,
      tl_execute = (\<lambda>args. run_program m show_output (cargo_test args))\<rparr>"

definition cargo_add_tool :: "machine \<Rightarrow> host tool" where
  "cargo_add_tool m =
     \<lparr>tl_name = ''cargo_add'',
      tl_description = ''Add a dependency to Cargo.toml with '' @ quoted ''cargo add'' @ ''. Optionally enable '' @
        quoted ''features'' @ '' and add it as a dev-dependency.'',
      tl_input_schema = object_schema
        [(''crate'', text_property (''The crate to add, optionally with a version (e.g. '' @ apostrophe @
            ''serde@1'' @ apostrophe @ '')'')),
         (''features'', JObj [(''type'', JStr ''array''), (''items'', JObj [(''type'', JStr ''string'')]),
            (''description'', JStr ''Features to enable'')]),
         (''dev'', flag_property ''Add as a dev-dependency (default false)''),
         (''cwd'', cwd_property)] (Some [''crate'']),
      tl_annotations = default_annotations,
      tl_execute = (\<lambda>args. run_program m show_output (cargo_add args))\<rparr>"

end
