(* ===== verification/Config.thy ===== *)
theory Config
  imports Tools Conversation
begin

text \<open>
  Configuration (\<open>boitata-core/src/config.rs\<close>): the file's fields, the environment variables that
  take precedence, the transport of an MCP server, and what \<open>Debug\<close> shows of a configuration.
  The process environment is a map; a file is read and parsed by arguments.
\<close>

type_synonym environment = "string \<rightharpoonup> string"

section \<open>The fields\<close>

record mcp_server_config =
  ms_name :: string
  ms_command :: "string option"
  ms_args :: "string list"
  ms_env :: "(string \<times> string) list"
  ms_url :: "string option"
  ms_auth_token :: "string option"
  ms_headers :: "(string \<times> string) list"

record config =
  cf_provider :: string
  cf_model :: string
  cf_api_key :: "string option"
  cf_base_url :: "string option"
  cf_max_tokens :: "nat option"
  cf_max_iterations :: "nat option"
  cf_system_prompt :: "string option"
  cf_audit_log :: "string option"
  cf_mcp_servers :: "mcp_server_config list"
  cf_allow_execute_command :: "bool option"
  cf_workspace_root :: "string option"
  cf_confine_tools :: "bool option"
  cf_tool_policy :: "policy_mode option"
  cf_denied_commands :: "string list"
  cf_auto_compact_threshold :: "f32 option"
  cf_blueprint_max_steps :: "nat option"
  cf_blueprint_max_retries :: "nat option"
  cf_state_db :: "string option"
  cf_api_token :: "string option"

section \<open>Resolution\<close>

definition nonblank :: "string \<Rightarrow> string option" where
  "nonblank s = opt_filter (\<lambda>v. v \<noteq> []) (Some (trim s))"

definition env_override :: "environment \<Rightarrow> string \<Rightarrow> string option" where
  "env_override env name = Option.bind (env name) nonblank"

definition resolve_config_path :: "environment \<Rightarrow> string option \<Rightarrow> string" where
  "resolve_config_path env explicit = unwrap_or ''boitata.toml'' (or_opt explicit (env ''BOITATA_CONFIG''))"

definition load_config ::
    "(string \<Rightarrow> string + string) \<Rightarrow> (string \<Rightarrow> string + config) \<Rightarrow> string \<Rightarrow> string + config" where
  "load_config read parse path =
     and_then (map_err (\<lambda>e. ''failed to read config file '' @ bt @ path @ bt @
         '' (copy boitata.example.toml to get started)'') (read path)) (\<lambda>contents.
       map_err (\<lambda>e. ''failed to parse config file '' @ bt @ path @ bt) (parse contents))"

definition resolve_api_key :: "environment \<Rightarrow> config \<Rightarrow> string option" where
  "resolve_api_key env c = Option.bind (or_opt (env_override env ''BOITATA_API_KEY'') (cf_api_key c)) nonblank"

definition resolve_provider :: "environment \<Rightarrow> config \<Rightarrow> string" where
  "resolve_provider env c = unwrap_or (cf_provider c) (env_override env ''BOITATA_PROVIDER'')"

definition resolve_model :: "environment \<Rightarrow> config \<Rightarrow> string" where
  "resolve_model env c = unwrap_or (cf_model c) (env_override env ''BOITATA_MODEL'')"

definition resolve_base_url :: "environment \<Rightarrow> config \<Rightarrow> string option" where
  "resolve_base_url env c = or_opt (env_override env ''BOITATA_BASE_URL'') (cf_base_url c)"

definition resolve_api_token :: "environment \<Rightarrow> config \<Rightarrow> string option" where
  "resolve_api_token env c = Option.bind (or_opt (env_override env ''BOITATA_API_TOKEN'') (cf_api_token c)) nonblank"

section \<open>The transport of a server\<close>

datatype mcp_transport =
    Stdio string "string list" "(string \<times> string) list"
  | Http string "string option" "(string \<times> string) list"

definition server_transport :: "mcp_server_config \<Rightarrow> string + mcp_transport" where
  "server_transport s =
     (case (ms_url s, ms_command s) of
        (Some url, Some command) \<Rightarrow>
          Inl (''MCP server '' @ bt @ ms_name s @ bt @ '' sets both '' @ bt @ ''url'' @ bt @ '' and '' @ bt @
            ''command'' @ bt @ ''; use exactly one'')
      | (Some url, None) \<Rightarrow> Inr (Http url (ms_auth_token s) (ms_headers s))
      | (None, Some command) \<Rightarrow> Inr (Stdio command (ms_args s) (ms_env s))
      | (None, None) \<Rightarrow>
          Inl (''MCP server '' @ bt @ ms_name s @ bt @ '' must set either '' @ bt @ ''command'' @ bt @
            '' (stdio) or '' @ bt @ ''url'' @ bt @ '' (http)''))"

section \<open>What is printed\<close>

text \<open>The values \<open>Debug\<close> formats, a tree of fields.\<close>

datatype shown =
    ShText string
  | ShOption "shown option"
  | ShNat nat
  | ShBool bool
  | ShMode policy_mode
  | ShList "shown list"
  | ShMap "(string \<times> shown) list"
  | ShStruct string "(string \<times> shown) list"

definition stars :: shown where
  "stars = ShText ''***''"

definition masked :: "string option \<Rightarrow> shown" where
  "masked x = ShOption (map_option (\<lambda>_. stars) x)"

definition redact_values :: "(string \<times> string) list \<Rightarrow> shown" where
  "redact_values m = ShMap (map (\<lambda>k. (k, stars)) (sort_dedup (map fst m)))"

definition debug_server :: "mcp_server_config \<Rightarrow> shown" where
  "debug_server s = ShStruct ''McpServerConfig''
     [(''name'', ShText (ms_name s)), (''command'', ShOption (map_option ShText (ms_command s))),
      (''args'', ShList (map ShText (ms_args s))), (''env'', redact_values (ms_env s)),
      (''url'', ShOption (map_option ShText (ms_url s))), (''auth_token'', masked (ms_auth_token s)),
      (''headers'', redact_values (ms_headers s))]"

definition debug_config :: "config \<Rightarrow> shown" where
  "debug_config c = ShStruct ''Config''
     [(''provider'', ShText (cf_provider c)), (''model'', ShText (cf_model c)), (''api_key'', masked (cf_api_key c)),
      (''base_url'', ShOption (map_option ShText (cf_base_url c))),
      (''max_tokens'', ShOption (map_option ShNat (cf_max_tokens c))), (''api_token'', masked (cf_api_token c)),
      (''max_iterations'', ShOption (map_option ShNat (cf_max_iterations c))),
      (''system_prompt'', ShOption (map_option ShText (cf_system_prompt c))),
      (''audit_log'', ShOption (map_option ShText (cf_audit_log c))),
      (''mcp_servers'', ShList (map debug_server (cf_mcp_servers c))),
      (''allow_execute_command'', ShOption (map_option ShBool (cf_allow_execute_command c))),
      (''workspace_root'', ShOption (map_option ShText (cf_workspace_root c))),
      (''confine_tools'', ShOption (map_option ShBool (cf_confine_tools c))),
      (''tool_policy'', ShOption (map_option ShMode (cf_tool_policy c))),
      (''denied_commands'', ShList (map ShText (cf_denied_commands c)))]"

section \<open>Facts\<close>

lemma nonblank_Some: "nonblank s = Some v \<longleftrightarrow> v = trim s \<and> v \<noteq> []"
  by (auto simp: nonblank_def opt_filter_def)

text \<open>A value that is already trimmed and not blank, as an environment variable gives it back.\<close>

definition plain_value :: "string \<Rightarrow> bool" where
  "plain_value v \<longleftrightarrow> trim v = v \<and> v \<noteq> []"

lemma nonblank_plain: "plain_value v \<Longrightarrow> nonblank v = Some v"
  by (simp add: plain_value_def nonblank_Some)

lemma env_override_plain: "env k = Some v \<Longrightarrow> plain_value v \<Longrightarrow> env_override env k = Some v"
  by (simp add: env_override_def nonblank_plain)

text \<open>Replacing every secret of a configuration by other values of the same presence.\<close>

definition change_server :: "(string \<Rightarrow> string) \<Rightarrow> mcp_server_config \<Rightarrow> mcp_server_config" where
  "change_server f s = s\<lparr>ms_auth_token := map_option f (ms_auth_token s),
     ms_env := map (map_prod id f) (ms_env s), ms_headers := map (map_prod id f) (ms_headers s)\<rparr>"

definition change_secrets :: "(string \<Rightarrow> string) \<Rightarrow> config \<Rightarrow> config" where
  "change_secrets f c = c\<lparr>cf_api_key := map_option f (cf_api_key c), cf_api_token := map_option f (cf_api_token c),
     cf_mcp_servers := map (change_server f) (cf_mcp_servers c)\<rparr>"

section \<open>Properties\<close>

text \<open>
  Property C40.  Printing a configuration reveals no secret: replacing the API key, the API token,
  every server's token and every value of its environment and headers by anything else gives
  the same output.
\<close>

theorem debug_reveals_no_secret: "debug_config (change_secrets f c) = debug_config c"
proof -
  have masked: "masked (map_option f x) = masked x" for x
    by (cases x) (simp_all add: masked_def)
  have redacted: "redact_values (map (map_prod id f) m) = redact_values m" for m
    by (simp add: redact_values_def)
  have "debug_server (change_server f s) = debug_server s" for s
    by (simp add: debug_server_def change_server_def masked redacted)
  then show ?thesis by (simp add: debug_config_def change_secrets_def masked comp_def)
qed

end
