(* ===== verification/Mcp.thy ===== *)
theory Mcp
  imports Config
begin

text \<open>
  The MCP client (\<open>boitata-core/src/mcp.rs\<close>): connecting to a server, adapting each of its tools
  to the tool interface of the agent, and its resources to two more tools.  The protocol library
  is an argument, a service: what the server answers to each request, or that it refused, ran out
  of time or was cut off by a cancellation.
\<close>

section \<open>The service\<close>

datatype 'a reply = Answer 'a | Refused string | TimedOut | CutOff

record tool_hints =
  th_read_only :: "bool option"
  th_destructive :: "bool option"
  th_idempotent :: "bool option"
  th_open_world :: "bool option"

record remote_tool =
  rt_name :: string
  rt_description :: "string option"
  rt_input_schema :: "(string \<times> json) list"
  rt_hints :: "tool_hints option"

record remote_resource =
  rr_uri :: string
  rr_name :: string
  rr_mime_type :: "string option"
  rr_description :: "string option"

datatype resource_contents = TextContents string | BlobContents "string option" string | OtherContents

datatype content_block = TextBlock string | ImageBlock string string | OtherBlock

record call_result =
  cr_content :: "content_block list"
  cr_structured :: "json option"
  cr_is_error :: "bool option"

record 'w mcp_client =
  mc_name :: string
  mc_has_resources :: bool
  mc_tools :: "remote_tool list reply"
  mc_call :: "string \<Rightarrow> (string \<times> json) list option \<Rightarrow> 'w \<Rightarrow> call_result reply \<times> 'w"
  mc_list :: "'w \<Rightarrow> remote_resource list reply \<times> 'w"
  mc_read :: "string \<Rightarrow> 'w \<Rightarrow> resource_contents list reply \<times> 'w"

section \<open>Connecting\<close>

record http_config =
  hc_uri :: string
  hc_auth_header :: "string option"
  hc_headers :: "string \<rightharpoonup> string"

text \<open>Which header names and values are legal, and their normal form, belongs to the HTTP library.\<close>

fun collect_headers ::
    "(string \<Rightarrow> string option) \<Rightarrow> (string \<Rightarrow> string option) \<Rightarrow> (string \<times> string) list \<Rightarrow>
     (string \<rightharpoonup> string) \<Rightarrow> string + (string \<rightharpoonup> string)" where
  "collect_headers name_of value_of [] acc = Inr acc"
| "collect_headers name_of value_of ((k, v) # hs) acc =
     (case name_of k of
        None \<Rightarrow> Inl (''invalid HTTP header name '' @ bt @ k @ bt)
      | Some n \<Rightarrow>
          (case value_of v of
             None \<Rightarrow> Inl (''invalid HTTP header value for '' @ bt @ k @ bt)
           | Some x \<Rightarrow> collect_headers name_of value_of hs (acc(n \<mapsto> x))))"

definition build_http_config ::
    "(string \<Rightarrow> string option) \<Rightarrow> (string \<Rightarrow> string option) \<Rightarrow> string \<Rightarrow> string option \<Rightarrow>
     (string \<times> string) list \<Rightarrow> string + http_config" where
  "build_http_config name_of value_of url auth_token headers =
     and_then (collect_headers name_of value_of headers Map.empty)
       (\<lambda>hs. Inr \<lparr>hc_uri = url, hc_auth_header = auth_token, hc_headers = hs\<rparr>)"

definition build_stdio_transport :: "bool \<Rightarrow> string \<Rightarrow> string \<Rightarrow> string + unit" where
  "build_stdio_transport spawned name command =
     (if spawned then Inr ()
      else Inl (''failed to spawn MCP server '' @ bt @ name @ bt @ '' (command: '' @ command @ '')''))"

definition handshake :: "string \<Rightarrow> string \<Rightarrow> 'w mcp_client reply \<Rightarrow> string + 'w mcp_client" where
  "handshake name where_to r =
     (case r of
        Answer c \<Rightarrow> Inr (c\<lparr>mc_name := name\<rparr>)
      | TimedOut \<Rightarrow> Inl (''MCP handshake timed out for '' @ bt @ name @ bt @ where_to)
      | _ \<Rightarrow> Inl (''MCP handshake failed for '' @ bt @ name @ bt @ where_to))"

text \<open>\<open>serve_http\<close> and \<open>serve_stdio\<close> are the library's handshakes; the second knows if it could spawn.\<close>

definition mcp_connect ::
    "(string \<Rightarrow> string option) \<Rightarrow> (string \<Rightarrow> string option) \<Rightarrow> (http_config \<Rightarrow> 'w mcp_client reply) \<Rightarrow>
     (string \<Rightarrow> string list \<Rightarrow> (string \<times> string) list \<Rightarrow> 'w mcp_client reply option) \<Rightarrow>
     mcp_server_config \<Rightarrow> string + 'w mcp_client" where
  "mcp_connect name_of value_of serve_http serve_stdio s =
     and_then (server_transport s) (\<lambda>t. case t of
       Http url auth_token headers \<Rightarrow>
         and_then (build_http_config name_of value_of url auth_token headers) (\<lambda>hc.
           handshake (ms_name s) ('' ('' @ url @ '')'') (serve_http hc))
     | Stdio command args env \<Rightarrow>
         (case serve_stdio command args env of
            None \<Rightarrow> and_then (build_stdio_transport False (ms_name s) command) (\<lambda>u. Inl [])
          | Some r \<Rightarrow> and_then (build_stdio_transport True (ms_name s) command)
              (\<lambda>u. handshake (ms_name s) [] r)))"

section \<open>Names\<close>

definition max_tool_name_len :: nat where
  "max_tool_name_len = 64"

text \<open>ASCII letters and digits, the underscore and the dash.\<close>

definition name_char :: "char \<Rightarrow> bool" where
  "name_char c \<longleftrightarrow>
     (let n = (of_char c :: nat) in 97 \<le> n \<and> n \<le> 122 \<or> 65 \<le> n \<and> n \<le> 90 \<or> 48 \<le> n \<and> n \<le> 57) \<or>
     c = CHR ''_'' \<or> c = CHR ''-''"

text \<open>A character of several bytes becomes one underscore: only its first byte counts.\<close>

definition sanitize_tool_name :: "string \<Rightarrow> string" where
  "sanitize_tool_name name =
     take max_tool_name_len
       (map (\<lambda>c. if name_char c then c else CHR ''_'') (filter (\<lambda>c. \<not> cont_byte c) name))"

section \<open>Results\<close>

definition result_content :: "(json \<Rightarrow> string) \<Rightarrow> call_result \<Rightarrow> tool_content list" where
  "result_content to_text r =
     (let parts = map (\<lambda>b. case b of
                TextBlock t \<Rightarrow> TText t
              | ImageBlock mime_type data \<Rightarrow> TImage mime_type data
              | OtherBlock \<Rightarrow> TText ''[non-text content omitted]'') (cr_content r)
      in case (parts, cr_structured r) of
           ([], Some v) \<Rightarrow> [TText (to_text v)]
         | _ \<Rightarrow> parts)"

definition em_dash :: string where
  "em_dash = map char_of [226::nat, 128, 148]"

definition resource_contents_text :: "resource_contents list \<Rightarrow> string" where
  "resource_contents_text contents =
     join [CHR 0x0A] (map (\<lambda>c. case c of
         TextContents t \<Rightarrow> t
       | BlobContents mime_type blob \<Rightarrow>
           ''['' @ unwrap_or ''binary'' mime_type @ '' resource '' @ em_dash @ '' '' @ show_nat (length blob) @
           '' base64 characters omitted]''
       | OtherContents \<Rightarrow> ''[unsupported resource content omitted]'') contents)"

definition resource_line :: "remote_resource \<Rightarrow> string" where
  "resource_line r =
     ''- '' @ rr_uri r @ '' ('' @ rr_name r @ '')'' @
     (case rr_mime_type r of Some m \<Rightarrow> '' ['' @ m @ '']'' | None \<Rightarrow> []) @
     (case rr_description r of Some d \<Rightarrow> '': '' @ d | None \<Rightarrow> []) @ [CHR 0x0A]"

section \<open>Requests\<close>

text \<open>The outcome of a request, unless it was cut off.\<close>

definition mcp_call ::
    "(json \<Rightarrow> string) \<Rightarrow> string \<Rightarrow> call_result reply \<Rightarrow> (string + tool_content list) option" where
  "mcp_call to_text remote_name r =
     (let tool = ''MCP tool '' @ bt @ remote_name @ bt
      in case r of
           CutOff \<Rightarrow> None
         | TimedOut \<Rightarrow> Some (Inl (tool @ '' timed out''))
         | Refused e \<Rightarrow> Some (Inl (tool @ '' call failed: '' @ e))
         | Answer res \<Rightarrow>
             let content = result_content to_text res;
                 text = tool_content_text content
             in Some (if unwrap_or False (cr_is_error res)
                  then Inl (if text = [] then tool @ '' reported an error'' else text)
                  else Inr content))"

definition list_resources :: "string \<Rightarrow> remote_resource list reply \<Rightarrow> (string + string) option" where
  "list_resources name r =
     (case r of
        CutOff \<Rightarrow> None
      | TimedOut \<Rightarrow> Some (Inl (''resource listing timed out for '' @ bt @ name @ bt))
      | Refused e \<Rightarrow> Some (Inl (''resource listing failed for '' @ bt @ name @ bt))
      | Answer rs \<Rightarrow>
          Some (Inr (if rs = [] then ''(this server exposes no resources)''
                     else trim_end (concat (map resource_line rs)))))"

definition read_resource :: "string \<Rightarrow> resource_contents list reply \<Rightarrow> (string + string) option" where
  "read_resource uri r =
     (let what = ''reading resource '' @ bt @ uri @ bt
      in case r of
           CutOff \<Rightarrow> None
         | TimedOut \<Rightarrow> Some (Inl (what @ '' timed out''))
         | Refused e \<Rightarrow> Some (Inl (what @ '' failed: '' @ e))
         | Answer cs \<Rightarrow> Some (Inr (resource_contents_text cs)))"

section \<open>Adapted tools\<close>

text \<open>
  Racing a request against the cancellation token: a token already cancelled wins, and a request
  cut off counts as cancelled.
\<close>

definition race ::
    "('w \<Rightarrow> bool) \<Rightarrow> string \<Rightarrow> ('w \<Rightarrow> (string + tool_output) option \<times> 'w) \<Rightarrow> 'w \<Rightarrow>
     (tool_error + tool_output) \<times> 'w" where
  "race cancelled what request w =
     (if cancelled w then (Inl (ToolCancelled what), w)
      else case request w of
             (None, w1) \<Rightarrow> (Inl (ToolCancelled what), w1)
           | (Some r, w1) \<Rightarrow> (map_err ExecutionFailed r, w1))"

definition project_hints :: "tool_hints option \<Rightarrow> annotations" where
  "project_hints h =
     \<lparr>an_read_only = unwrap_or False (Option.bind h th_read_only),
      an_destructive = unwrap_or True (Option.bind h th_destructive),
      an_idempotent = unwrap_or False (Option.bind h th_idempotent),
      an_open_world = unwrap_or True (Option.bind h th_open_world)\<rparr>"

definition mcp_tool ::
    "(json \<Rightarrow> string) \<Rightarrow> ('w \<Rightarrow> bool) \<Rightarrow> 'w mcp_client \<Rightarrow> string \<Rightarrow> remote_tool \<Rightarrow> 'w tool" where
  "mcp_tool to_text cancelled c exposed t =
     \<lparr>tl_name = exposed, tl_description = unwrap_or [] (rt_description t),
      tl_input_schema = JObj (rt_input_schema t), tl_annotations = project_hints (rt_hints t),
      tl_execute = (\<lambda>args. race cancelled (''MCP tool '' @ bt @ rt_name t @ bt)
        (\<lambda>w. case mc_call c (rt_name t) (as_object args) w of
           (r, w1) \<Rightarrow> (mcp_call to_text (rt_name t) r, w1)))\<rparr>"

definition list_resources_tool :: "('w \<Rightarrow> bool) \<Rightarrow> 'w mcp_client \<Rightarrow> string \<Rightarrow> 'w tool" where
  "list_resources_tool cancelled c name =
     \<lparr>tl_name = name,
      tl_description = ''List the resources (documents and data) this MCP server exposes, with '' @
        ''their URIs, names, and descriptions. Use a returned URI with the matching '' @
        ''read_resource tool to fetch its contents.'',
      tl_input_schema = JObj [(''type'', JStr ''object''), (''properties'', JObj []), (''required'', JArr [])],
      tl_annotations = read_only_annotations,
      tl_execute = (\<lambda>args. race cancelled ''list_resources''
        (\<lambda>w. case mc_list c w of (r, w1) \<Rightarrow> (map_option (map_sum id output_text) (list_resources (mc_name c) r), w1)))\<rparr>"

definition read_resource_tool :: "('w \<Rightarrow> bool) \<Rightarrow> 'w mcp_client \<Rightarrow> string \<Rightarrow> 'w tool" where
  "read_resource_tool cancelled c name =
     \<lparr>tl_name = name,
      tl_description = ''Read the contents of a resource from this MCP server by its URI. Get '' @
        ''available URIs from the matching list_resources tool.'',
      tl_input_schema = JObj [(''type'', JStr ''object''),
        (''properties'', JObj [(''uri'',
           JObj [(''type'', JStr ''string''), (''description'', JStr ''The URI of the resource to read'')])]),
        (''required'', JArr [JStr ''uri''])],
      tl_annotations = read_only_annotations,
      tl_execute = (\<lambda>args w.
        case Option.bind (jget args ''uri'') as_str of
          None \<Rightarrow> (Inl (InvalidArguments name (''missing '' @ [CHR 0x27] @ ''uri'' @ [CHR 0x27] @ '' argument'')), w)
        | Some uri \<Rightarrow> race cancelled ''read_resource''
            (\<lambda>w. case mc_read c uri w of
               (r, w1) \<Rightarrow> (map_option (map_sum id output_text) (read_resource uri r), w1)) w)\<rparr>"

section \<open>Discovery\<close>

definition exposed_name :: "'w mcp_client \<Rightarrow> string \<Rightarrow> string" where
  "exposed_name c remote_name = sanitize_tool_name (mc_name c @ ''_'' @ remote_name)"

text \<open>Two remote names can become the same; the first keeps it.\<close>

fun adapt_tools ::
    "(json \<Rightarrow> string) \<Rightarrow> ('w \<Rightarrow> bool) \<Rightarrow> 'w mcp_client \<Rightarrow> remote_tool list \<Rightarrow> string list \<Rightarrow>
     'w tool list \<times> string list" where
  "adapt_tools to_text cancelled c [] seen = ([], seen)"
| "adapt_tools to_text cancelled c (t # ts) seen =
     (let exposed = exposed_name c (rt_name t)
      in if exposed \<in> set seen then adapt_tools to_text cancelled c ts seen
         else case adapt_tools to_text cancelled c ts (exposed # seen) of
                (tools, seen1) \<Rightarrow> (mcp_tool to_text cancelled c exposed t # tools, seen1))"

definition resource_tools :: "('w \<Rightarrow> bool) \<Rightarrow> 'w mcp_client \<Rightarrow> string list \<Rightarrow> 'w tool list" where
  "resource_tools cancelled c seen =
     (let list_name = exposed_name c ''list_resources'';
          read_name = exposed_name c ''read_resource''
      in (if list_name \<in> set seen then [] else [list_resources_tool cancelled c list_name]) @
         (if read_name \<in> set seen \<or> read_name = list_name then [] else [read_resource_tool cancelled c read_name]))"

definition discover_tools ::
    "(json \<Rightarrow> string) \<Rightarrow> ('w \<Rightarrow> bool) \<Rightarrow> 'w mcp_client \<Rightarrow> string + 'w tool list" where
  "discover_tools to_text cancelled c =
     (case mc_tools c of
        Answer ts \<Rightarrow>
          (case adapt_tools to_text cancelled c ts [] of
             (tools, seen) \<Rightarrow> Inr (tools @ (if mc_has_resources c then resource_tools cancelled c seen else [])))
      | TimedOut \<Rightarrow> Inl (''tool discovery timed out for '' @ bt @ mc_name c @ bt)
      | _ \<Rightarrow> Inl (''tool discovery failed for '' @ bt @ mc_name c @ bt))"

section \<open>Facts\<close>

definition valid_tool_name :: "string \<Rightarrow> bool" where
  "valid_tool_name n \<longleftrightarrow> length n \<le> max_tool_name_len \<and> list_all name_char n"

lemma sanitize_valid: "valid_tool_name (sanitize_tool_name n)"
  by (auto simp: valid_tool_name_def sanitize_tool_name_def list_all_iff name_char_def dest!: in_set_takeD)

text \<open>A name that fits is left alone.\<close>

lemma sanitize_valid_id:
  assumes "valid_tool_name n"
  shows "sanitize_tool_name n = n"
proof -
  have "name_char c \<Longrightarrow> \<not> cont_byte c" for c
    by (auto simp: name_char_def cont_byte_def Let_def)
  with assms have "filter (\<lambda>c. \<not> cont_byte c) n = n" "map (\<lambda>c. if name_char c then c else CHR ''_'') n = n"
    by (auto simp: valid_tool_name_def list_all_iff filter_id_conv intro: map_idI)
  with assms show ?thesis by (simp add: sanitize_tool_name_def valid_tool_name_def)
qed

lemma adapt_tools_names:
  "adapt_tools to_text cancelled c ts seen = (tools, seen1) \<Longrightarrow>
   set seen1 = set seen \<union> tl_name ` set tools \<and> distinct (map tl_name tools) \<and>
   set seen \<inter> tl_name ` set tools = {} \<and>
   (\<forall>t \<in> set tools. \<exists>r \<in> set ts. t = mcp_tool to_text cancelled c (exposed_name c (rt_name r)) r) \<and>
   (\<forall>r \<in> set ts. exposed_name c (rt_name r) \<in> set seen1)"
proof (induction ts arbitrary: seen tools)
  case (Cons r ts)
  let ?e = "exposed_name c (rt_name r)"
  show ?case
  proof (cases "?e \<in> set seen")
    case True
    with Cons show ?thesis by fastforce
  next
    case False
    with Cons.prems obtain tools1 where rec: "adapt_tools to_text cancelled c ts (?e # seen) = (tools1, seen1)"
      and tools: "tools = mcp_tool to_text cancelled c ?e r # tools1"
      by (auto simp: Let_def split: prod.splits)
    have name: "tl_name (mcp_tool to_text cancelled c ?e r) = ?e" by (simp add: mcp_tool_def)
    from Cons.IH [OF rec] False show ?thesis unfolding tools by (auto simp: name)
  qed
qed simp

lemma exposed_valid: "valid_tool_name (exposed_name c n)"
  by (simp add: exposed_name_def sanitize_valid)

section \<open>Properties\<close>


end
