(* ===== verification/Runtime.thy ===== *)
theory Runtime
  imports Builtins Mcp Anthropic Chat_Providers
begin

text \<open>
  Assembling a run from a configuration (\<open>boitata-core/src/runtime.rs\<close>): the provider, the
  environment that reproduces it in a sandbox, the workspace, the tools with those of the MCP
  servers, and the policy.
\<close>

section \<open>The provider\<close>

datatype any_provider =
    AnthropicP anthropic_provider
  | OpenaiP openai_provider
  | OllamaP ollama_provider

definition default_max_tokens :: nat where
  "default_max_tokens = 4096"

definition build_provider :: "environment \<Rightarrow> config \<Rightarrow> string + any_provider" where
  "build_provider env c =
     (let max_tokens = unwrap_or default_max_tokens (cf_max_tokens c);
          name = resolve_provider env c;
          model = resolve_model env c;
          base_url = resolve_base_url env c
      in if name = ''anthropic'' then
           and_then (ok_or ''anthropic provider requires an api_key (config or BOITATA_API_KEY)''
               (resolve_api_key env c)) (\<lambda>key.
             Inr (AnthropicP (anthropic_with_max_tokens (anthropic_with_config key model base_url) max_tokens)))
         else if name = ''openai'' then
           and_then (ok_or ''openai provider requires an api_key (config or BOITATA_API_KEY)''
               (resolve_api_key env c)) (\<lambda>key.
             Inr (OpenaiP (openai_with_max_tokens (openai_with_config key model base_url) max_tokens)))
         else if name = ''ollama'' then
           Inr (OllamaP (ollama_with_max_tokens (ollama_with_config model base_url) max_tokens))
         else Inl (''unknown provider '' @ bt @ name @ bt @ '' (expected: anthropic, openai, ollama)''))"

text \<open>What the agent loop reads of a provider.\<close>

fun provider_facts :: "any_provider \<Rightarrow> provider" where
  "provider_facts (AnthropicP p) =
     \<lparr>pv_name = ''anthropic'', pv_model = an_model p, pv_supports_tools = True,
      pv_max_tokens = an_max_tokens p, pv_context_limit = anthropic_context_limit\<rparr>"
| "provider_facts (OpenaiP p) =
     \<lparr>pv_name = ''openai'', pv_model = oa_model p, pv_supports_tools = True,
      pv_max_tokens = oa_max_tokens p, pv_context_limit = 128000\<rparr>"
| "provider_facts (OllamaP p) =
     \<lparr>pv_name = ''ollama'', pv_model = ol_model p, pv_supports_tools = True,
      pv_max_tokens = ol_max_tokens p, pv_context_limit = 128000\<rparr>"

definition provider_env :: "environment \<Rightarrow> config \<Rightarrow> environment" where
  "provider_env env c =
     (let m = [''BOITATA_PROVIDER'' \<mapsto> resolve_provider env c, ''BOITATA_MODEL'' \<mapsto> resolve_model env c];
          m1 = (case resolve_base_url env c of Some url \<Rightarrow> m(''BOITATA_BASE_URL'' \<mapsto> url) | None \<Rightarrow> m)
      in case resolve_api_key env c of Some key \<Rightarrow> m1(''BOITATA_API_KEY'' \<mapsto> key) | None \<Rightarrow> m1)"

section \<open>The workspace\<close>

text \<open>The working directory is \<open>None\<close> when the system cannot say.\<close>

definition init_workspace :: "config \<Rightarrow> path option \<Rightarrow> filesystem \<Rightarrow> path option option \<Rightarrow> path option option" where
  "init_workspace c current fs st =
     (let root = (if unwrap_or True (cf_confine_tools c)
                  then Some (case cf_workspace_root c of
                               Some r \<Rightarrow> path_components r
                             | None \<Rightarrow> unwrap_or [CurDir] current)
                  else None)
      in ws_init fs st root)"

section \<open>The tools\<close>

definition builtin_tools :: "machine \<Rightarrow> config \<Rightarrow> host tool list" where
  "builtin_tools m c =
     [file_read_tool m, file_write_tool m, file_edit_tool m, list_directory_tool m, search_tool m,
      git_status_tool m, git_diff_tool m, git_commit_tool m, git_branch_tool m, cargo_check_tool m,
      cargo_clippy_tool m, cargo_fmt_tool m, cargo_test_tool m, cargo_add_tool m] @
     (if unwrap_or True (cf_allow_execute_command c) then [execute_command_tool m] else [])"

text \<open>Registering the tools of a server, counting those that were added.\<close>

fun register_counting :: "host registry \<Rightarrow> host tool list \<Rightarrow> nat \<times> host registry" where
  "register_counting reg [] = (0, reg)"
| "register_counting reg (t # ts) =
     (case register reg t of (added, reg1) \<Rightarrow>
        case register_counting reg1 ts of (n, reg2) \<Rightarrow> ((if added then n + 1 else n), reg2))"

definition connect_mcp ::
    "(mcp_server_config \<Rightarrow> string + host mcp_client) \<Rightarrow> (host mcp_client \<Rightarrow> string + host tool list) \<Rightarrow>
     mcp_server_config \<Rightarrow> host registry \<Rightarrow> (string + nat) \<times> host registry" where
  "connect_mcp connect discover s reg =
     (case and_then (connect s) discover of
        Inl e \<Rightarrow> (Inl e, reg)
      | Inr ts \<Rightarrow> (case register_counting reg ts of (n, reg1) \<Rightarrow> (Inr n, reg1)))"

text \<open>A server that cannot be reached is skipped; the log says what became of each.\<close>

fun connect_servers ::
    "(mcp_server_config \<Rightarrow> string + host mcp_client) \<Rightarrow> (host mcp_client \<Rightarrow> string + host tool list) \<Rightarrow>
     mcp_server_config list \<Rightarrow> host registry \<Rightarrow> (string + nat) list \<times> host registry" where
  "connect_servers connect discover [] reg = ([], reg)"
| "connect_servers connect discover (s # ss) reg =
     (case connect_mcp connect discover s reg of (r, reg1) \<Rightarrow>
        case connect_servers connect discover ss reg1 of (rs, reg2) \<Rightarrow> (r # rs, reg2))"

definition build_tools ::
    "machine \<Rightarrow> (mcp_server_config \<Rightarrow> string + host mcp_client) \<Rightarrow>
     (host mcp_client \<Rightarrow> string + host tool list) \<Rightarrow> config \<Rightarrow> host registry" where
  "build_tools m connect discover c =
     snd (connect_servers connect discover (cf_mcp_servers c)
       (foldl (\<lambda>reg t. snd (register reg t)) new_registry (builtin_tools m c)))"

section \<open>The policy\<close>

definition build_policy :: "(string \<Rightarrow> string + string) \<Rightarrow> config \<Rightarrow> string + policy" where
  "build_policy compile c =
     map_err (\<lambda>e. ''invalid '' @ bt @ ''denied_commands'' @ bt @ '' regex in config'')
       (policy_new compile (unwrap_or AllowAll (cf_tool_policy c)) (cf_denied_commands c))"

section \<open>The registry that is built\<close>

text \<open>Registration only ever adds: by the laws of the registry.\<close>

lemma register_counting_all: "snd (register_counting reg ts) = tool_table.add_all reg ts"
proof (induction ts arbitrary: reg)
  case (Cons t ts)
  have "snd (register_counting reg (t # ts)) = snd (register_counting (snd (register reg t)) ts)"
    by (simp split: prod.split)
  with Cons show ?case by (simp add: tool_table.add_all_def)
qed (simp add: tool_table.add_all_def)

lemma connect_mcp_keeps:
  assumes "reg k = Some t"
  shows "snd (connect_mcp connect discover s reg) k = Some t"
proof (cases "and_then (connect s) discover")
  case (Inr ts)
  have "snd (register_counting reg ts) k = Some t"
    using tool_table.add_all_keeps [of reg k t ts] assms by (simp add: register_counting_all)
  with Inr show ?thesis by (cases "register_counting reg ts") (simp add: connect_mcp_def)
qed (simp add: connect_mcp_def assms)

lemma connect_servers_keeps: "reg k = Some t \<Longrightarrow> snd (connect_servers connect discover ss reg) k = Some t"
proof (induction ss arbitrary: reg)
  case (Cons s ss)
  have "snd (connect_servers connect discover (s # ss) reg) =
      snd (connect_servers connect discover ss (snd (connect_mcp connect discover s reg)))"
    by (simp split: prod.split)
  moreover have "snd (connect_mcp connect discover s reg) k = Some t"
    using Cons.prems by (rule connect_mcp_keeps)
  ultimately show ?case using Cons.IH [of "snd (connect_mcp connect discover s reg)"] by simp
qed simp

lemma builtin_names:
  "map tl_name (builtin_tools m c) =
     [''file_read'', ''file_write'', ''file_edit'', ''list_directory'', ''search'', ''git_status'', ''git_diff'',
      ''git_commit'', ''git_branch'', ''cargo_check'', ''cargo_clippy'', ''cargo_fmt'', ''cargo_test'', ''cargo_add''] @
     (if unwrap_or True (cf_allow_execute_command c) then [''execute_command''] else [])"
  by (simp add: builtin_tools_def file_read_tool_def file_write_tool_def file_edit_tool_def list_directory_tool_def
      search_tool_def git_status_tool_def git_diff_tool_def git_commit_tool_def git_branch_tool_def
      cargo_check_tool_def cargo_clippy_tool_def cargo_fmt_tool_def cargo_test_tool_def cargo_add_tool_def
      execute_command_tool_def)

lemma builtin_names_distinct: "distinct (map tl_name (builtin_tools m c))"
  unfolding builtin_names by simp

lemma find_distinct: "distinct (map f xs) \<Longrightarrow> x \<in> set xs \<Longrightarrow> find (\<lambda>y. f y = f x) xs = Some x"
  by (induction xs) (auto simp: image_iff)

lemma build_tools_builtin:
  assumes "t \<in> set (builtin_tools m c)"
  shows "build_tools m connect discover c (tl_name t) = Some t"
proof -
  have "foldl (\<lambda>reg t. snd (register reg t)) new_registry (builtin_tools m c) (tl_name t) = Some t"
    using tool_table.look_add_all [of new_registry "builtin_tools m c" "tl_name t"]
      find_distinct [OF builtin_names_distinct assms]
    by (simp add: tool_table.add_all_def new_registry_def)
  then show ?thesis unfolding build_tools_def by (rule connect_servers_keeps)
qed

section \<open>What the read-only tools do\<close>

definition inspects :: "invocation \<Rightarrow> bool" where
  "inspects iv \<longleftrightarrow>
     iv_program iv = ''rg'' \<or>
     iv_program iv = ''git'' \<and> (\<exists>rest. iv_args iv = ''status'' # rest \<or> iv_args iv = ''diff'' # rest)"

text \<open>Nothing happened, or one inspecting program ran.\<close>

definition only_inspected :: "host \<Rightarrow> host \<Rightarrow> bool" where
  "only_inspected h h1 \<longleftrightarrow>
     h1 = h \<or> (\<exists>iv files. inspects iv \<and> h1 = h\<lparr>ho_fs := files, ho_started := ho_started h @ [iv]\<rparr>)"

lemma run_program_inspected:
  assumes "\<And>i. iv = Inr i \<Longrightarrow> inspects i"
  shows "only_inspected h (snd (run_program m finish iv h))"
  using assms by (cases iv) (auto simp: run_program_def only_inspected_def Let_def split: prod.split)

lemma search_inspects: "search_invocation fs ws args = Inr iv \<Longrightarrow> inspects iv"
  by (auto simp: search_invocation_def and_then_Inr_iff inspects_def split: if_splits)

lemma git_status_inspects: "git_status args = Inr iv \<Longrightarrow> inspects iv"
  by (auto simp: git_status_def git_def inspects_def)

lemma git_diff_inspects: "git_diff fs ws args = Inr iv \<Longrightarrow> inspects iv"
  by (auto simp: git_diff_def git_def and_then_Inr_iff inspects_def Let_def split: option.splits)

lemma read_only_builtin:
  assumes "t \<in> set (builtin_tools m c)" and "an_read_only (tl_annotations t)"
  shows "only_inspected h (snd (tl_execute t args h))"
proof -
  have "t \<in> {file_read_tool m, list_directory_tool m, search_tool m, git_status_tool m, git_diff_tool m}"
    using assms
    by (auto simp: builtin_tools_def file_write_tool_def file_edit_tool_def git_commit_tool_def git_branch_tool_def
        cargo_check_tool_def cargo_clippy_tool_def cargo_fmt_tool_def cargo_test_tool_def cargo_add_tool_def
        execute_command_tool_def default_annotations_def split: if_splits)
  moreover have "only_inspected h (snd (tl_execute (search_tool m) args h))"
    "only_inspected h (snd (tl_execute (git_status_tool m) args h))"
    "only_inspected h (snd (tl_execute (git_diff_tool m) args h))"
    using search_inspects git_status_inspects git_diff_inspects
    by (auto simp: search_tool_def git_status_tool_def git_diff_tool_def intro!: run_program_inspected)
  moreover have "only_inspected h (snd (tl_execute (file_read_tool m) args h))"
    "only_inspected h (snd (tl_execute (list_directory_tool m) args h))"
    by (simp_all add: file_read_tool_def list_directory_tool_def only_inspected_def)
  ultimately show ?thesis by auto
qed

section \<open>Properties\<close>


definition sample_machine :: machine where
  "sample_machine =
     \<lparr>ma_faults = (\<lambda>h. no_faults), ma_uuid = (\<lambda>h. ''id''), ma_order = (\<lambda>h names. names),
      ma_child = (\<lambda>iv h. (ChildTimedOut, ho_fs h))\<rparr>"

definition sample_config :: config where
  "sample_config =
     \<lparr>cf_provider = ''openai'', cf_model = ''glm-4.6'', cf_api_key = Some ''k'', cf_base_url = None,
      cf_max_tokens = None, cf_max_iterations = None, cf_system_prompt = None, cf_audit_log = None,
      cf_mcp_servers = [], cf_allow_execute_command = None, cf_workspace_root = None, cf_confine_tools = None,
      cf_tool_policy = Some ReadOnly, cf_denied_commands = [], cf_auto_compact_threshold = None,
      cf_blueprint_max_steps = None, cf_blueprint_max_retries = None, cf_state_db = None, cf_api_token = None\<rparr>"

definition sample_host :: host where
  "sample_host = \<lparr>ho_fs = sample_fs, ho_workspace = Some (Some sample_root), ho_started = []\<rparr>"


text \<open>
  The environment a sandbox receives reproduces the provider: when the resolved
  values are trimmed and not blank, a process with this environment, and a configuration that
  sets the same token limit but neither a key nor an address, builds the same provider.
\<close>

theorem forwarded_provider_same:
  assumes "list_all plain_value [resolve_provider env c, resolve_model env c]"
    and "pred_option plain_value (resolve_base_url env c)"
    and "cf_max_tokens c1 = cf_max_tokens c" and "cf_api_key c1 = None" and "cf_base_url c1 = None"
  shows "build_provider (provider_env env c) c1 = build_provider env c"
proof -
  let ?e = "provider_env env c"
  have trimmed: "nonblank v = Some v" if "nonblank x = Some v" for x v
    using that trim_idem [of x] by (auto simp: nonblank_Some)
  have key: "resolve_api_key env c = Some k \<Longrightarrow> nonblank k = Some k" for k
    using trimmed by (auto simp: resolve_api_key_def bind_eq_Some_conv)
  have "env_override ?e ''BOITATA_PROVIDER'' = Some (resolve_provider env c)"
    "env_override ?e ''BOITATA_MODEL'' = Some (resolve_model env c)"
    using assms(1)
    by (auto simp: provider_env_def env_override_def nonblank_plain Let_def split: option.split)
  moreover have "env_override ?e ''BOITATA_BASE_URL'' = resolve_base_url env c"
    using assms(2) by (cases "resolve_base_url env c")
      (auto simp: provider_env_def env_override_def nonblank_plain Let_def split: option.split)
  moreover have "env_override ?e ''BOITATA_API_KEY'' = resolve_api_key env c"
    using key by (cases "resolve_api_key env c")
      (auto simp: provider_env_def env_override_def Let_def split: option.split)
  ultimately have "resolve_provider ?e c1 = resolve_provider env c" "resolve_model ?e c1 = resolve_model env c"
    "resolve_base_url ?e c1 = resolve_base_url env c" "resolve_api_key ?e c1 = resolve_api_key env c"
    using assms(4,5) key
    by (simp_all add: resolve_provider_def [of ?e] resolve_model_def [of ?e] resolve_base_url_def [of ?e]
        resolve_api_key_def [of ?e] or_opt_def bind_eq_Some_conv split: option.split)
  with assms(3) show ?thesis unfolding build_provider_def by (simp only:)
qed

theorem forwarded_provider_same_witness:
  "build_provider (provider_env Map.empty sample_config) (sample_config\<lparr>cf_provider := ''ollama'', cf_api_key := None\<rparr>) =
     build_provider Map.empty sample_config"
proof -
  have "plain_value ''openai'' \<and> plain_value ''glm-4.6''"
    by (simp add: plain_value_def trim_graphic graphic_def)
  then have "list_all plain_value [resolve_provider Map.empty sample_config, resolve_model Map.empty sample_config]"
    by (simp add: resolve_provider_def resolve_model_def env_override_def sample_config_def)
  moreover have "pred_option plain_value (resolve_base_url Map.empty sample_config)"
    by (simp add: resolve_base_url_def env_override_def sample_config_def)
  ultimately show ?thesis by (rule forwarded_provider_same) (simp_all add: sample_config_def)
qed

end
