(* ===== verification/Server_State.thy ===== *)
theory Server_State
  imports Executor Audit_Sinks Config
begin

text \<open>
  The server's shared state (\<open>boitata-server/src/state.rs\<close>): run handles, the bounded registry of
  runs, and the wire shape of a result.

  A handle is shared between its background task and the HTTP handlers, so handles live in a
  store of addresses: the registry maps run ids to addresses, and a background task keeps the
  address of its handle however the registry changes.
\<close>

section \<open>Results\<close>

datatype run_status =
    SRunning
  | SSucceeded
  | SFailed "string option"
  | SCancelled
  | SSuspended

record run_result =
  rz_success :: bool
  rz_final_message :: "string option"
  rz_error :: "string option"
  rz_iterations :: "nat option"
  rz_tool_calls :: "tool_call_summary list"
  rz_transcript :: "(string \<times> string) list"

definition result_from_task :: "task_result \<Rightarrow> run_result" where
  "result_from_task r =
     \<lparr>rz_success = rs_success r, rz_final_message = rs_final_message r, rz_error = rs_error r,
      rz_iterations = Some (rs_iterations r), rz_tool_calls = rs_tool_calls r, rz_transcript = []\<rparr>"

definition result_from_state :: "state \<Rightarrow> run_result" where
  "result_from_state s =
     (let t = transcript s
      in \<lparr>rz_success = (status s = Some Ok),
          rz_final_message = (if t = [] then None else Some (snd (last t))),
          rz_error = (case status s of
             Some Failed \<Rightarrow> Some ''blueprint finished with a failing step''
           | None \<Rightarrow> Some ''blueprint finished with no node having run''
           | Some Ok \<Rightarrow> None),
          rz_iterations = None, rz_tool_calls = [], rz_transcript = t\<rparr>)"

section \<open>Handles\<close>

record run_handle =
  rh_id :: string
  rh_task :: string
  rh_blueprint :: "string option"
  rh_started_at :: nat
  rh_status :: run_status
  rh_result :: "run_result option"
  rh_cancelled :: bool
  rh_finished :: bool
  rh_channel :: channel_sink

record run_summary =
  sy_id :: string
  sy_task :: string
  sy_blueprint :: "string option"
  sy_status :: run_status
  sy_started_at :: nat

definition handle_summary :: "run_handle \<Rightarrow> run_summary" where
  "handle_summary h =
     \<lparr>sy_id = rh_id h, sy_task = rh_task h, sy_blueprint = rh_blueprint h, sy_status = rh_status h,
      sy_started_at = rh_started_at h\<rparr>"

definition new_handle :: "string \<Rightarrow> string \<Rightarrow> string option \<Rightarrow> nat \<Rightarrow> run_handle" where
  "new_handle i t blueprint now =
     \<lparr>rh_id = i, rh_task = t, rh_blueprint = blueprint, rh_started_at = now, rh_status = SRunning,
      rh_result = None, rh_cancelled = False, rh_finished = False, rh_channel = new_channel_sink\<rparr>"

section \<open>The server\<close>

text \<open>A background task: the address of its handle, and whether its guard is disarmed.\<close>

record job =
  jb_handle :: nat
  jb_recorded :: bool

record server =
  sv_handles :: "nat \<rightharpoonup> run_handle"
  sv_next :: nat
  sv_runs :: "(string \<times> nat) list"
  sv_jobs :: "job list"
  sv_permits :: nat
  sv_blueprints :: "(string \<times> string) list"
  sv_store :: store

definition max_runs :: nat where
  "max_runs = 1000"

definition max_concurrent_runs :: nat where
  "max_concurrent_runs = 16"

definition new_server :: "(string \<times> string) list \<Rightarrow> store \<Rightarrow> server" where
  "new_server blueprints st =
     \<lparr>sv_handles = Map.empty, sv_next = 0, sv_runs = [], sv_jobs = [], sv_permits = max_concurrent_runs,
      sv_blueprints = blueprints, sv_store = st\<rparr>"

definition get_run :: "server \<Rightarrow> string \<Rightarrow> (nat \<times> run_handle) option" where
  "get_run s i = Option.bind (map_of (sv_runs s) i) (\<lambda>a. map_option (Pair a) (sv_handles s a))"

definition change_handle :: "nat \<Rightarrow> (run_handle \<Rightarrow> run_handle) \<Rightarrow> server \<Rightarrow> server" where
  "change_handle a f s = s\<lparr>sv_handles := (sv_handles s)(a := map_option f (sv_handles s a))\<rparr>"

section \<open>The registry\<close>

text \<open>
  The finished runs, oldest first.  The hash map lists its entries in an order of its own, which
  decides between runs started at the same moment: \<open>rank\<close> is that order.
\<close>

definition finished_oldest :: "(string \<Rightarrow> nat) \<Rightarrow> (nat \<rightharpoonup> run_handle) \<Rightarrow> (string \<times> nat) list \<Rightarrow> string list" where
  "finished_oldest rank handles runs =
     map rh_id (sort_key rh_started_at (filter (\<lambda>h. rh_status h \<noteq> SRunning)
       (List.map_filter (\<lambda>(i, a). handles a) (sort_key (\<lambda>(i, a). rank i) runs))))"

definition insert_evicting ::
    "(string \<Rightarrow> nat) \<Rightarrow> (nat \<rightharpoonup> run_handle) \<Rightarrow> (string \<times> nat) list \<Rightarrow> string \<Rightarrow> nat \<Rightarrow> (string \<times> nat) list" where
  "insert_evicting rank handles runs i a =
     (let runs1 = (i, a) # filter (\<lambda>(j, b). j \<noteq> i) runs
      in if max_runs < length runs1 then
           (let evicted = take (length runs1 - max_runs) (finished_oldest rank handles runs1)
            in filter (\<lambda>(j, b). j \<notin> set evicted) runs1)
         else runs1)"

text \<open>A new handle at a fresh address, and its entry in the registry.\<close>

definition register_run :: "(string \<Rightarrow> nat) \<Rightarrow> run_handle \<Rightarrow> server \<Rightarrow> nat \<times> server" where
  "register_run rank h s =
     (let a = sv_next s;
          handles = (sv_handles s)(a \<mapsto> h)
      in (a, s\<lparr>sv_handles := handles, sv_next := Suc a,
              sv_runs := insert_evicting rank handles (sv_runs s) (rh_id h) a\<rparr>))"

definition try_register_run :: "(string \<Rightarrow> nat) \<Rightarrow> run_handle \<Rightarrow> server \<Rightarrow> (nat \<times> server) option" where
  "try_register_run rank h s =
     (case get_run s (rh_id h) of
        Some (a, old) \<Rightarrow> if rh_status old = SRunning then None else Some (register_run rank h s)
      | None \<Rightarrow> Some (register_run rank h s))"

section \<open>What eviction keeps\<close>

lemma finished_oldest_mem:
  "j \<in> set (finished_oldest rank handles runs) \<longleftrightarrow>
     (\<exists>(i, a) \<in> set runs. \<exists>h. handles a = Some h \<and> rh_status h \<noteq> SRunning \<and> j = rh_id h)"
  by (auto simp: finished_oldest_def List.map_filter_def image_iff) force+

end
