(* ===== verification/Library.thy ===== *)
theory Library
  imports Yaml
begin

text \<open>
  Loading blueprints from files (\<open>boitata-orchestrator/src/library.rs\<close>): one file by its path,
  and the catalog of a directory by the stems of its files.  The disk and the YAML parser are
  arguments.
\<close>

record library_disk =
  ld_is_file :: "string \<Rightarrow> bool"
  ld_read :: "string \<Rightarrow> string + string"
  ld_parse :: "string \<Rightarrow> string + blueprint_def"

definition load_blueprint :: "library_disk \<Rightarrow> string \<Rightarrow> string + graph" where
  "load_blueprint d path =
     (if \<not> ld_is_file d path then
        Inl (''blueprint file '' @ bt @ path @ bt @ '' not found (blueprints are YAML files; '' @
             ''see examples/blueprints/ for ready-to-copy starting points)'')
      else
        and_then (map_err (\<lambda>e. ''failed to read blueprint file '' @ bt @ path @ bt @ '': '' @ e) (ld_read d path))
          (\<lambda>src. map_err (\<lambda>e. ''failed to load blueprint from '' @ bt @ path @ bt @ '': '' @ e)
             (and_then (ld_parse d src) into_graph)))"

text \<open>
  A directory entry as the system gives it: its path, extension and stem, the texts \<open>None\<close> when
  they are not UTF-8.
\<close>

record dir_entry =
  de_path :: "string option"
  de_shown :: string
  de_extension :: "string option"
  de_stem :: "string option"
  de_is_file :: bool

definition is_yaml :: "dir_entry \<Rightarrow> bool" where
  "is_yaml e \<longleftrightarrow> de_extension e = Some ''yaml'' \<or> de_extension e = Some ''yml''"

fun discover_onto ::
    "library_disk \<Rightarrow> string \<Rightarrow> (string + dir_entry) list \<Rightarrow> (string \<rightharpoonup> string) \<Rightarrow>
     string + (string \<rightharpoonup> string)" where
  "discover_onto d dir [] found = Inr found"
| "discover_onto d dir (Inl err # es) found =
     Inl (''failed to read an entry in '' @ bt @ dir @ bt @ '': '' @ err)"
| "discover_onto d dir (Inr e # es) found =
     (if \<not> de_is_file e \<or> \<not> is_yaml e then discover_onto d dir es found
      else
        and_then (ok_or (''blueprint file '' @ bt @ de_shown e @ bt @ '' has a non-UTF-8 name'') (de_stem e)) (\<lambda>name.
        and_then (ok_or (''blueprint path '' @ bt @ de_shown e @ bt @ '' is not valid UTF-8'') (de_path e)) (\<lambda>path.
        and_then (map_err (\<lambda>err. ''blueprint '' @ bt @ name @ bt @ '' in '' @ bt @ dir @ bt @ '' is invalid: '' @ err)
            (load_blueprint d path)) (\<lambda>g.
          discover_onto d dir es (found(name \<mapsto> path))))))"

definition discover ::
    "library_disk \<Rightarrow> string \<Rightarrow> string + (string + dir_entry) list \<Rightarrow> string + (string \<rightharpoonup> string)" where
  "discover d dir entries =
     and_then (map_err (\<lambda>e. ''failed to read blueprints directory '' @ bt @ dir @ bt @ '': '' @ e) entries)
       (\<lambda>es. discover_onto d dir es Map.empty)"

section \<open>Facts\<close>

text \<open>Every blueprint in the catalog was compiled when it was found.\<close>

lemma discover_onto_loads:
  "discover_onto d dir es found = Inr m \<Longrightarrow> (\<And>n p. found n = Some p \<Longrightarrow> \<exists>g. load_blueprint d p = Inr g) \<Longrightarrow>
   m n = Some p \<Longrightarrow> \<exists>g. load_blueprint d p = Inr g"
proof (induction d dir es found rule: discover_onto.induct)
  case (3 d dir e es found)
  show ?case
  proof (cases "\<not> de_is_file e \<or> \<not> is_yaml e")
    case True
    with 3 show ?thesis by auto
  next
    case False
    with "3.prems"(1) obtain name path g where l: "de_stem e = Some name" "de_path e = Some path"
      "load_blueprint d path = Inr g" and rest: "discover_onto d dir es (found(name \<mapsto> path)) = Inr m"
      by (auto simp: and_then_Inr_iff ok_or_def split: option.splits)
    have "\<exists>g. load_blueprint d q = Inr g" if "(found(name \<mapsto> path)) n = Some q" for n q
      using that "3.prems"(2) [of n q] l(3) by (cases "n = name") auto
    from "3.IH"(2) [OF False rest this "3.prems"(3)] show ?thesis .
  qed
qed auto

lemma discovered_load:
  "discover d dir entries = Inr m \<Longrightarrow> m n = Some p \<Longrightarrow> \<exists>g. load_blueprint d p = Inr g"
  by (auto simp: discover_def and_then_Inr_iff dest: discover_onto_loads)

text \<open>Two files with one stem: the one listed later silently takes the name.\<close>

lemma equal_stems_overwritten:
  assumes "load_blueprint d ''a.yaml'' = Inr g" and "load_blueprint d ''a.yml'' = Inr h"
  shows "discover d dir (Inr
     [Inr \<lparr>de_path = Some ''a.yaml'', de_shown = ''a.yaml'', de_extension = Some ''yaml'', de_stem = Some ''a'',
           de_is_file = True\<rparr>,
      Inr \<lparr>de_path = Some ''a.yml'', de_shown = ''a.yml'', de_extension = Some ''yml'', de_stem = Some ''a'',
           de_is_file = True\<rparr>]) = Inr [''a'' \<mapsto> ''a.yml'']"
  using assms by (simp add: discover_def is_yaml_def)

end
