(* ===== verification/Server_Api.thy ===== *)
theory Server_Api
  imports Server_State Library
begin

text \<open>
  The server's run handlers and background tasks (\<open>boitata-server/src/api.rs\<close>): starting,
  listing, reading, cancelling and resuming runs, and how a task records its end.

  Each function is one critical section of the code.  Resuming is two: the early check and,
  after the database has answered, the claim; other requests may come between.  What the agent
  or the executor returns is an argument of the step that records it.
\<close>

section \<open>Errors\<close>

record api_error =
  ae_status :: nat
  ae_message :: string

definition bad_request :: "string \<Rightarrow> api_error" where
  "bad_request m = \<lparr>ae_status = 400, ae_message = m\<rparr>"

definition unauthorized :: api_error where
  "unauthorized = \<lparr>ae_status = 401, ae_message = ''missing or invalid API token''\<rparr>"

definition not_found :: api_error where
  "not_found = \<lparr>ae_status = 404, ae_message = ''run not found''\<rparr>"

definition not_found_msg :: "string \<Rightarrow> api_error" where
  "not_found_msg m = \<lparr>ae_status = 404, ae_message = m\<rparr>"

definition conflict :: "string \<Rightarrow> api_error" where
  "conflict m = \<lparr>ae_status = 409, ae_message = m\<rparr>"

definition internal_error :: "string \<Rightarrow> api_error" where
  "internal_error m = \<lparr>ae_status = 500, ae_message = m\<rparr>"

definition service_unavailable :: "string \<Rightarrow> api_error" where
  "service_unavailable m = \<lparr>ae_status = 503, ae_message = m\<rparr>"

section \<open>Starting a run\<close>

definition unknown_blueprint :: "server \<Rightarrow> string \<Rightarrow> string" where
  "unknown_blueprint s name =
     (if sv_blueprints s = []
      then ''unknown blueprint '' @ bt @ name @ bt @ '': the server has no blueprints configured '' @
        ''(start it with --blueprints-dir <dir>)''
      else ''unknown blueprint '' @ bt @ name @ bt @ '' (available: '' @ join '', '' (map fst (sv_blueprints s)) @ '')'')"

definition has_blueprint :: "server \<Rightarrow> string \<Rightarrow> bool" where
  "has_blueprint s name \<longleftrightarrow> name \<in> set (map fst (sv_blueprints s))"

text \<open>Spawning the task: it takes the permit and the handle.\<close>

definition spawn_job :: "nat \<Rightarrow> server \<Rightarrow> server" where
  "spawn_job a s = s\<lparr>sv_jobs := sv_jobs s @ [\<lparr>jb_handle = a, jb_recorded = False\<rparr>]\<rparr>"

definition create_run ::
    "(string \<Rightarrow> nat) \<Rightarrow> string \<Rightarrow> string option \<Rightarrow> string \<Rightarrow> nat \<Rightarrow> server \<Rightarrow> (api_error + string) \<times> server" where
  "create_run rank t blueprint i now s =
     (if trim t = [] then (Inl (bad_request ''task must not be empty''), s)
      else case opt_filter (\<lambda>name. \<not> has_blueprint s name) blueprint of
             Some name \<Rightarrow> (Inl (bad_request (unknown_blueprint s name)), s)
           | None \<Rightarrow>
               if sv_permits s = 0
               then (Inl (service_unavailable ''server is at its concurrent-run limit''), s)
               else case register_run rank (new_handle i t blueprint now) (s\<lparr>sv_permits := sv_permits s - 1\<rparr>) of
                      (a, s1) \<Rightarrow> (Inr i, spawn_job a s1))"

section \<open>The end of a run\<close>

text \<open>\<open>record_outcome\<close>: the result and the status are written, and the guard is disarmed.\<close>

definition outcome_status :: "bool \<Rightarrow> string + run_result \<Rightarrow> run_status" where
  "outcome_status cancelled outcome =
     (if cancelled then SCancelled
      else case outcome of
             Inr r \<Rightarrow> if rz_success r then SSucceeded else SFailed (rz_error r)
           | Inl e \<Rightarrow> SFailed (Some e))"

definition record_outcome :: "string + run_result \<Rightarrow> run_handle \<Rightarrow> run_handle" where
  "record_outcome outcome h =
     (let st = outcome_status (rh_cancelled h) outcome;
          h1 = (case outcome of Inr r \<Rightarrow> h\<lparr>rh_result := Some r\<rparr> | Inl e \<Rightarrow> h)
      in h1\<lparr>rh_status := st\<rparr>)"

definition record_job :: "nat \<Rightarrow> string + run_result \<Rightarrow> server \<Rightarrow> server" where
  "record_job a outcome s =
     (change_handle a (record_outcome outcome) s)
       \<lparr>sv_jobs := map (\<lambda>j. if jb_handle j = a then j\<lparr>jb_recorded := True\<rparr> else j) (sv_jobs s)\<rparr>"

text \<open>
  The task ends, normally or by a panic: the guard marks a run that recorded nothing as failed,
  fires \<open>finished\<close>, and the permit goes back.
\<close>

definition drop_guard :: "job \<Rightarrow> run_handle \<Rightarrow> run_handle" where
  "drop_guard j h =
     (if jb_recorded j then h else h\<lparr>rh_status := SFailed (Some ''run task panicked'')\<rparr>)\<lparr>rh_finished := True\<rparr>"

definition end_job :: "job \<Rightarrow> server \<Rightarrow> server" where
  "end_job j s =
     (change_handle (jb_handle j) (drop_guard j) s)
       \<lparr>sv_jobs := filter (\<lambda>k. jb_handle k \<noteq> jb_handle j) (sv_jobs s), sv_permits := sv_permits s + 1\<rparr>"

text \<open>An event of a running task reaches the handle's history and its subscribers.\<close>

definition job_event :: "nat \<Rightarrow> audit_event \<Rightarrow> server \<Rightarrow> server" where
  "job_event a e s = change_handle a (\<lambda>h. h\<lparr>rh_channel := channel_record (rh_channel h) e\<rparr>) s"

section \<open>Reading and cancelling\<close>

record run_detail =
  dt_summary :: run_summary
  dt_result :: "run_result option"
  dt_events :: "run_event list"

definition get_run_detail :: "string \<Rightarrow> server \<Rightarrow> api_error + run_detail" where
  "get_run_detail i s =
     map_sum id (\<lambda>(a, h). \<lparr>dt_summary = handle_summary h, dt_result = rh_result h,
        dt_events = cs_history (rh_channel h)\<rparr>) (ok_or not_found (get_run s i))"

definition cancel_run :: "string \<Rightarrow> server \<Rightarrow> (api_error + nat) \<times> server" where
  "cancel_run i s =
     (case get_run s i of
        None \<Rightarrow> (Inl not_found, s)
      | Some (a, h) \<Rightarrow> (Inr 202, change_handle a (\<lambda>h. h\<lparr>rh_cancelled := True\<rparr>) s))"

text \<open>
  The listing: the registry's runs, then the resumable checkpoints of other runs whose id is a
  UUID, newest first.  \<open>parse_uuid\<close> gives the normal form of an id.
\<close>

definition list_runs ::
    "(string \<Rightarrow> nat) \<Rightarrow> (string \<Rightarrow> string option) \<Rightarrow> nat store_env \<Rightarrow> server \<Rightarrow> run_summary list \<times> server" where
  "list_runs rank parse_uuid env s =
     (let live = List.map_filter (\<lambda>(i, a). map_option handle_summary (sv_handles s a))
            (sort_key (\<lambda>(i, a). rank i) (sv_runs s));
          ids = set (map sy_id live)
      in case list_checkpoints env True (sv_store s) of
           (Inl e, st) \<Rightarrow> (rev (sort_key sy_started_at (rev live)), s\<lparr>sv_store := st\<rparr>)
         | (Inr records, st) \<Rightarrow>
             (rev (sort_key sy_started_at (rev (live @ List.map_filter (\<lambda>r.
                case parse_uuid (cr_run_id r) of
                  None \<Rightarrow> None
                | Some i \<Rightarrow>
                    if i \<in> ids then None
                    else Some \<lparr>sy_id = i, sy_task = cr_task r, sy_blueprint = Some (cr_blueprint r),
                               sy_status = SSuspended, sy_started_at = cr_updated_at r\<rparr>) records))),
              s\<lparr>sv_store := st\<rparr>))"

section \<open>Resuming a run\<close>

definition resume_check :: "string \<Rightarrow> server \<Rightarrow> api_error + unit" where
  "resume_check i s =
     (case get_run s i of
        Some (a, h) \<Rightarrow> if rh_status h = SRunning then Inl (conflict ''run is already running'') else Inr ()
      | None \<Rightarrow> Inr ())"

definition resume_claim ::
    "(string \<Rightarrow> nat) \<Rightarrow> nat store_env \<Rightarrow> string \<Rightarrow> nat \<Rightarrow> server \<Rightarrow> (api_error + string) \<times> server" where
  "resume_claim rank env i now s =
     (case get_checkpoint env i (sv_store s) of
        (Inl e, st) \<Rightarrow> (Inl (internal_error (''failed to read checkpoint: '' @ e)), s\<lparr>sv_store := st\<rparr>)
      | (Inr None, st) \<Rightarrow> (Inl (not_found_msg ''no checkpoint to resume for this run''), s\<lparr>sv_store := st\<rparr>)
      | (Inr (Some rec), st) \<Rightarrow>
          (let s1 = s\<lparr>sv_store := st\<rparr>; name = cr_blueprint rec in
           if \<not> is_resumable (cr_status rec)
           then (Inl (conflict ''run is not resumable (it already completed or failed)''), s1)
           else if \<not> has_blueprint s1 name
           then (Inl (bad_request (''cannot resume: blueprint '' @ bt @ name @ bt @
                  '' is not in the server'' @ [CHR 0x27] @ ''s catalog'')), s1)
           else if sv_permits s1 = 0
           then (Inl (service_unavailable ''server is at its concurrent-run limit''), s1)
           else case try_register_run rank (new_handle i (cr_task rec) (Some name) now)
                    (s1\<lparr>sv_permits := sv_permits s1 - 1\<rparr>) of
                  None \<Rightarrow> (Inl (conflict ''run is already running''), s1)
                | Some (a, s2) \<Rightarrow> (Inr i, spawn_job a s2)))"

text \<open>The whole handler: the claim works on whatever the state has become since the check.\<close>

definition resume_run ::
    "(string \<Rightarrow> nat) \<Rightarrow> nat store_env \<Rightarrow> string \<Rightarrow> nat \<Rightarrow> server \<Rightarrow> server \<Rightarrow> (api_error + string) \<times> server" where
  "resume_run rank env i now s s1 =
     (case resume_check i s of Inl e \<Rightarrow> (Inl e, s1) | Inr u \<Rightarrow> resume_claim rank env i now s1)"

end
