(* ===== verification/Server_Safety.thy ===== *)
theory Server_Safety
  imports Server_Api
begin

text \<open>
  The server as a transition system: requests of clients, events and ends of background tasks,
  and changes of the database interleave in any order.  The invariant of the reachable states
  says what holds of run slots, handles and the registry at every moment.
\<close>

section \<open>Steps\<close>

text \<open>A new run's id is fresh, as version 4 UUIDs are; a claim may come at any time.\<close>

inductive server_step :: "(string \<Rightarrow> nat) \<Rightarrow> nat store_env \<Rightarrow> server \<Rightarrow> server \<Rightarrow> bool"
  for rank :: "string \<Rightarrow> nat" and env :: "nat store_env" where
  Create: "(\<And>a h. sv_handles s a = Some h \<Longrightarrow> rh_id h \<noteq> i) \<Longrightarrow>
    server_step rank env s (snd (create_run rank t blueprint i now s))"
| Claim: "server_step rank env s (snd (resume_claim rank env i now s))"
| Cancel: "server_step rank env s (snd (cancel_run i s))"
| Listing: "server_step rank env s (snd (list_runs rank parse_uuid env s))"
| Event: "j \<in> set (sv_jobs s) \<Longrightarrow> server_step rank env s (job_event (jb_handle j) e s)"
| Record: "j \<in> set (sv_jobs s) \<Longrightarrow> \<not> jb_recorded j \<Longrightarrow>
    server_step rank env s (record_job (jb_handle j) outcome s)"
| End: "j \<in> set (sv_jobs s) \<Longrightarrow> server_step rank env s (end_job j s)"
| Stored: "server_step rank env s (s\<lparr>sv_store := st\<rparr>)"

inductive reachable :: "(string \<Rightarrow> nat) \<Rightarrow> nat store_env \<Rightarrow> (string \<times> string) list \<Rightarrow> server \<Rightarrow> bool"
  for rank :: "string \<Rightarrow> nat" and env :: "nat store_env" and blueprints :: "(string \<times> string) list" where
  Start: "reachable rank env blueprints (new_server blueprints st)"
| Step: "reachable rank env blueprints s \<Longrightarrow> server_step rank env s s1 \<Longrightarrow> reachable rank env blueprints s1"

section \<open>The invariant\<close>

definition live_job :: "server \<Rightarrow> nat \<Rightarrow> bool" where
  "live_job s a \<longleftrightarrow> (\<exists>j \<in> set (sv_jobs s). jb_handle j = a \<and> \<not> jb_recorded j)"

text \<open>Slots: every task holds one, and has a handle of its own.\<close>

definition slots_ok :: "server \<Rightarrow> bool" where
  "slots_ok s \<longleftrightarrow>
     sv_permits s + length (sv_jobs s) = max_concurrent_runs \<and> distinct (map jb_handle (sv_jobs s)) \<and>
     (\<forall>j \<in> set (sv_jobs s). sv_handles s (jb_handle j) \<noteq> None) \<and>
     (\<forall>a. sv_handles s a \<noteq> None \<longrightarrow> a < sv_next s)"

text \<open>A handle: running as long as its task has not recorded, finished as soon as it is gone.\<close>

definition handle_ok :: "server \<Rightarrow> nat \<Rightarrow> run_handle \<Rightarrow> bool" where
  "handle_ok s a h \<longleftrightarrow>
     (rh_status h = SRunning \<longleftrightarrow> live_job s a) \<and>
     (rh_finished h \<longleftrightarrow> a \<notin> jb_handle ` set (sv_jobs s)) \<and>
     (rh_status h = SRunning \<longrightarrow> rh_result h = None \<and> (rh_id h, a) \<in> set (sv_runs s)) \<and>
     (rh_status h = SSucceeded \<longrightarrow> (\<exists>r. rh_result h = Some r \<and> rz_success r)) \<and>
     rh_status h \<noteq> SSuspended \<and> replay_inv (rh_channel h)"

definition registry_ok :: "server \<Rightarrow> bool" where
  "registry_ok s \<longleftrightarrow>
     distinct (map fst (sv_runs s)) \<and> length (sv_runs s) \<le> max_runs \<and>
     (\<forall>(i, a) \<in> set (sv_runs s). \<exists>h. sv_handles s a = Some h \<and> rh_id h = i)"

definition server_inv :: "server \<Rightarrow> bool" where
  "server_inv s \<longleftrightarrow>
     slots_ok s \<and> (\<forall>a h. sv_handles s a = Some h \<longrightarrow> handle_ok s a h) \<and> registry_ok s"

lemmas server_inv_defs = server_inv_def slots_ok_def handle_ok_def registry_ok_def

lemma get_run_Some: "get_run s i = Some (a, h) \<longleftrightarrow> map_of (sv_runs s) i = Some a \<and> sv_handles s a = Some h"
  by (auto simp: get_run_def bind_eq_Some_conv)

section \<open>Changing one handle\<close>

lemma change_handle_fields [simp, frame_simps]:
  "sv_next (change_handle a f s) = sv_next s" "sv_runs (change_handle a f s) = sv_runs s"
  "sv_jobs (change_handle a f s) = sv_jobs s" "sv_permits (change_handle a f s) = sv_permits s"
  "sv_blueprints (change_handle a f s) = sv_blueprints s" "sv_store (change_handle a f s) = sv_store s"
  by (simp_all add: change_handle_def)

lemma change_handle_lookup [simp]:
  "sv_handles (change_handle a f s) b = (if b = a then map_option f (sv_handles s a) else sv_handles s b)"
  by (simp add: change_handle_def)

text \<open>A change that keeps id, status, result and \<open>finished\<close> keeps the invariant.\<close>

lemma change_handle_inv:
  assumes "server_inv s"
    and "\<And>h. sv_handles s a = Some h \<Longrightarrow>
      rh_id (f h) = rh_id h \<and> rh_status (f h) = rh_status h \<and> rh_result (f h) = rh_result h \<and>
      rh_finished (f h) = rh_finished h \<and> (replay_inv (rh_channel h) \<longrightarrow> replay_inv (rh_channel (f h)))"
  shows "server_inv (change_handle a f s)"
proof -
  have jobs: "live_job (change_handle a f s) = live_job s" by (simp add: live_job_def fun_eq_iff)
  have "slots_ok (change_handle a f s)" using assms(1) by (auto simp: server_inv_def slots_ok_def)
  moreover have "handle_ok (change_handle a f s) b h" if "sv_handles (change_handle a f s) b = Some h" for b h
  proof (cases "b = a")
    case True
    with that obtain h0 where h0: "sv_handles s a = Some h0" "h = f h0" by auto
    then have "handle_ok s a h0" using assms(1) by (simp add: server_inv_def)
    with assms(2) [OF h0(1)] h0(2) True show ?thesis by (simp add: handle_ok_def jobs)
  next
    case False
    with that assms(1) show ?thesis by (simp add: server_inv_def handle_ok_def jobs)
  qed
  moreover have "registry_ok (change_handle a f s)"
  proof -
    have "\<exists>h. sv_handles (change_handle a f s) b = Some h \<and> rh_id h = i" if "(i, b) \<in> set (sv_runs s)" for i b
    proof -
      from that assms(1) obtain h where "sv_handles s b = Some h" "rh_id h = i"
        by (auto simp: server_inv_def registry_ok_def)
      with assms(2) show ?thesis by auto
    qed
    then have "\<forall>(i, b) \<in> set (sv_runs s). \<exists>h. sv_handles (change_handle a f s) b = Some h \<and> rh_id h = i"
      by blast
    with assms(1) show ?thesis by (simp only: server_inv_def registry_ok_def change_handle_fields simp_thms)
  qed
  ultimately show ?thesis by (simp add: server_inv_def)
qed

lemma store_inv [simp]: "server_inv (s\<lparr>sv_store := st\<rparr>) = server_inv s"
  by (simp add: server_inv_defs live_job_def)

section \<open>Registering\<close>

lemma distinct_filter_fst: "distinct (map fst xs) \<Longrightarrow> distinct (map fst (filter P xs))"
  by (induction xs) auto

text \<open>
  Every live run is running and in the registry, so at most sixteen entries are not finished, and
  an overfull registry has enough finished ones to evict.
\<close>

lemma running_handles_few:
  assumes "distinct as" and "\<And>a. a \<in> set as \<Longrightarrow> live_job s a"
  shows "length as \<le> length (sv_jobs s)"
proof -
  have "set as \<subseteq> jb_handle ` set (sv_jobs s)" using assms(2) by (auto simp: live_job_def)
  then have "card (set as) \<le> card (jb_handle ` set (sv_jobs s))" by (simp add: card_mono)
  also have "\<dots> \<le> length (sv_jobs s)" by (meson card_image_le card_length le_trans List.finite_set)
  finally show ?thesis using assms(1) by (simp add: distinct_card)
qed

definition entries_ok :: "(nat \<rightharpoonup> run_handle) \<Rightarrow> (string \<times> nat) list \<Rightarrow> bool" where
  "entries_ok handles runs \<longleftrightarrow> distinct (map fst runs) \<and> (\<forall>(i, a) \<in> set runs. \<exists>h. handles a = Some h \<and> rh_id h = i)"

lemma registry_ok_entries: "registry_ok s \<longleftrightarrow> entries_ok (sv_handles s) (sv_runs s) \<and> length (sv_runs s) \<le> max_runs"
  by (auto simp: registry_ok_def entries_ok_def)

lemma entries_okD: "entries_ok handles runs \<Longrightarrow> (i, a) \<in> set runs \<Longrightarrow> \<exists>h. handles a = Some h \<and> rh_id h = i"
  by (auto simp: entries_ok_def)

lemma entries_ok_filter: "entries_ok handles runs \<Longrightarrow> entries_ok handles (filter P runs)"
  by (auto simp: entries_ok_def distinct_filter_fst)

lemma entries_ok_same_id:
  "entries_ok handles runs \<Longrightarrow> (i, a) \<in> set runs \<Longrightarrow> (i, b) \<in> set runs \<Longrightarrow> a = b"
  unfolding entries_ok_def by (blast dest: eq_key_imp_eq_value)

lemma entries_ok_insert:
  assumes "entries_ok handles runs" "handles a = Some h" "rh_id h = i"
  shows "entries_ok handles ((i, a) # filter (\<lambda>(j, b). j \<noteq> i) runs)"
  using entries_ok_filter [OF assms(1), of "\<lambda>(j, b). j \<noteq> i"] assms(2,3) by (auto simp: entries_ok_def)

lemma running_not_evicted:
  assumes "entries_ok handles runs" "(j, b) \<in> set runs" "handles b = Some h" "rh_status h = SRunning"
  shows "j \<notin> set (finished_oldest rank handles runs)"
proof
  assume "j \<in> set (finished_oldest rank handles runs)"
  then obtain k c g where g: "(k, c) \<in> set runs" "handles c = Some g" "rh_status g \<noteq> SRunning" "j = rh_id g"
    by (auto simp: finished_oldest_mem)
  with entries_okD [OF assms(1) g(1)] have "k = j" by auto
  with g(1) assms(1,2) have "c = b" by (auto dest: entries_ok_same_id)
  with g assms(3,4) show False by simp
qed

lemma insert_evicting_keeps:
  assumes "entries_ok handles runs" "handles a = Some h" "rh_id h = i" "rh_status h = SRunning"
  shows "entries_ok handles (insert_evicting rank handles runs i a)"
    and "(i, a) \<in> set (insert_evicting rank handles runs i a)"
    and "\<And>j b g. (j, b) \<in> set runs \<Longrightarrow> j \<noteq> i \<Longrightarrow> handles b = Some g \<Longrightarrow> rh_status g = SRunning \<Longrightarrow>
      (j, b) \<in> set (insert_evicting rank handles runs i a)"
proof -
  define runs1 where "runs1 = (i, a) # filter (\<lambda>(j, b). j \<noteq> i) runs"
  have ok: "entries_ok handles runs1" unfolding runs1_def using assms(1-3) by (rule entries_ok_insert)
  then show "entries_ok handles (insert_evicting rank handles runs i a)"
    by (simp add: insert_evicting_def Let_def entries_ok_filter flip: runs1_def)
  have kept: "(j, b) \<in> set (insert_evicting rank handles runs i a)"
    if "(j, b) \<in> set runs1" "handles b = Some g" "rh_status g = SRunning" for j b g
    using running_not_evicted [OF ok that, of rank] that(1)
    by (auto simp: insert_evicting_def Let_def dest: in_set_takeD simp flip: runs1_def)
  show "(i, a) \<in> set (insert_evicting rank handles runs i a)"
    by (rule kept [OF _ assms(2,4)]) (simp add: runs1_def)
  show "(j, b) \<in> set (insert_evicting rank handles runs i a)"
    if "(j, b) \<in> set runs" "j \<noteq> i" "handles b = Some g" "rh_status g = SRunning" for j b g
    by (rule kept [OF _ that(3,4)]) (use that(1,2) in \<open>simp add: runs1_def\<close>)
qed

lemma length_filter_full: "length (filter P xs) = length xs \<Longrightarrow> filter P xs = xs"
  by (metis filter_id_conv length_filter_less less_irrefl)

lemma finished_oldest_fst:
  assumes "entries_ok handles runs" "k \<in> set (finished_oldest rank handles runs)"
  shows "k \<in> fst ` set runs"
  using assms by (force simp: finished_oldest_mem dest: entries_okD)

lemma insert_evicting_bounded:
  assumes "entries_ok handles runs" "handles a = Some h" "rh_id h = i"
    and "length runs \<le> max_runs"
    and "length runs = max_runs \<Longrightarrow> \<exists>(j, b) \<in> set runs. \<exists>g. handles b = Some g \<and> rh_status g \<noteq> SRunning"
  shows "length (insert_evicting rank handles runs i a) \<le> max_runs"
proof -
  define rest where "rest = filter (\<lambda>(j, b). j \<noteq> i) runs"
  define runs1 where "runs1 = (i, a) # rest"
  have ok: "entries_ok handles runs1"
    unfolding runs1_def rest_def using assms(1-3) by (rule entries_ok_insert)
  have le: "length rest \<le> length runs" by (simp add: rest_def)
  show ?thesis
  proof (cases "max_runs < length runs1")
    case False
    then show ?thesis by (simp add: insert_evicting_def Let_def runs1_def rest_def)
  next
    case True
    with le assms(4) have full: "length rest = length runs" "length runs = max_runs"
      by (auto simp: runs1_def)
    then have all: "rest = runs" unfolding rest_def by (intro length_filter_full)
    have one: "length runs1 - max_runs = 1" using full by (simp add: runs1_def)
    from assms(5) [OF full(2)] obtain j b g
      where g: "(j, b) \<in> set runs" "handles b = Some g" "rh_status g \<noteq> SRunning" by auto
    then have "rh_id g \<in> set (finished_oldest rank handles runs1)"
      by (auto simp: finished_oldest_mem runs1_def all)
    then obtain k ks where ks: "finished_oldest rank handles runs1 = k # ks"
      by (cases "finished_oldest rank handles runs1") auto
    with finished_oldest_fst [OF ok, of k rank] have "\<exists>e \<in> set runs1. fst e = k" by auto
    then have less: "length (filter (\<lambda>(j, b). j \<noteq> k) runs1) < length runs1"
      by (auto intro: length_filter_less)
    have "insert_evicting rank handles runs i a = filter (\<lambda>(j, b). j \<noteq> k) runs1"
      using True one ks unfolding insert_evicting_def Let_def rest_def [symmetric] runs1_def [symmetric] by simp
    with less one True show ?thesis by simp
  qed
qed

lemma entries_distinct_addresses: "entries_ok handles runs \<Longrightarrow> distinct (map snd runs)"
  by (induction runs) (force simp: entries_ok_def)+

lemma full_registry_has_finished:
  assumes "server_inv s" "length (sv_runs s) = max_runs"
  shows "\<exists>(j, b) \<in> set (sv_runs s). \<exists>g. sv_handles s b = Some g \<and> rh_status g \<noteq> SRunning"
proof (rule ccontr)
  assume none: "\<not> ?thesis"
  have ok: "entries_ok (sv_handles s) (sv_runs s)"
    using assms(1) by (simp add: server_inv_def registry_ok_entries)
  have "live_job s b" if "b \<in> set (map snd (sv_runs s))" for b
  proof -
    from that obtain j where j: "(j, b) \<in> set (sv_runs s)" by auto
    with entries_okD [OF ok] obtain g where g: "sv_handles s b = Some g" by blast
    with j none have "rh_status g = SRunning" by blast
    with g assms(1) show ?thesis by (auto simp: server_inv_def handle_ok_def)
  qed
  from running_handles_few [OF entries_distinct_addresses [OF ok] this]
  have "max_runs \<le> length (sv_jobs s)" using assms(2) by simp
  moreover have "length (sv_jobs s) \<le> max_concurrent_runs"
    using assms(1) by (simp add: server_inv_def slots_ok_def)
  ultimately show False by (simp add: max_runs_def max_concurrent_runs_def)
qed

definition started :: "(string \<Rightarrow> nat) \<Rightarrow> run_handle \<Rightarrow> server \<Rightarrow> server" where
  "started rank h s = (case register_run rank h (s\<lparr>sv_permits := sv_permits s - 1\<rparr>) of (a, s1) \<Rightarrow> spawn_job a s1)"

lemma started_fields:
  "sv_handles (started rank h s) = (sv_handles s)(sv_next s \<mapsto> h)"
  "sv_next (started rank h s) = Suc (sv_next s)"
  "sv_permits (started rank h s) = sv_permits s - 1"
  "sv_jobs (started rank h s) = sv_jobs s @ [\<lparr>jb_handle = sv_next s, jb_recorded = False\<rparr>]"
  "sv_runs (started rank h s) =
     insert_evicting rank ((sv_handles s)(sv_next s \<mapsto> h)) (sv_runs s) (rh_id h) (sv_next s)"
  by (simp_all add: started_def register_run_def spawn_job_def Let_def)

lemma started_inv:
  assumes inv: "server_inv s" and permit: "0 < sv_permits s"
    and h: "h = new_handle i t blueprint now"
    and free: "\<And>a g. get_run s i = Some (a, g) \<Longrightarrow> rh_status g \<noteq> SRunning"
  shows "server_inv (started rank h s)"
proof -
  let ?a = "sv_next s" and ?H = "(sv_handles s)(sv_next s \<mapsto> h)"
  have new: "sv_handles s ?a = None" "?a \<notin> jb_handle ` set (sv_jobs s)"
    using inv by (force simp: server_inv_def slots_ok_def)+
  have ok0: "entries_ok (sv_handles s) (sv_runs s)" "length (sv_runs s) \<le> max_runs"
    using inv by (simp_all add: server_inv_def registry_ok_entries)
  then have ok: "entries_ok ?H (sv_runs s)" using new by (fastforce simp: entries_ok_def)
  have h1: "?H ?a = Some h" "rh_id h = i" "rh_status h = SRunning"
    "rh_result h = None" "\<not> rh_finished h" "replay_inv (rh_channel h)"
    by (simp_all add: h new_handle_def)
  have "\<exists>(j, b) \<in> set (sv_runs s). \<exists>g. ?H b = Some g \<and> rh_status g \<noteq> SRunning" if "length (sv_runs s) = max_runs"
    using full_registry_has_finished [OF inv that] new by fastforce
  then have reg: "registry_ok (started rank h s)"
    using insert_evicting_keeps(1) [OF ok h1(1,2,3), of rank] insert_evicting_bounded [OF ok h1(1,2) ok0(2), of rank]
    unfolding registry_ok_entries started_fields h1(2) by blast
  have slots: "slots_ok (started rank h s)"
    using inv permit new by (auto simp: server_inv_def slots_ok_def started_fields less_Suc_eq)
  have live: "live_job (started rank h s) b \<longleftrightarrow> b = ?a \<or> live_job s b" for b
    by (auto simp: live_job_def started_fields)
  have "handle_ok (started rank h s) b g" if "sv_handles (started rank h s) b = Some g" for b g
  proof (cases "b = ?a")
    case True
    with that have "g = h" by (simp add: started_fields)
    moreover have "(i, ?a) \<in> set (insert_evicting rank ?H (sv_runs s) i ?a)"
      by (rule insert_evicting_keeps(2) [OF ok h1(1,2,3)])
    ultimately show ?thesis using True h1(2-) by (simp add: handle_ok_def live started_fields)
  next
    case False
    with that have g: "sv_handles s b = Some g" by (simp add: started_fields)
    with inv have hok: "handle_ok s b g" by (simp add: server_inv_def)
    have "(rh_id g, b) \<in> set (sv_runs (started rank h s))" if run: "rh_status g = SRunning"
    proof -
      have mem: "(rh_id g, b) \<in> set (sv_runs s)" using hok run by (simp add: handle_ok_def)
      have "rh_id g \<noteq> i"
      proof
        assume "rh_id g = i"
        with mem ok0(1) have "get_run s i = Some (b, g)"
          by (simp add: get_run_Some g entries_ok_def map_of_eq_Some_iff)
        with free run show False by blast
      qed
      moreover have "?H b = Some g" using g False by simp
      ultimately have "(rh_id g, b) \<in> set (insert_evicting rank ?H (sv_runs s) i ?a)"
        by (rule insert_evicting_keeps(3) [OF ok h1(1,2,3) mem _ _ run])
      then show ?thesis by (simp add: started_fields h1(2))
    qed
    with hok False show ?thesis by (auto simp: handle_ok_def live started_fields)
  qed
  with slots reg show ?thesis by (simp add: server_inv_def)
qed

section \<open>Every step\<close>

lemma create_run_started:
  "snd (create_run rank t blueprint i now s) = s \<or>
   0 < sv_permits s \<and> snd (create_run rank t blueprint i now s) = started rank (new_handle i t blueprint now) s"
  by (auto simp: create_run_def started_def split: option.split prod.split)

lemma try_register_started:
  assumes "try_register_run rank h (s\<lparr>sv_permits := sv_permits s - 1\<rparr>) = Some (a, s2)"
  shows "spawn_job a s2 = started rank h s"
    and "get_run s (rh_id h) = Some (b, g) \<Longrightarrow> rh_status g \<noteq> SRunning"
  using assms by (auto simp: try_register_run_def started_def get_run_def split: option.splits if_splits)

lemma get_run_store [simp]: "get_run (s\<lparr>sv_store := st\<rparr>) i = get_run s i"
  by (simp add: get_run_def)

lemma rh_id_new_handle [simp]: "rh_id (new_handle i t blueprint now) = i"
  by (simp add: new_handle_def)

lemma resume_claim_started:
  obtains st where "snd (resume_claim rank env i now s) = s\<lparr>sv_store := st\<rparr>"
  | st t blueprint where "0 < sv_permits s"
      "\<And>a g. get_run s i = Some (a, g) \<Longrightarrow> rh_status g \<noteq> SRunning"
      "snd (resume_claim rank env i now s) = started rank (new_handle i t blueprint now) (s\<lparr>sv_store := st\<rparr>)"
proof -
  obtain r st where r: "get_checkpoint env i (sv_store s) = (r, st)" by (cases "get_checkpoint env i (sv_store s)")
  let ?s = "s\<lparr>sv_store := st\<rparr>"
  show thesis
  proof (cases "snd (resume_claim rank env i now s) = ?s")
    case True
    with that(1) show thesis .
  next
    case False
    then have "\<exists>(rec :: nat checkpoint_record) a s2. 0 < sv_permits ?s \<and>
        try_register_run rank (new_handle i (cr_task rec) (Some (cr_blueprint rec)) now)
          (?s\<lparr>sv_permits := sv_permits ?s - 1\<rparr>) = Some (a, s2) \<and>
        snd (resume_claim rank env i now s) = spawn_job a s2"
      using r by (auto simp: resume_claim_def Let_def split: sum.splits option.splits prod.splits if_splits)
    then obtain rec :: "nat checkpoint_record" and a s2 where rec: "0 < sv_permits ?s"
      "try_register_run rank (new_handle i (cr_task rec) (Some (cr_blueprint rec)) now)
         (?s\<lparr>sv_permits := sv_permits ?s - 1\<rparr>) = Some (a, s2)"
      "snd (resume_claim rank env i now s) = spawn_job a s2" by blast
    from that(2) [of "cr_task rec" "Some (cr_blueprint rec)" st] rec(1,3) try_register_started [OF rec(2)]
    show thesis by simp
  qed
qed

lemma new_server_inv: "server_inv (new_server blueprints st)"
  by (simp add: server_inv_defs new_server_def)

lemma job_handle:
  assumes "server_inv s" "j \<in> set (sv_jobs s)"
  obtains h where "sv_handles s (jb_handle j) = Some h" "handle_ok s (jb_handle j) h"
  using assms by (fastforce simp: server_inv_def slots_ok_def)

lemma outcome_status_ended:
  "outcome_status c r \<noteq> SRunning" "outcome_status c r \<noteq> SSuspended"
  "outcome_status c r = SSucceeded \<Longrightarrow> \<exists>x. r = Inr x \<and> rz_success x"
  by (auto simp: outcome_status_def split: sum.splits if_splits)

lemma record_outcome_fields [simp]:
  "rh_id (record_outcome r h) = rh_id h" "rh_status (record_outcome r h) = outcome_status (rh_cancelled h) r"
  "rh_finished (record_outcome r h) = rh_finished h" "rh_channel (record_outcome r h) = rh_channel h"
  "rh_result (record_outcome r h) = (case r of Inr x \<Rightarrow> Some x | Inl e \<Rightarrow> rh_result h)"
  by (simp_all add: record_outcome_def Let_def split: sum.split)

lemma drop_guard_fields [simp]:
  "rh_id (drop_guard j h) = rh_id h" "rh_finished (drop_guard j h)" "rh_result (drop_guard j h) = rh_result h"
  "rh_channel (drop_guard j h) = rh_channel h"
  "rh_status (drop_guard j h) = (if jb_recorded j then rh_status h else SFailed (Some ''run task panicked''))"
  by (simp_all add: drop_guard_def)

lemma create_run_inv:
  assumes "server_inv s" "\<And>a h. sv_handles s a = Some h \<Longrightarrow> rh_id h \<noteq> i"
  shows "server_inv (snd (create_run rank t blueprint i now s))"
proof -
  have "get_run s i = None"
  proof (rule ccontr)
    assume "get_run s i \<noteq> None"
    then obtain a h where h: "(i, a) \<in> set (sv_runs s)" "sv_handles s a = Some h"
      by (auto simp: get_run_Some dest: map_of_SomeD)
    with assms(1) have "rh_id h = i" by (auto simp: server_inv_def registry_ok_entries dest: entries_okD)
    with assms(2) [OF h(2)] show False by simp
  qed
  with create_run_started [of rank t blueprint i now s] show ?thesis
    using assms(1) started_inv [OF assms(1) _ refl, of i] by auto
qed

lemma resume_claim_inv:
  assumes "server_inv s"
  shows "server_inv (snd (resume_claim rank env i now s))"
proof (cases rule: resume_claim_started [of rank env i now s])
  case (1 st)
  with assms show ?thesis by simp
next
  case (2 st t blueprint)
  have "server_inv (started rank (new_handle i t blueprint now) (s\<lparr>sv_store := st\<rparr>))"
    by (rule started_inv [OF _ _ refl]) (use 2 assms in auto)
  with 2 show ?thesis by simp
qed

lemma record_job_inv:
  assumes inv: "server_inv s" and j: "j \<in> set (sv_jobs s)" and new: "\<not> jb_recorded j"
  shows "server_inv (record_job (jb_handle j) outcome s)"
proof -
  let ?s = "record_job (jb_handle j) outcome s" and ?f = "record_outcome outcome"
  have live: "live_job ?s b \<longleftrightarrow> live_job s b \<and> b \<noteq> jb_handle j" for b
    by (auto simp: live_job_def record_job_def)
  have same: "map jb_handle (sv_jobs ?s) = map jb_handle (sv_jobs s)" by (simp add: record_job_def)
  have jobs: "jb_handle ` set (sv_jobs ?s) = jb_handle ` set (sv_jobs s)"
    using arg_cong [OF same, of set] by simp
  have handles: "sv_handles ?s b = (if b = jb_handle j then map_option ?f (sv_handles s b) else sv_handles s b)" for b
    by (simp add: record_job_def)
  have slots: "slots_ok ?s"
    unfolding slots_ok_def same using inv
    by (auto simp: server_inv_def slots_ok_def record_job_def)
  have "handle_ok ?s b h" if h: "sv_handles ?s b = Some h" for b h
  proof (cases "b = jb_handle j")
    case True
    from job_handle [OF inv j] obtain g where g: "sv_handles s b = Some g" "handle_ok s b g" using True by blast
    moreover have "live_job s b" using j new True by (auto simp: live_job_def)
    ultimately show ?thesis
      using h True outcome_status_ended [of "rh_cancelled g" outcome]
      by (auto simp: handles handle_ok_def live jobs)
  next
    case False
    with h inv have "handle_ok s b h" by (simp add: handles server_inv_def)
    with False show ?thesis by (simp add: handle_ok_def live jobs) (simp add: record_job_def)
  qed
  moreover have "registry_ok ?s"
    using inv unfolding server_inv_def registry_ok_def by (auto simp: record_job_def)
  ultimately show ?thesis using slots by (simp add: server_inv_def)
qed

lemma end_job_inv:
  assumes inv: "server_inv s" and j: "j \<in> set (sv_jobs s)"
  shows "server_inv (end_job j s)"
proof -
  let ?s = "end_job j s"
  have dist: "distinct (map jb_handle (sv_jobs s))" using inv by (simp add: server_inv_def slots_ok_def)
  have only: "k = j" if "k \<in> set (sv_jobs s)" "jb_handle k = jb_handle j" for k
    using dist that j by (simp add: distinct_map inj_on_def)
  have live: "live_job ?s b \<longleftrightarrow> live_job s b \<and> b \<noteq> jb_handle j" for b
    by (auto simp: live_job_def end_job_def)
  have jobs: "jb_handle ` set (sv_jobs ?s) = jb_handle ` set (sv_jobs s) - {jb_handle j}"
    by (auto simp: end_job_def)
  have handles: "sv_handles ?s b = (if b = jb_handle j then map_option (drop_guard j) (sv_handles s b) else sv_handles s b)" for b
    by (simp add: end_job_def)
  have "filter (\<lambda>k. jb_handle k \<noteq> jb_handle j) (sv_jobs s) = filter (\<lambda>k. j \<noteq> k) (sv_jobs s)"
    by (rule filter_cong) (use only in auto)
  also have "\<dots> = remove1 j (sv_jobs s)"
    using dist by (simp add: distinct_map distinct_remove1_removeAll removeAll_filter_not_eq)
  finally have "sv_jobs ?s = remove1 j (sv_jobs s)" by (simp add: end_job_def)
  then have "length (sv_jobs s) = Suc (length (sv_jobs ?s))"
    using j by (auto simp: length_remove1 dest: length_pos_if_in_set)
  then have slots: "slots_ok ?s"
    using inv by (auto simp: server_inv_def slots_ok_def end_job_def distinct_map inj_on_def)
  have "handle_ok ?s b h" if h: "sv_handles ?s b = Some h" for b h
  proof (cases "b = jb_handle j")
    case True
    from job_handle [OF inv j] obtain g where g: "sv_handles s b = Some g" "handle_ok s b g" using True by blast
    moreover have "live_job s b \<longleftrightarrow> \<not> jb_recorded j" using j only True by (auto simp: live_job_def)
    ultimately show ?thesis
      using h True by (auto simp: handles handle_ok_def live jobs)
  next
    case False
    with h inv have "handle_ok s b h" by (simp add: handles server_inv_def)
    with False show ?thesis by (simp add: handle_ok_def live jobs) (simp add: end_job_def)
  qed
  moreover have "registry_ok ?s"
    using inv unfolding server_inv_def registry_ok_def by (auto simp: end_job_def)
  ultimately show ?thesis using slots by (simp add: server_inv_def)
qed

lemma server_step_inv:
  assumes "server_step rank env s s1" "server_inv s"
  shows "server_inv s1"
  using assms
proof cases
  case (Create i t blueprint now)
  with assms(2) show ?thesis by (simp add: create_run_inv)
next
  case (Cancel i)
  with assms(2) show ?thesis by (auto simp: cancel_run_def intro!: change_handle_inv split: option.split)
next
  case (Listing parse_uuid)
  then have "\<exists>st. s1 = s\<lparr>sv_store := st\<rparr>"
    by (auto simp: list_runs_def Let_def split: prod.split sum.split)
  with assms(2) show ?thesis by auto
next
  case (Event j e)
  with assms(2) show ?thesis by (auto simp: job_event_def intro!: change_handle_inv replay_inv_record)
qed (use assms(2) in \<open>simp_all add: resume_claim_inv record_job_inv end_job_inv\<close>)

lemma reachable_inv: "reachable rank env blueprints s \<Longrightarrow> server_inv s"
  by (induction rule: reachable.induct) (auto simp: new_server_inv intro: server_step_inv)

lemma inv_slots: "server_inv s \<Longrightarrow> sv_permits s + length (sv_jobs s) = max_concurrent_runs"
  by (simp add: server_inv_def slots_ok_def)

lemma inv_bounded: "server_inv s \<Longrightarrow> length (sv_runs s) \<le> max_runs"
  by (simp add: server_inv_def registry_ok_def)

lemma inv_live_found:
  assumes inv: "server_inv s" and live: "live_job s a"
  shows "\<exists>h. rh_status h = SRunning \<and> get_run s (rh_id h) = Some (a, h)"
proof -
  from live obtain j where "j \<in> set (sv_jobs s)" "jb_handle j = a" by (auto simp: live_job_def)
  with job_handle [OF inv] obtain h where h: "sv_handles s a = Some h" "handle_ok s a h" by blast
  with live have "(rh_id h, a) \<in> set (sv_runs s)" "rh_status h = SRunning" by (auto simp: handle_ok_def)
  with h(1) inv show ?thesis
    by (auto simp: get_run_Some server_inv_def registry_ok_def map_of_eq_Some_iff)
qed

lemma inv_found:
  assumes inv: "server_inv s" and found: "get_run s i = Some (a, h)"
  shows "rh_id h = i" "handle_ok s a h"
  using assms by (auto simp: get_run_Some server_inv_def registry_ok_entries dest!: map_of_SomeD dest: entries_okD)

text \<open>
  Property C4.  In every reachable state of the server: the free run slots and the background
  tasks add up to sixteen, and the registry holds at most a thousand runs.  A task that has not
  recorded its end is running, and its run is found under its id: eviction and the registration
  of other runs never hide it, and no other task runs under the same id.  A run that is found has
  the id asked for, is running exactly as long as its task has not recorded, has fired
  \<open>finished\<close> exactly when the task is gone, and has a successful result if it is reported as
  succeeded.
\<close>

theorem running_runs_tracked:
  assumes "reachable rank env blueprints s"
  shows "sv_permits s + length (sv_jobs s) = 16 \<and> length (sv_runs s) \<le> 1000 \<and>
    (\<forall>a. live_job s a \<longrightarrow> (\<exists>h. rh_status h = SRunning \<and> get_run s (rh_id h) = Some (a, h))) \<and>
    (\<forall>i a h. get_run s i = Some (a, h) \<longrightarrow>
       rh_id h = i \<and> (rh_status h = SRunning \<longleftrightarrow> live_job s a) \<and>
       (rh_finished h \<longleftrightarrow> a \<notin> jb_handle ` set (sv_jobs s)) \<and>
       (rh_status h = SSucceeded \<longrightarrow> (\<exists>r. rh_result h = Some r \<and> rz_success r)))"
proof -
  have inv: "server_inv s" using assms by (rule reachable_inv)
  show ?thesis
    using inv_slots [OF inv] inv_bounded [OF inv] inv_live_found [OF inv] inv_found [OF inv]
    unfolding max_concurrent_runs_def max_runs_def handle_ok_def by blast
qed

theorem running_runs_tracked_witness:
  "\<forall>env st. let s = snd (create_run (\<lambda>_. 0) ''fix the bug'' None ''r1'' 7 (new_server [] st))
     in reachable (\<lambda>_. 0) env [] s \<and> sv_permits s = 15 \<and> live_job s 0 \<and>
        (\<exists>h. get_run s ''r1'' = Some (0, h) \<and> rh_status h = SRunning \<and> \<not> rh_finished h)"
proof (intro allI)
  fix env st
  let ?s = "snd (create_run (\<lambda>_. 0) ''fix the bug'' None ''r1'' 7 (new_server [] st))"
  have step: "reachable (\<lambda>_. 0) env [] ?s"
    by (rule reachable.Step [OF reachable.Start server_step.Create]) (simp add: new_server_def)
  have "trim ''fix the bug'' \<noteq> []" by code_simp
  then have jobs: "sv_jobs ?s = [\<lparr>jb_handle = 0, jb_recorded = False\<rparr>]" "rh_id (the (sv_handles ?s 0)) = ''r1''"
    by (simp_all add: create_run_def register_run_def spawn_job_def new_server_def opt_filter_def
      max_concurrent_runs_def Let_def)
  then have live: "live_job ?s 0" by (simp add: live_job_def)
  with running_runs_tracked [OF step] obtain h where h: "rh_status h = SRunning" "get_run ?s (rh_id h) = Some (0, h)"
    by blast
  then have "sv_handles ?s 0 = Some h" by (simp add: get_run_Some)
  with h jobs have "get_run ?s ''r1'' = Some (0, h)" by simp
  moreover from this running_runs_tracked [OF step] jobs have "\<not> rh_finished h" "sv_permits ?s = 15" by auto
  ultimately show "let s = ?s in reachable (\<lambda>_. 0) env [] s \<and> sv_permits s = 15 \<and> live_job s 0 \<and>
    (\<exists>h. get_run s ''r1'' = Some (0, h) \<and> rh_status h = SRunning \<and> \<not> rh_finished h)"
    using step live h(1) by (simp add: Let_def)
qed

end
