(* ===== verification/Server_Stream.thy ===== *)
theory Server_Stream
  imports Server_Api
begin

text \<open>
  The event stream of a run (\<open>run_events\<close> in \<open>boitata-server/src/api.rs\<close> and \<open>record\<close> in
  \<open>events.rs\<close>) while the run goes on.

  Recording an event is two steps another thread can come between: the push into the history,
  and the broadcast.  A request subscribes, copies the history and looks whether the run is
  finished, each at its own moment, and then reads the channel.  The channel itself belongs to
  the async library: a receiver gets the events sent after it subscribed in order, or, if it is
  too slow, a notice that some are lost.
\<close>

section \<open>The run's side\<close>

definition history_push :: "audit_event \<Rightarrow> channel_sink \<Rightarrow> run_event \<times> channel_sink" where
  "history_push e k =
     (let ev = \<lparr>re_seq = cs_seq k, re_event = e\<rparr>;
          h = cs_history k @ [ev]
      in (ev, k\<lparr>cs_seq := Suc (cs_seq k),
               cs_history := if max_history + trim_batch < length h then drop trim_batch h else h\<rparr>))"

definition broadcast_send :: "run_event \<Rightarrow> channel_sink \<Rightarrow> channel_sink" where
  "broadcast_send ev k = k\<lparr>cs_sent := cs_sent k @ [ev]\<rparr>"

lemma channel_record_steps:
  "channel_record k e = (case history_push e k of (ev, k1) \<Rightarrow> broadcast_send ev k1)"
  by (simp add: channel_record_def history_push_def broadcast_send_def Let_def)

record live_run =
  lv_sink :: channel_sink
  lv_pending :: "run_event option"
  lv_finished :: bool

definition new_live_run :: live_run where
  "new_live_run = \<lparr>lv_sink = new_channel_sink, lv_pending = None, lv_finished = False\<rparr>"

inductive live_step :: "live_run \<Rightarrow> live_run \<Rightarrow> bool" where
  Push: "lv_pending l = None \<Longrightarrow> \<not> lv_finished l \<Longrightarrow> history_push e (lv_sink l) = (ev, k) \<Longrightarrow>
    live_step l (l\<lparr>lv_sink := k, lv_pending := Some ev\<rparr>)"
| Send: "lv_pending l = Some ev \<Longrightarrow>
    live_step l (l\<lparr>lv_sink := broadcast_send ev (lv_sink l), lv_pending := None\<rparr>)"
| Finish: "lv_pending l = None \<Longrightarrow> live_step l (l\<lparr>lv_finished := True\<rparr>)"

definition all_events :: "live_run \<Rightarrow> run_event list" where
  "all_events l = cs_sent (lv_sink l) @ (case lv_pending l of None \<Rightarrow> [] | Some ev \<Rightarrow> [ev])"

section \<open>The request's side\<close>

text \<open>
  What the loop reads: an event, a notice that some were lost, the closing of the channel, or,
  when none is waiting, the signal that the run is finished.
\<close>

datatype channel_read = Received run_event | Lagged nat | Closed | Finished

definition newer :: "nat option \<Rightarrow> run_event \<Rightarrow> bool" where
  "newer last_seq ev \<longleftrightarrow> (case last_seq of None \<Rightarrow> True | Some l \<Rightarrow> l < re_seq ev)"

text \<open>After the signal, what is buffered is read until anything else than an event comes.\<close>

fun drain_buffered :: "nat option \<Rightarrow> channel_read list \<Rightarrow> run_event list" where
  "drain_buffered last_seq (Received ev # rs) =
     (if newer last_seq ev then ev # drain_buffered (Some (re_seq ev)) rs else drain_buffered last_seq rs)"
| "drain_buffered last_seq rs = []"

fun live_events :: "nat option \<Rightarrow> channel_read list \<Rightarrow> run_event list" where
  "live_events last_seq (Received ev # rs) =
     (if newer last_seq ev then ev # live_events (Some (re_seq ev)) rs else live_events last_seq rs)"
| "live_events last_seq (Lagged n # rs) = live_events last_seq rs"
| "live_events last_seq (Closed # rs) = []"
| "live_events last_seq (Finished # rs) = drain_buffered last_seq rs"
| "live_events last_seq [] = []"

definition event_stream :: "run_event list \<Rightarrow> bool \<Rightarrow> channel_read list \<Rightarrow> run_event list" where
  "event_stream history already_finished rs =
     (let last_seq = foldl (\<lambda>l ev. Some (re_seq ev)) None history
      in history @ (if already_finished then [] else live_events last_seq rs))"

text \<open>The handler: the registry, the history and the signal at three moments.\<close>

definition run_events ::
    "string \<Rightarrow> server \<Rightarrow> server \<Rightarrow> server \<Rightarrow> channel_read list \<Rightarrow> api_error + run_event list" where
  "run_events i s s1 s2 rs =
     (case get_run s i of
        None \<Rightarrow> Inl not_found
      | Some (a, h) \<Rightarrow>
          (case (sv_handles s1 a, sv_handles s2 a) of
             (Some h1, Some h2) \<Rightarrow> Inr (event_stream (cs_history (rh_channel h1)) (rh_finished h2) rs)
           | _ \<Rightarrow> Inl not_found))"

text \<open>What a receiver may read when \<open>evs\<close> are the events sent since it subscribed.\<close>

inductive delivers :: "run_event list \<Rightarrow> channel_read list \<Rightarrow> bool" where
  Stop: "delivers evs []"
| Event: "delivers evs rs \<Longrightarrow> delivers (ev # evs) (Received ev # rs)"
| Lag: "delivers (drop n evs) rs \<Longrightarrow> delivers evs (Lagged n # rs)"
| Close: "delivers evs rs \<Longrightarrow> delivers evs (Closed # rs)"
| Signal: "delivers evs rs \<Longrightarrow> delivers evs (Finished # rs)"

inductive_cases delivers_ReceivedE: "delivers evs (Received ev # rs)"
inductive_cases delivers_LaggedE: "delivers evs (Lagged n # rs)"
inductive_cases delivers_FinishedE: "delivers evs (Finished # rs)"

section \<open>The run's events\<close>

definition live_inv :: "live_run \<Rightarrow> bool" where
  "live_inv l \<longleftrightarrow>
     map re_seq (all_events l) = [0..<cs_seq (lv_sink l)] \<and>
     suffix (cs_history (lv_sink l)) (all_events l) \<and>
     (cs_history (lv_sink l) = [] \<longrightarrow> all_events l = [])"

lemma new_live_inv: "live_inv new_live_run"
  by (simp add: live_inv_def new_live_run_def new_channel_sink_def all_events_def)

lemma live_step_inv:
  assumes "live_step l l1" "live_inv l"
  shows "live_inv l1"
  using assms
proof cases
  case (Push e ev k)
  let ?h = "cs_history (lv_sink l) @ [ev]"
  from Push have k: "cs_sent k = cs_sent (lv_sink l)" "cs_seq k = Suc (cs_seq (lv_sink l))"
    "re_seq ev = cs_seq (lv_sink l)"
    "cs_history k = (if max_history + trim_batch < length ?h then drop trim_batch ?h else ?h)"
    by (auto simp: history_push_def Let_def)
  have all: "all_events l1 = all_events l @ [ev]" using Push k by (simp add: all_events_def)
  have suf: "suffix ?h (all_events l @ [ev])" using assms(2) by (simp add: live_inv_def suffix_snoc)
  then have "suffix (drop trim_batch ?h) (all_events l @ [ev])"
    by (rule suffix_order.trans [OF suffix_drop])
  with suf all k assms(2) show ?thesis
    by (auto simp: live_inv_def Push(1) max_history_def trim_batch_def)
next
  case (Send ev)
  then have "all_events l1 = all_events l" "cs_history (lv_sink l1) = cs_history (lv_sink l)"
    "cs_seq (lv_sink l1) = cs_seq (lv_sink l)"
    by (simp_all add: all_events_def broadcast_send_def)
  with assms(2) show ?thesis by (simp add: live_inv_def)
qed (use assms(2) in \<open>simp add: live_inv_def all_events_def\<close>)

lemma live_steps_inv: "live_step\<^sup>*\<^sup>* l l1 \<Longrightarrow> live_inv l \<Longrightarrow> live_inv l1"
  by (induction rule: rtranclp_induct) (auto intro: live_step_inv)

lemma live_step_grows:
  "live_step l l1 \<Longrightarrow> prefix (cs_sent (lv_sink l)) (cs_sent (lv_sink l1)) \<and> prefix (all_events l) (all_events l1)"
  by (erule live_step.cases) (auto simp: all_events_def broadcast_send_def history_push_def Let_def)

lemma live_steps_grow:
  "live_step\<^sup>*\<^sup>* l l1 \<Longrightarrow> prefix (cs_sent (lv_sink l)) (cs_sent (lv_sink l1)) \<and> prefix (all_events l) (all_events l1)"
  by (induction rule: rtranclp_induct) (auto dest: live_step_grows intro: prefix_order.trans)

section \<open>What the client sees\<close>

lemma sorted_newer:
  assumes "sorted_wrt (<) (map re_seq (ev # evs))"
  shows "filter (newer (Some (re_seq ev))) evs = evs"
  using assms by (auto simp: newer_def filter_id_conv)

lemma filter_newer_Cons:
  assumes "sorted_wrt (<) (map re_seq (ev # evs))" "newer last_seq ev"
  shows "filter (newer last_seq) evs = evs"
  using assms by (auto simp: newer_def filter_id_conv split: option.splits)

lemma subseq_filter_drop: "subseq (filter P (drop n xs)) (filter P xs)"
  by (metis append_take_drop_id filter_append list_emb_append2 subseq_order.refl)

text \<open>One received event, for either loop.\<close>

lemma received_newer:
  assumes "sorted_wrt (<) (map re_seq (ev # evs))"
    and "\<And>l. subseq (f l) (filter (newer l) evs)"
  shows "subseq (if newer last_seq ev then ev # f (Some (re_seq ev)) else f last_seq)
    (filter (newer last_seq) (ev # evs))"
proof (cases "newer last_seq ev")
  case True
  from assms(2) [of "Some (re_seq ev)"] have "subseq (f (Some (re_seq ev))) evs"
    using sorted_newer [OF assms(1)] by simp
  with True show ?thesis using filter_newer_Cons [OF assms(1) True] by simp
qed (simp add: assms(2))

lemma drain_buffered_newer:
  "delivers evs rs \<Longrightarrow> sorted_wrt (<) (map re_seq evs) \<Longrightarrow>
     subseq (drain_buffered last_seq rs) (filter (newer last_seq) evs)"
proof (induction arbitrary: last_seq rule: delivers.induct)
  case (Event evs rs ev)
  then show ?case
    using received_newer [of ev evs "\<lambda>l. drain_buffered l rs" last_seq] by simp
qed simp_all

lemma live_events_newer:
  "delivers evs rs \<Longrightarrow> sorted_wrt (<) (map re_seq evs) \<Longrightarrow>
     subseq (live_events last_seq rs) (filter (newer last_seq) evs)"
proof (induction arbitrary: last_seq rule: delivers.induct)
  case (Event evs rs ev)
  then show ?case
    using received_newer [of ev evs "\<lambda>l. live_events l rs" last_seq] by simp
next
  case (Lag n evs rs)
  then have "subseq (live_events last_seq rs) (filter (newer last_seq) (drop n evs))"
    by (simp add: sorted_wrt_drop flip: drop_map)
  then show ?case using subseq_filter_drop by (auto intro: subseq_order.trans)
qed (simp_all add: drain_buffered_newer)

lemma drain_buffered_all:
  "sorted_wrt (<) (map re_seq evs) \<Longrightarrow> drain_buffered last_seq (map Received evs) = filter (newer last_seq) evs"
proof (induction evs arbitrary: last_seq)
  case (Cons ev evs)
  then show ?case using sorted_newer [of ev evs] filter_newer_Cons [of ev evs last_seq] by auto
qed simp

lemma live_events_all:
  "sorted_wrt (<) (map re_seq (evs @ rest)) \<Longrightarrow>
     live_events last_seq (map Received evs @ Finished # map Received rest) = filter (newer last_seq) (evs @ rest)"
proof (induction evs arbitrary: last_seq)
  case Nil
  then show ?case by (simp add: drain_buffered_all)
next
  case (Cons ev evs)
  then show ?case
    using sorted_newer [of ev "evs @ rest"] filter_newer_Cons [of ev "evs @ rest" last_seq] by auto
qed

lemma last_seq_foldl:
  "foldl (\<lambda>l ev. Some (re_seq ev)) l h = (if h = [] then l else Some (re_seq (last h)))"
  by (induction h arbitrary: l) auto

lemma subseq_sorted_wrt: "subseq xs ys \<Longrightarrow> sorted_wrt P ys \<Longrightarrow> sorted_wrt P xs"
  by (induction rule: list_emb.induct) (auto dest: list_emb_set)

text \<open>The history and the newer events of the channel make up a tail of everything.\<close>

lemma handoff:
  assumes "live_step\<^sup>*\<^sup>* new_live_run l0" "live_step\<^sup>*\<^sup>* l0 l1" "live_step\<^sup>*\<^sup>* l1 l2" "lv_pending l2 = None"
  defines "h \<equiv> cs_history (lv_sink l1)" and "sent \<equiv> cs_sent (lv_sink l2)"
  defines "seen \<equiv> if h = [] then None else Some (re_seq (last h))"
  shows "sorted_wrt (<) (map re_seq sent)"
    and "suffix (h @ filter (newer seen) (drop (length (cs_sent (lv_sink l0))) sent)) sent"
proof -
  have inv0: "live_inv l0" using live_steps_inv [OF assms(1) new_live_inv] .
  have inv1: "live_inv l1" using live_steps_inv [OF assms(2) inv0] .
  have inv2: "live_inv l2" using live_steps_inv [OF assms(3) inv1] .
  have sent: "all_events l2 = sent" using assms(4) by (simp add: all_events_def sent_def)
  have seqs: "map re_seq sent = [0..<cs_seq (lv_sink l2)]" using inv2 sent by (simp add: live_inv_def)
  then show sorted: "sorted_wrt (<) (map re_seq sent)" by simp
  let ?p = "length (cs_sent (lv_sink l0))" and ?q = "length (all_events l1)"
  have pre: "prefix (all_events l1) sent" using live_steps_grow [OF assms(3)] sent by simp
  then have take: "all_events l1 = take ?q sent" by (metis append_eq_conv_conj prefix_def)
  have "prefix (cs_sent (lv_sink l0)) (all_events l0)" by (simp add: all_events_def)
  then have "prefix (cs_sent (lv_sink l0)) (all_events l1)"
    using live_steps_grow [OF assms(2)] by (blast intro: prefix_order.trans)
  then have le: "?p \<le> ?q" by (rule prefix_length_le)
  have num: "re_seq (sent ! i) = i" if "i < length sent" for i
    using seqs that by (metis add_0 length_map nth_map nth_upt length_upt diff_zero)
  have seen: "newer seen (sent ! i) \<longleftrightarrow> ?q \<le> i" if "i < length sent" for i
  proof (cases "h = []")
    case True
    with inv1 have "all_events l1 = []" by (simp add: live_inv_def h_def)
    with True show ?thesis by (simp add: seen_def newer_def)
  next
    case False
    from inv1 have "suffix h (all_events l1)" by (simp add: live_inv_def h_def)
    with False have "last h = last (all_events l1)" "all_events l1 \<noteq> []" by (auto simp: suffix_def)
    then have "last h = sent ! (?q - 1)" using take
      by (metis last_conv_nth length_greater_0_conv diff_less nth_take zero_less_one)
    moreover have "?q - 1 < length sent" "0 < ?q"
      using prefix_length_le [OF pre] \<open>all_events l1 \<noteq> []\<close> by (cases "all_events l1"; simp)+
    ultimately have "seen = Some (?q - 1)" using False num by (simp add: seen_def)
    moreover have "?q - 1 < i \<longleftrightarrow> ?q \<le> i" using \<open>0 < ?q\<close> by arith
    ultimately show ?thesis using num [OF that] by (simp add: newer_def)
  qed
  have "filter (newer seen) (drop ?p sent) = drop ?q sent"
  proof -
    have "drop ?p sent = drop ?p (take ?q sent) @ drop ?q sent"
      by (metis append_take_drop_id drop_append drop_drop le length_take min.absorb2 prefix_length_le pre
          diff_is_0_eq drop0 take)
    moreover have "\<not> newer seen ev" if "ev \<in> set (take ?q sent)" for ev
      using that seen by (auto simp: in_set_conv_nth)
    then have "filter (newer seen) (drop ?p (take ?q sent)) = []"
      by (auto simp: filter_empty_conv dest: in_set_dropD)
    moreover have "filter (newer seen) (drop ?q sent) = drop ?q sent"
      using seen by (auto simp: filter_id_conv in_set_conv_nth)
    ultimately show ?thesis by simp
  qed
  moreover have "suffix h (take ?q sent)" using inv1 take by (simp add: live_inv_def h_def)
  ultimately show "suffix (h @ filter (newer seen) (drop ?p sent)) sent"
    by (metis append_take_drop_id same_suffix_suffix suffix_def append_assoc)
qed


text \<open>A run after its first event was pushed, after it was sent, and after a second one.\<close>

definition sample_live :: "audit_event \<Rightarrow> audit_event \<Rightarrow> nat \<Rightarrow> live_run" where
  "sample_live e1 e2 n =
     (let ev0 = \<lparr>re_seq = 0, re_event = e1\<rparr>; ev1 = \<lparr>re_seq = 1, re_event = e2\<rparr>
      in if n = 0 then \<lparr>lv_sink = \<lparr>cs_seq = 1, cs_history = [ev0], cs_sent = []\<rparr>, lv_pending = Some ev0, lv_finished = False\<rparr>
         else if n = 1 then \<lparr>lv_sink = \<lparr>cs_seq = 1, cs_history = [ev0], cs_sent = [ev0]\<rparr>, lv_pending = None, lv_finished = False\<rparr>
         else if n = 2 then \<lparr>lv_sink = \<lparr>cs_seq = 2, cs_history = [ev0, ev1], cs_sent = [ev0]\<rparr>, lv_pending = Some ev1, lv_finished = False\<rparr>
         else \<lparr>lv_sink = \<lparr>cs_seq = 2, cs_history = [ev0, ev1], cs_sent = [ev0, ev1]\<rparr>, lv_pending = None, lv_finished = False\<rparr>)"

lemma sample_live_steps:
  "live_step new_live_run (sample_live e1 e2 0)" "live_step (sample_live e1 e2 0) (sample_live e1 e2 1)"
  "live_step (sample_live e1 e2 1) (sample_live e1 e2 2)" "live_step (sample_live e1 e2 2) (sample_live e1 e2 3)"
  using Push [of new_live_run e1 "\<lparr>re_seq = 0, re_event = e1\<rparr>" "lv_sink (sample_live e1 e2 0)"]
    Send [of "sample_live e1 e2 0" "\<lparr>re_seq = 0, re_event = e1\<rparr>"]
    Push [of "sample_live e1 e2 1" e2 "\<lparr>re_seq = 1, re_event = e2\<rparr>" "lv_sink (sample_live e1 e2 2)"]
    Send [of "sample_live e1 e2 2" "\<lparr>re_seq = 1, re_event = e2\<rparr>"]
  by (simp_all add: sample_live_def new_live_run_def new_channel_sink_def history_push_def broadcast_send_def
    max_history_def trim_batch_def Let_def)


text \<open>
  The proviso is needed: events recorded after the copy of the history are lost when the run
  finishes before the check.
\<close>

lemma finish_before_check_loses_events:
  "\<exists>l1 l2 ev. live_step\<^sup>*\<^sup>* new_live_run l1 \<and> live_step\<^sup>*\<^sup>* l1 l2 \<and> lv_finished l2 \<and> ev \<in> set (cs_sent (lv_sink l2)) \<and>
     (\<forall>rs. ev \<notin> set (event_stream (cs_history (lv_sink l1)) (lv_finished l2) rs))"
proof -
  fix e
  let ?l = "sample_live e e 1"
  have "live_step\<^sup>*\<^sup>* new_live_run ?l"
    using sample_live_steps(1,2) [of e e] by (meson converse_rtranclp_into_rtranclp r_into_rtranclp)
  moreover have "live_step ?l (?l\<lparr>lv_finished := True\<rparr>)" by (rule Finish) (simp add: sample_live_def Let_def)
  ultimately have "live_step\<^sup>*\<^sup>* new_live_run (?l\<lparr>lv_finished := True\<rparr>)" by (rule rtranclp.rtrancl_into_rtrancl)
  moreover have "cs_history (lv_sink new_live_run) = []" by (simp add: new_live_run_def new_channel_sink_def)
  moreover have "\<lparr>re_seq = 0, re_event = e\<rparr> \<in> set (cs_sent (lv_sink (?l\<lparr>lv_finished := True\<rparr>)))"
    by (simp add: sample_live_def Let_def)
  ultimately show ?thesis
    by (intro exI [of _ new_live_run] exI [of _ "?l\<lparr>lv_finished := True\<rparr>"] exI [of _ "\<lparr>re_seq = 0, re_event = e\<rparr>"])
      (simp add: event_stream_def)
qed

end
