(* ===== verification/Server_Gate.thy ===== *)
theory Server_Gate
  imports Server_Api "HOL-Library.Word"
begin

unbundle bit_operations_syntax

text \<open>
  Who may use the server: the token gate of the API (\<open>require_token\<close> in
  \<open>boitata-server/src/api.rs\<close>), the check of the bound address at startup (\<open>main.rs\<close>), and the
  embedded web interface, which is served to anybody (\<open>assets.rs\<close>).

  The parameters are what the HTTP library decodes: the authorization header as text, if it is
  visible ASCII, and the query string as sent.
\<close>

section \<open>Comparing secrets\<close>

definition as_bytes :: "string \<Rightarrow> 8 word list" where
  "as_bytes s = map of_char s"

definition constant_time_eq :: "8 word list \<Rightarrow> 8 word list \<Rightarrow> bool" where
  "constant_time_eq a b \<longleftrightarrow>
     (if length a \<noteq> length b then False
      else foldl (\<lambda>diff (x, y). diff OR (x XOR y)) 0 (zip a b) = 0)"

section \<open>The gate\<close>

definition strip_prefix :: "string \<Rightarrow> string \<Rightarrow> string option" where
  "strip_prefix p s = (if prefix p s then Some (drop (length p) s) else None)"

fun split_amp :: "string \<Rightarrow> string list" where
  "split_amp [] = [[]]"
| "split_amp (c # cs) =
     (if c = CHR ''&'' then [] # split_amp cs
      else (case split_amp cs of [] \<Rightarrow> [[c]] | p # ps \<Rightarrow> (c # p) # ps))"

definition token_from_query :: "string \<Rightarrow> string option" where
  "token_from_query query =
     (case List.map_filter (\<lambda>kv. opt_filter (\<lambda>v. v \<noteq> []) (strip_prefix ''token='' kv)) (split_amp query) of
        [] \<Rightarrow> None | v # vs \<Rightarrow> Some v)"

definition provided_token :: "string option \<Rightarrow> string option \<Rightarrow> string option" where
  "provided_token authorization query =
     or_opt (Option.bind authorization (\<lambda>h. map_option trim (strip_prefix ''Bearer '' h)))
       (Option.bind query token_from_query)"

definition require_token ::
    "environment \<Rightarrow> config \<Rightarrow> string option \<Rightarrow> string option \<Rightarrow> api_error + unit" where
  "require_token env c authorization query =
     (case resolve_api_token env c of
        None \<Rightarrow> Inr ()
      | Some expected \<Rightarrow>
          (case provided_token authorization query of
             Some p \<Rightarrow> if constant_time_eq (as_bytes p) (as_bytes expected) then Inr () else Inl unauthorized
           | None \<Rightarrow> Inl unauthorized))"

section \<open>Startup\<close>

definition exposure_check :: "environment \<Rightarrow> config \<Rightarrow> bool \<Rightarrow> string \<Rightarrow> string + unit" where
  "exposure_check env c loopback addr =
     (let token_configured = resolve_api_token env c \<noteq> None in
      if \<not> loopback \<and> \<not> token_configured
      then Inl (''refusing to bind non-loopback address '' @ bt @ addr @ bt @
        '' without authentication: the server has no auth and can run shell/file/git commands. '' @
        ''Set an API token ('' @ bt @ ''api_token'' @ bt @ '' in the config or the BOITATA_API_TOKEN env var) '' @
        ''to expose it safely, or bind to 127.0.0.1.'')
      else Inr ())"

section \<open>The web interface\<close>

record asset_response =
  ar_status :: nat
  ar_content_type :: "string option"
  ar_cache_control :: "string option"
  ar_body :: string

definition asset_path :: "string \<Rightarrow> string" where
  "asset_path uri_path =
     (let path = dropWhile (\<lambda>c. c = CHR ''/'') uri_path
      in if path = [] then ''index.html'' else path)"

definition serve_asset :: "(string \<Rightarrow> string) \<Rightarrow> string \<Rightarrow> string \<Rightarrow> asset_response" where
  "serve_asset mime path content =
     \<lparr>ar_status = 200, ar_content_type = Some (mime path),
      ar_cache_control = Some (if prefix ''assets/'' path then ''public, max-age=31536000, immutable''
                               else ''no-cache''),
      ar_body = content\<rparr>"

definition static_handler ::
    "(string \<rightharpoonup> string) \<Rightarrow> (string \<Rightarrow> string) \<Rightarrow> string \<Rightarrow> asset_response" where
  "static_handler assets mime uri_path =
     (let path = asset_path uri_path in
      case assets path of
        Some content \<Rightarrow> serve_asset mime path content
      | None \<Rightarrow>
          (case assets ''index.html'' of
             Some content \<Rightarrow> serve_asset mime ''index.html'' content
           | None \<Rightarrow>
               \<lparr>ar_status = 404, ar_content_type = None, ar_cache_control = None,
                ar_body = ''boitata-server: web UI not built. Run '' @ bt @ ''npm install && npm run build'' @ bt @
                  '' in crates/boitata-server/frontend, then rebuild the server.''\<rparr>))"

lemma only_bundled_assets_cached:
  "ar_cache_control (static_handler assets mime u) = Some ''public, max-age=31536000, immutable'' \<longleftrightarrow>
     prefix ''assets/'' (asset_path u) \<and> assets (asset_path u) \<noteq> None"
  by (auto simp: static_handler_def serve_asset_def Let_def split: option.split)

section \<open>The comparison is equality\<close>

lemma xor_eq_0: "(a XOR b :: 8 word) = 0 \<longleftrightarrow> a = b"
proof
  assume "a XOR b = 0"
  then have "(a XOR b) XOR b = b" by simp
  then show "a = b" by (simp add: xor.assoc)
qed simp

lemma diff_zero:
  "foldl (\<lambda>diff (x, y). diff OR (x XOR y)) d ps = (0 :: 8 word) \<longleftrightarrow> d = 0 \<and> (\<forall>(x, y) \<in> set ps. x = y)"
  by (induction ps arbitrary: d) (auto simp: or_eq_0_iff xor_eq_0)

lemma constant_time_eq_iff: "constant_time_eq a b \<longleftrightarrow> a = b"
proof (cases "length a = length b")
  case True
  then show ?thesis
    by (auto simp: constant_time_eq_def diff_zero list_eq_iff_zip_eq zip_same_conv_map)
qed (auto simp: constant_time_eq_def)

lemma of_char_word8 [simp]: "(of_char c :: 8 word) = of_char d \<longleftrightarrow> c = d"
proof -
  have "unat (of_char e :: 8 word) = of_char e" for e
  proof -
    have "(of_char e :: 8 word) = word_of_nat (of_char e)" by (simp add: of_nat_of_char)
    then show ?thesis by (simp add: unat_of_nat)
  qed
  then show ?thesis by (metis of_char_eq_iff)
qed

lemma as_bytes_eq [simp]: "as_bytes s = as_bytes t \<longleftrightarrow> s = t"
  by (simp add: as_bytes_def inj_map_eq_map inj_def)

section \<open>Properties\<close>

lemma require_token_cases:
  "require_token env c authorization query =
     (case resolve_api_token env c of
        None \<Rightarrow> Inr ()
      | Some t \<Rightarrow> if provided_token authorization query = Some t then Inr () else Inl unauthorized)"
  by (auto simp: require_token_def constant_time_eq_iff split: option.split)

lemma resolved_token_nonempty: "resolve_api_token env c = Some t \<Longrightarrow> t \<noteq> []"
  by (auto simp: resolve_api_token_def nonblank_def opt_filter_def bind_eq_Some_conv split: if_splits)

text \<open>
  A server that started on an address other machines reach lets an API request
  pass exactly when it carries the configured token, which is not empty, in its
  authorization header or, if it has no bearer header, in its query; every other request gets
  the error 401.
\<close>

theorem exposed_api_needs_token:
  assumes "exposure_check env c loopback addr = Inr ()" and "\<not> loopback"
  shows "\<exists>t. t \<noteq> [] \<and> resolve_api_token env c = Some t \<and>
    (\<forall>authorization query. require_token env c authorization query =
       (if provided_token authorization query = Some t then Inr () else Inl unauthorized))"
proof -
  from assms obtain t where "resolve_api_token env c = Some t"
    by (auto simp: exposure_check_def Let_def split: if_splits)
  then show ?thesis by (auto simp: require_token_cases dest: resolved_token_nonempty)
qed

definition token_environment :: environment where
  "token_environment = [''BOITATA_API_TOKEN'' \<mapsto> ''s3cret'']"

theorem exposed_api_needs_token_witness:
  "\<forall>c. exposure_check token_environment c False ''0.0.0.0:8787'' = Inr () \<and>
     require_token token_environment c (Some ''Bearer s3cret'') None = Inr () \<and>
     require_token token_environment c None (Some ''x=1&token=s3cret'') = Inr () \<and>
     require_token token_environment c (Some ''Bearer nope'') (Some ''token=s3cret'') = Inl unauthorized"
proof (intro allI)
  fix c
  have tok: "resolve_api_token token_environment c = Some ''s3cret''"
    by (simp add: resolve_api_token_def token_environment_def env_override_def nonblank_def
      trim_graphic graphic_def)
  then have ok: "exposure_check token_environment c False ''0.0.0.0:8787'' = Inr ()"
    by (simp add: exposure_check_def)
  have given: "provided_token (Some ''Bearer s3cret'') None = Some ''s3cret''"
    "provided_token None (Some ''x=1&token=s3cret'') = Some ''s3cret''"
    "provided_token (Some ''Bearer nope'') (Some ''token=s3cret'') = Some ''nope''"
    by (simp_all add: provided_token_def strip_prefix_def token_from_query_def List.map_filter_simps
      trim_graphic graphic_def)
  from exposed_api_needs_token [OF ok] tok ok given
  show "exposure_check token_environment c False ''0.0.0.0:8787'' = Inr () \<and>
     require_token token_environment c (Some ''Bearer s3cret'') None = Inr () \<and>
     require_token token_environment c None (Some ''x=1&token=s3cret'') = Inr () \<and>
     require_token token_environment c (Some ''Bearer nope'') (Some ''token=s3cret'') = Inl unauthorized"
    by auto
qed

end
