(* ===== verification/Server_Jobs.thy ===== *)
theory Server_Jobs
  imports Server_Gate Runtime
begin

text \<open>
  What a background task of the server runs (\<open>run_agent\<close>, \<open>run_blueprint\<close> and
  \<open>resume_blueprint\<close> in \<open>boitata-server/src/api.rs\<close>), the handlers that show blueprints, and how
  \<open>main\<close> puts the server together.
\<close>

section \<open>The application\<close>

record 'w app =
  ap_config :: config
  ap_environment :: environment
  ap_provider :: provider
  ap_tools :: "'w registry"
  ap_tool_order :: "string list"
  ap_policy :: policy

section \<open>Running an agent\<close>

definition server_agent :: "'w app \<Rightarrow> string \<Rightarrow> 'w agent" where
  "server_agent ap default_prompt =
     (let cfg = ap_config ap;
          ag = with_audit (with_policy (new_agent (ap_provider ap) (ap_tools ap) (ap_tool_order ap) default_prompt)
            (ap_policy ap));
          ag1 = (case cf_system_prompt cfg of Some p \<Rightarrow> with_system_prompt ag p | None \<Rightarrow> ag);
          ag2 = (case cf_max_iterations cfg of Some n \<Rightarrow> with_max_iterations ag1 n | None \<Rightarrow> ag1)
      in case cf_auto_compact_threshold cfg of Some x \<Rightarrow> with_compact_threshold ag2 x | None \<Rightarrow> ag2)"

definition run_agent_job ::
    "'w app \<Rightarrow> string \<Rightarrow> 'w env \<Rightarrow> string \<Rightarrow> string \<Rightarrow> 'w \<Rightarrow> (string + run_result) \<times> 'w run" where
  "run_agent_job ap default_prompt env sum_prompt t w =
     (case run_with_cancel (server_agent ap default_prompt) env sum_prompt (new_task t) w of
        (res, r) \<Rightarrow> (map_sum id result_from_task res, r))"

section \<open>Running a blueprint\<close>

text \<open>
  The catalog's paths are text: discovery refuses any other, so the code's second error, a path
  that is not UTF-8, does not arise.
\<close>

definition resolve_blueprint_path :: "server \<Rightarrow> string \<Rightarrow> string + string" where
  "resolve_blueprint_path s name =
     ok_or (''unknown blueprint '' @ bt @ name @ bt) (map_of (sv_blueprints s) name)"

definition blueprint_executor ::
    "'w app \<Rightarrow> 't store_env \<Rightarrow> state_codec \<Rightarrow> string \<Rightarrow> string \<Rightarrow> ('w, store) executor" where
  "blueprint_executor ap env codec run_id name =
     (let cfg = ap_config ap;
          ex = ex_with_max_retries
            (ex_with_blueprint_label
              (ex_with_run_id
                (ex_with_checkpointer
                  (ex_with_audit
                    (ex_with_env_defaults
                      (ex_with_compact_threshold
                        (ex_with_max_iterations
                          (ex_with_system_prompt
                            (ex_with_policy (new_executor (ap_provider ap) (ap_tools ap) (ap_tool_order ap))
                              (ap_policy ap))
                            (cf_system_prompt cfg))
                          (cf_max_iterations cfg))
                        (cf_auto_compact_threshold cfg))
                      (provider_env (ap_environment ap) cfg)))
                  (sqlite_ops env codec))
                run_id)
              name)
            (cf_blueprint_max_retries cfg)
      in case cf_blueprint_max_steps cfg of Some n \<Rightarrow> ex_with_max_steps ex n | None \<Rightarrow> ex)"

text \<open>What a task records: nothing after a panic.\<close>

fun blueprint_outcome :: "outcome \<Rightarrow> (string + run_result) option" where
  "blueprint_outcome (OkState st) = Some (Inr (result_from_state st))"
| "blueprint_outcome (ErrRun e) = Some (Inl (show_run_error e))"
| "blueprint_outcome Panicked = None"

definition run_blueprint_job ::
    "'w app \<Rightarrow> server \<Rightarrow> library_disk \<Rightarrow> 't store_env \<Rightarrow> state_codec \<Rightarrow> 'w outside \<Rightarrow> 'w schedule \<Rightarrow>
     string \<Rightarrow> string \<Rightarrow> string \<Rightarrow> store \<Rightarrow> (string + run_result) option \<times> store xrun" where
  "run_blueprint_job ap s d env codec os sd run_id name t st =
     (case and_then (resolve_blueprint_path s name) (load_blueprint d) of
        Inl e \<Rightarrow> (Some (Inl e), new_xrun st)
      | Inr g \<Rightarrow>
          (case run_blueprint (blueprint_executor ap env codec run_id name) os g sd t st of
             (res, r) \<Rightarrow> (blueprint_outcome res, r)))"

definition resume_blueprint_job ::
    "'w app \<Rightarrow> server \<Rightarrow> library_disk \<Rightarrow> 't store_env \<Rightarrow> state_codec \<Rightarrow> 'w outside \<Rightarrow> 'w schedule \<Rightarrow>
     string \<Rightarrow> string \<Rightarrow> store \<Rightarrow> (string + run_result) option \<times> store xrun" where
  "resume_blueprint_job ap s d env codec os sd run_id name st =
     (case and_then (resolve_blueprint_path s name) (load_blueprint d) of
        Inl e \<Rightarrow> (Some (Inl e), new_xrun st)
      | Inr g \<Rightarrow>
          (case resume_blueprint (blueprint_executor ap env codec run_id name) os g sd st of
             (res, r) \<Rightarrow> (blueprint_outcome res, r)))"

section \<open>Showing blueprints\<close>

definition list_blueprints :: "server \<Rightarrow> string list" where
  "list_blueprints s = map fst (sv_blueprints s)"

definition blueprint_text :: "server \<Rightarrow> library_disk \<Rightarrow> string \<Rightarrow> api_error + string" where
  "blueprint_text s d name =
     and_then (ok_or (not_found_msg (''unknown blueprint '' @ bt @ name @ bt)) (map_of (sv_blueprints s) name)) (\<lambda>path.
       map_err (\<lambda>e. internal_error (''failed to read blueprint '' @ bt @ name @ bt @ '': '' @ e)) (ld_read d path))"

definition get_blueprint ::
    "server \<Rightarrow> library_disk \<Rightarrow> (json \<Rightarrow> string) \<Rightarrow> string \<Rightarrow> api_error + blueprint_graph" where
  "get_blueprint s d pretty name =
     and_then (blueprint_text s d name) (\<lambda>src.
       map_err (\<lambda>e. internal_error (''blueprint '' @ bt @ name @ bt @ '' is invalid: '' @ e))
         (map_sum id (describe pretty) (ld_parse d src)))"

definition get_blueprint_source :: "server \<Rightarrow> library_disk \<Rightarrow> string \<Rightarrow> api_error + string \<times> string" where
  "get_blueprint_source s d name = map_sum id (Pair name) (blueprint_text s d name)"

section \<open>Startup\<close>

text \<open>The names of the catalog in order, with their paths.\<close>

definition catalog :: "(string + dir_entry) list \<Rightarrow> (string \<rightharpoonup> string) \<Rightarrow> (string \<times> string) list" where
  "catalog es found =
     List.map_filter (\<lambda>n. map_option (Pair n) (found n))
       (sort (remdups (List.map_filter (\<lambda>e. case e of Inl err \<Rightarrow> None | Inr e \<Rightarrow> de_stem e) es)))"

record server_args =
  sa_config :: "string option"
  sa_addr :: string
  sa_blueprints_dir :: "string option"

text \<open>
  What \<open>main\<close> reaches: the file of the configuration, the assembly of the provider and the tools,
  the directory, the database, and whether the address that is bound is a loopback one.
\<close>

record 'w startup =
  su_environment :: environment
  su_read :: "string \<Rightarrow> string + string"
  su_parse :: "string \<Rightarrow> string + config"
  su_tools :: "config \<Rightarrow> 'w registry \<times> string list"
  su_compile :: "string \<Rightarrow> string + string"
  su_disk :: library_disk
  su_entries :: "string \<Rightarrow> string + (string + dir_entry) list"
  su_open :: "string \<Rightarrow> string + store"
  su_bind :: "string \<Rightarrow> string + bool"

definition offered :: "'w startup \<Rightarrow> string option \<Rightarrow> string + (string \<times> string) list" where
  "offered su dir =
     (case dir of
        None \<Rightarrow> Inr []
      | Some d \<Rightarrow>
          map_err (\<lambda>e. ''failed to load blueprints from '' @ d @ '': '' @ e)
            (map_sum id (\<lambda>found. case su_entries su d of Inr es \<Rightarrow> catalog es found | Inl e \<Rightarrow> [])
              (discover (su_disk su) d (su_entries su d))))"

definition start_server :: "'w startup \<Rightarrow> server_args \<Rightarrow> string + 'w app \<times> server" where
  "start_server su args =
     and_then (load_config (su_read su) (su_parse su) (resolve_config_path (su_environment su) (sa_config args))) (\<lambda>c.
     and_then (build_provider (su_environment su) c) (\<lambda>p.
     and_then (build_policy (su_compile su) c) (\<lambda>policy.
     and_then (offered su (sa_blueprints_dir args)) (\<lambda>blueprints.
     let db = unwrap_or ''boitata.db'' (cf_state_db c) in
     and_then (map_err (\<lambda>e. ''failed to open state database '' @ bt @ db @ bt @ '': '' @ e) (su_open su db)) (\<lambda>st.
     and_then (map_err (\<lambda>e. ''failed to bind '' @ sa_addr args @ '': '' @ e) (su_bind su (sa_addr args))) (\<lambda>loopback.
     and_then (exposure_check (su_environment su) c loopback (sa_addr args)) (\<lambda>u.
       Inr (\<lparr>ap_config = c, ap_environment = su_environment su, ap_provider = provider_facts p,
             ap_tools = fst (su_tools su c), ap_tool_order = snd (su_tools su c), ap_policy = policy\<rparr>,
            new_server blueprints st))))))))"

section \<open>Facts\<close>

lemma discover_onto_stems:
  "discover_onto d dir es found = Inr m \<Longrightarrow> m n \<noteq> None \<Longrightarrow>
     found n \<noteq> None \<or> (\<exists>e. Inr e \<in> set es \<and> de_stem e = Some n)"
proof (induction d dir es found rule: discover_onto.induct)
  case (3 d dir e es found)
  show ?case
  proof (cases "\<not> de_is_file e \<or> \<not> is_yaml e")
    case True
    with 3 show ?thesis by auto
  next
    case False
    with "3.prems"(1) obtain name path g where l: "de_stem e = Some name" "de_path e = Some path"
      "load_blueprint d path = Inr g" and rest: "discover_onto d dir es (found(name \<mapsto> path)) = Inr m"
      by (auto simp: and_then_Inr_iff ok_or_def split: option.splits)
    from "3.IH"(2) [OF False rest "3.prems"(2)] l(1) show ?thesis by (auto split: if_splits)
  qed
qed auto

lemma map_of_map_filter:
  "map_of (List.map_filter (\<lambda>n. map_option (Pair n) (m n)) ns) n = (if n \<in> set ns then m n else None)"
  by (induction ns) (auto simp: List.map_filter_simps split: option.split)

lemma catalog_lookup:
  assumes "discover d dir (Inr es) = Inr m"
  shows "map_of (catalog es m) n = m n"
proof -
  have "n \<in> set (List.map_filter (\<lambda>e. case e of Inl err \<Rightarrow> None | Inr e \<Rightarrow> de_stem e) es)" if "m n \<noteq> None"
    using discover_onto_stems [of d dir es Map.empty m n] assms that
    by (force simp: discover_def List.map_filter_def)
  then show ?thesis by (cases "m n") (auto simp: catalog_def map_of_map_filter)
qed

text \<open>Every blueprint a started server offers compiled at startup, and its names are in order.\<close>

lemma offered_loads:
  assumes "offered su dir = Inr bs" "map_of bs n = Some p"
  shows "\<exists>g. load_blueprint (su_disk su) p = Inr g"
proof (cases dir)
  case (Some d)
  with assms obtain es m where m: "su_entries su d = Inr es" "discover (su_disk su) d (Inr es) = Inr m" "bs = catalog es m"
    by (cases "su_entries su d") (auto simp: offered_def discover_def map_sum_def map_err_def split: sum.splits)
  with assms(2) have "m n = Some p" by (simp add: catalog_lookup)
  with m(2) show ?thesis by (rule discovered_load)
qed (use assms in \<open>simp add: offered_def\<close>)

text \<open>
  A claimed resume never fails on the label of the checkpoint: the blueprint the task resumes is
  the one the checkpoint names.
\<close>

lemma claimed_label_matches:
  "blueprint_label (blueprint_executor ap env codec run_id (cr_blueprint rec)) g = cr_blueprint rec"
  by (simp add: blueprint_executor_def blueprint_label_def Let_def ex_with_max_retries_def ex_with_blueprint_label_def
    ex_with_max_steps_def split: option.split)

end
