(* ===== verification/Docker.thy ===== *)
theory Docker
  imports Nodes
begin

text \<open>
  The Docker backend of the sandbox contract (\<open>boitata-orchestrator/src/sandbox/docker.rs\<close>) and
  the manager that tears sandboxes down (\<open>sandbox/mod.rs\<close>).

  The daemon is reached through the library bollard, so its calls are parameters: the record
  \<open>docker_api\<close>, over a daemon state of any type.  What the backend asked the daemon is kept in
  a log of calls, in which the properties are stated.
\<close>

section \<open>The daemon\<close>

record container_spec =
  cs_image :: string
  cs_entrypoint :: "string list"
  cs_cmd :: "string list"
  cs_env :: "string list option"

datatype pull_end = Pulled | PullFailed string | PullTimedOut string | PullCancelled

text \<open>What the loop that reads the output of a command meets.\<close>

datatype exec_item = Chunk string | StreamFailed string | ExecCancelled

datatype exec_start = Attached "exec_item list" | Detached

record 'd docker_api =
  dk_connect :: "'d \<Rightarrow> (string + unit) \<times> 'd"
  dk_has_image :: "string \<Rightarrow> 'd \<Rightarrow> bool \<times> 'd"
  dk_pull :: "string \<Rightarrow> 'd \<Rightarrow> pull_end \<times> 'd"
  dk_create :: "container_spec \<Rightarrow> 'd \<Rightarrow> (string + string) \<times> 'd"
  dk_start :: "string \<Rightarrow> 'd \<Rightarrow> (string + unit) \<times> 'd"
  dk_remove :: "string \<Rightarrow> 'd \<Rightarrow> (string + unit) \<times> 'd"
  dk_create_exec :: "string \<Rightarrow> string list \<Rightarrow> string option \<Rightarrow> 'd \<Rightarrow> (string + string) \<times> 'd"
  dk_start_exec :: "string \<Rightarrow> 'd \<Rightarrow> (string + exec_start) \<times> 'd"
  dk_exit_code :: "string \<Rightarrow> 'd \<Rightarrow> (string + int option) \<times> 'd"
  dk_networks :: "string \<Rightarrow> 'd \<Rightarrow> (string + (string \<times> string option) list option) \<times> 'd"

datatype docker_call =
    CallPull string
  | CallCreate container_spec "string option"
  | CallStart string bool
  | CallRemove string bool
  | CallExec string "string list" "string option"
  | CallInspect string

record 'd docker_world =
  dw_daemon :: 'd
  dw_connected :: bool
  dw_calls :: "docker_call list"

section \<open>Steps that may fail\<close>

definition do_then :: "('e + 'a) \<times> 'w \<Rightarrow> ('a \<Rightarrow> 'w \<Rightarrow> ('e + 'b) \<times> 'w) \<Rightarrow> ('e + 'b) \<times> 'w" where
  "do_then r k = (case r of (Inl e, w) \<Rightarrow> (Inl e, w) | (Inr a, w) \<Rightarrow> k a w)"

lemma do_then_simps [simp]:
  "do_then (Inl e, w) k = (Inl e, w)"
  "do_then (Inr a, w) k = k a w"
  by (simp_all add: do_then_def)

definition with_context :: "string \<Rightarrow> (string + 'a) \<times> 'w \<Rightarrow> (string + 'a) \<times> 'w" where
  "with_context m r = (case r of (res, w) \<Rightarrow> (map_err (\<lambda>e. m @ '': '' @ e) res, w))"

lemma with_context_simps [simp]:
  "with_context m (Inl e, w) = (Inl (m @ '': '' @ e), w)"
  "with_context m (Inr a, w) = (Inr a, w)"
  by (simp_all add: with_context_def)

text \<open>A call: the daemon answers, and the log grows.\<close>

definition ask ::
    "('d \<Rightarrow> 'a \<times> 'd) \<Rightarrow> ('a \<Rightarrow> docker_call list) \<Rightarrow> 'd docker_world \<Rightarrow> 'a \<times> 'd docker_world" where
  "ask f log w =
     (case f (dw_daemon w) of (a, d) \<Rightarrow> (a, w\<lparr>dw_daemon := d, dw_calls := dw_calls w @ log a\<rparr>))"

section \<open>The backend\<close>

definition docker_connect :: "'d docker_api \<Rightarrow> 'd docker_world \<Rightarrow> (string + unit) \<times> 'd docker_world" where
  "docker_connect api w =
     (if dw_connected w then (Inr (), w)
      else do_then (with_context ''failed to connect to the Docker daemon'' (ask (dk_connect api) (\<lambda>r. []) w))
        (\<lambda>u w1. (Inr (), w1\<lparr>dw_connected := True\<rparr>)))"

definition docker_destroy :: "'d docker_api \<Rightarrow> string \<Rightarrow> 'd docker_world \<Rightarrow> (string + unit) \<times> 'd docker_world" where
  "docker_destroy api i w =
     do_then (docker_connect api w) (\<lambda>u w1.
       with_context (''failed to remove container '' @ i)
         (ask (dk_remove api i) (\<lambda>r. [CallRemove i (r = Inr ())]) w1))"

definition ensure_image :: "'d docker_api \<Rightarrow> string \<Rightarrow> 'd docker_world \<Rightarrow> (string + unit) \<times> 'd docker_world" where
  "ensure_image api img w =
     (case ask (dk_has_image api img) (\<lambda>r. []) w of
        (True, w1) \<Rightarrow> (Inr (), w1)
      | (False, w1) \<Rightarrow>
          (case ask (dk_pull api img) (\<lambda>r. [CallPull img]) w1 of
             (Pulled, w2) \<Rightarrow> (Inr (), w2)
           | (PullFailed e, w2) \<Rightarrow> (Inl (''failed to pull image '' @ bt @ img @ bt @ '': '' @ e), w2)
           | (PullTimedOut e, w2) \<Rightarrow> (Inl (''timed out pulling image '' @ bt @ img @ bt @ '': '' @ e), w2)
           | (PullCancelled, w2) \<Rightarrow> (Inl (''cancelled while pulling '' @ bt @ img @ bt), w2)))"

definition container_body :: "string \<Rightarrow> (string \<times> string) list \<Rightarrow> container_spec" where
  "container_body img env =
     (let container_env = map (\<lambda>(name, v). name @ ''='' @ v) env
      in \<lparr>cs_image = img, cs_entrypoint = [''sleep''], cs_cmd = [''infinity''],
          cs_env = (if container_env = [] then None else Some container_env)\<rparr>)"

definition docker_provision ::
    "'d docker_api \<Rightarrow> string \<Rightarrow> (string \<times> string) list \<Rightarrow> 'd docker_world \<Rightarrow> (string + string) \<times> 'd docker_world" where
  "docker_provision api img env w =
     do_then (docker_connect api w) (\<lambda>u w1.
     do_then (ensure_image api img w1) (\<lambda>u w2.
     let body = container_body img env in
     do_then (with_context (''failed to create container from '' @ bt @ img @ bt)
         (ask (dk_create api body) (\<lambda>r. [CallCreate body (case r of Inl e \<Rightarrow> None | Inr i \<Rightarrow> Some i)]) w2)) (\<lambda>i w3.
     case ask (dk_start api i) (\<lambda>r. [CallStart i (r = Inr ())]) w3 of
       (Inr u, w4) \<Rightarrow> (Inr i, w4)
     | (Inl e, w4) \<Rightarrow>
         (case docker_destroy api i w4 of (res, w5) \<Rightarrow>
            (Inl (''failed to start container '' @ i @ '': '' @ e), w5)))))"

section \<open>Running a command\<close>

definition max_exec_output :: nat where
  "max_exec_output = 1048576"

definition append_capped :: "nat \<Rightarrow> string \<Rightarrow> string \<Rightarrow> bool \<Rightarrow> string \<times> bool" where
  "append_capped cap output chunk clipped =
     (let remaining = cap - length output in
      if remaining = 0 then (output, chunk \<noteq> [])
      else if length chunk \<le> remaining then (output @ chunk, clipped)
      else (output @ take (floor_boundary chunk remaining) chunk, True))"

fun read_exec :: "nat \<Rightarrow> exec_item list \<Rightarrow> string \<Rightarrow> bool \<Rightarrow> string + string \<times> bool" where
  "read_exec cap [] output clipped = Inr (output, clipped)"
| "read_exec cap (ExecCancelled # items) output clipped = Inl ''cancelled during exec''"
| "read_exec cap (StreamFailed e # items) output clipped = Inl (''exec stream error: '' @ e)"
| "read_exec cap (Chunk c # items) output clipped =
     (if length output < cap
      then (case append_capped cap output c clipped of (output1, clipped1) \<Rightarrow>
              read_exec cap items output1 clipped1)
      else read_exec cap items output True)"

text \<open>A line feed, the ellipsis character and the words.\<close>

definition truncation_marker :: string where
  "truncation_marker = [CHR 0x0A, CHR 0xE2, CHR 0x80, CHR 0xA6] @ ''[output truncated]''"

definition exec_output :: "nat \<Rightarrow> exec_start \<Rightarrow> string + string" where
  "exec_output cap started =
     (case started of
        Detached \<Rightarrow> Inr []
      | Attached items \<Rightarrow>
          map_sum id (\<lambda>(output, clipped). if clipped then output @ truncation_marker else output)
            (read_exec cap items [] False))"

definition docker_exec ::
    "'d docker_api \<Rightarrow> string \<Rightarrow> string list \<Rightarrow> string option \<Rightarrow> 'd docker_world \<Rightarrow>
     (string + int \<times> string) \<times> 'd docker_world" where
  "docker_exec api i argv workdir w =
     do_then (docker_connect api w) (\<lambda>u w1.
     do_then (with_context ''failed to create exec''
         (ask (dk_create_exec api i argv workdir) (\<lambda>r. [CallExec i argv workdir]) w1)) (\<lambda>ex w2.
     do_then (with_context ''failed to start exec'' (ask (dk_start_exec api ex) (\<lambda>r. []) w2)) (\<lambda>started w3.
     do_then (exec_output max_exec_output started, w3) (\<lambda>output w4.
     do_then (with_context ''failed to inspect exec'' (ask (dk_exit_code api ex) (\<lambda>r. []) w4)) (\<lambda>code w5.
       (map_sum id (\<lambda>c. (c, output)) (ok_or ''exec produced no exit code'' code), w5))))))"

section \<open>The address\<close>

definition network_address :: "(string \<times> string option) list \<Rightarrow> string option" where
  "network_address nets =
     (let addr = (\<lambda>name. opt_filter (\<lambda>s. s \<noteq> []) (Option.bind (map_of nets name) id))
      in case addr ''bridge'' of
           Some ip \<Rightarrow> Some ip
         | None \<Rightarrow>
             (case List.map_filter addr (sort (map fst nets)) of [] \<Rightarrow> None | ip # ips \<Rightarrow> Some ip))"

definition docker_endpoint ::
    "'d docker_api \<Rightarrow> string \<Rightarrow> nat \<Rightarrow> 'd docker_world \<Rightarrow> (string + string) \<times> 'd docker_world" where
  "docker_endpoint api i port w =
     do_then (docker_connect api w) (\<lambda>u w1.
     do_then (with_context (''failed to inspect container '' @ i)
         (ask (dk_networks api i) (\<lambda>r. [CallInspect i]) w1)) (\<lambda>nets w2.
       (map_sum id (\<lambda>ip. ip @ '':'' @ show_nat port)
          (ok_or (''container '' @ i @ '' has no network address yet'') (Option.bind nets network_address)), w2)))"

text \<open>A backend with the teardown that only the manager uses.\<close>

record 'w sandbox_host = "'w sandbox_backend" +
  sb_destroy :: "string \<Rightarrow> 'w \<Rightarrow> (string + unit) \<times> 'w"

definition docker_backend :: "'d docker_api \<Rightarrow> 'd docker_world sandbox_host" where
  "docker_backend api =
     \<lparr>sb_provision = docker_provision api, sb_exec = docker_exec api, sb_endpoint = docker_endpoint api,
      sb_destroy = docker_destroy api\<rparr>"

section \<open>The manager\<close>

text \<open>
  \<open>cleanup_all\<close>: every recorded sandbox is destroyed, each try bounded in time.  The tries run
  concurrently; here the backend sees them in the order of the list.
\<close>

record 'w sandboxes =
  sx_world :: 'w
  sx_provisioned :: "string list"

definition fresh_sandboxes :: "'w \<Rightarrow> 'w sandboxes" where
  "fresh_sandboxes w = \<lparr>sx_world = w, sx_provisioned = []\<rparr>"

definition sandboxes_provision ::
    "'w sandbox_host \<Rightarrow> string \<Rightarrow> (string \<times> string) list \<Rightarrow> 'w sandboxes \<Rightarrow> (string + string) \<times> 'w sandboxes" where
  "sandboxes_provision b img env s =
     (case sb_provision b img env (sx_world s) of
        (Inl e, w) \<Rightarrow> (Inl e, s\<lparr>sx_world := w\<rparr>)
      | (Inr i, w) \<Rightarrow> (Inr i, s\<lparr>sx_world := w, sx_provisioned := sx_provisioned s @ [i]\<rparr>))"

definition sandboxes_exec ::
    "'w sandbox_host \<Rightarrow> string \<Rightarrow> string list \<Rightarrow> string option \<Rightarrow> 'w sandboxes \<Rightarrow> (string + int \<times> string) \<times> 'w sandboxes" where
  "sandboxes_exec b i argv workdir s =
     (case sb_exec b i argv workdir (sx_world s) of (r, w) \<Rightarrow> (r, s\<lparr>sx_world := w\<rparr>))"

definition sandboxes_endpoint ::
    "'w sandbox_host \<Rightarrow> string \<Rightarrow> nat \<Rightarrow> 'w sandboxes \<Rightarrow> (string + string) \<times> 'w sandboxes" where
  "sandboxes_endpoint b i port s =
     (case sb_endpoint b i port (sx_world s) of (r, w) \<Rightarrow> (r, s\<lparr>sx_world := w\<rparr>))"

definition sandboxes_cleanup :: "'w sandbox_host \<Rightarrow> 'w sandboxes \<Rightarrow> 'w sandboxes" where
  "sandboxes_cleanup b s =
     s\<lparr>sx_world := foldl (\<lambda>w i. snd (sb_destroy b i w)) (sx_world s) (sx_provisioned s),
       sx_provisioned := []\<rparr>"

text \<open>What the nodes of a run do with the sandboxes.\<close>

datatype sandbox_op =
    OpProvision string "(string \<times> string) list"
  | OpExec string "string list" "string option"
  | OpEndpoint string nat

fun run_op :: "'w sandbox_host \<Rightarrow> sandbox_op \<Rightarrow> 'w sandboxes \<Rightarrow> 'w sandboxes" where
  "run_op b (OpProvision img env) s = snd (sandboxes_provision b img env s)"
| "run_op b (OpExec i argv wd) s = snd (sandboxes_exec b i argv wd s)"
| "run_op b (OpEndpoint i port) s = snd (sandboxes_endpoint b i port s)"

section \<open>The contract of a backend\<close>

text \<open>
  \<open>up\<close> lists the environments created so far, \<open>down\<close> those asked to be destroyed, and \<open>usable\<close>
  says that the backend can reach what it manages.  A provision that fails leaves nothing that
  it has not asked to be destroyed.
\<close>

definition tracked :: "('w \<Rightarrow> string list) \<Rightarrow> ('w \<Rightarrow> string list) \<Rightarrow> ('w \<Rightarrow> bool) \<Rightarrow> 'w sandboxes \<Rightarrow> bool" where
  "tracked up down usable s \<longleftrightarrow>
     set (up (sx_world s)) = set (sx_provisioned s) \<union> set (down (sx_world s)) \<and>
     (up (sx_world s) \<noteq> [] \<longrightarrow> usable (sx_world s))"

locale sandbox_contract =
  fixes b :: "'w sandbox_host"
    and up :: "'w \<Rightarrow> string list"
    and down :: "'w \<Rightarrow> string list"
    and usable :: "'w \<Rightarrow> bool"
  assumes provision_law: "sb_provision b img env w = (r, w1) \<Longrightarrow>
      \<exists>made gone. up w1 = up w @ made \<and> down w1 = down w @ gone \<and> (usable w \<or> made \<noteq> [] \<longrightarrow> usable w1) \<and>
        (case r of Inr i \<Rightarrow> made = [i] \<and> gone = [] | Inl e \<Rightarrow> made = gone)"
    and exec_law: "sb_exec b i argv wd w = (r2, w1) \<Longrightarrow> up w1 = up w \<and> down w1 = down w \<and> (usable w \<longrightarrow> usable w1)"
    and endpoint_law: "sb_endpoint b i port w = (r, w1) \<Longrightarrow> up w1 = up w \<and> down w1 = down w \<and> (usable w \<longrightarrow> usable w1)"
    and destroy_law: "sb_destroy b i w = (r3, w1) \<Longrightarrow> usable w \<Longrightarrow> up w1 = up w \<and> down w1 = down w @ [i] \<and> usable w1"
begin

lemma run_op_tracked: "tracked up down usable s \<Longrightarrow> tracked up down usable (run_op b op s)"
proof (induction op)
  case (OpProvision img env)
  obtain r w1 where r: "sb_provision b img env (sx_world s) = (r, w1)"
    by (cases "sb_provision b img env (sx_world s)")
  from provision_law [OF r] OpProvision r show ?case
    by (cases r) (auto simp: sandboxes_provision_def tracked_def)
next
  case (OpExec i argv wd)
  obtain r w1 where r: "sb_exec b i argv wd (sx_world s) = (r, w1)" by (cases "sb_exec b i argv wd (sx_world s)")
  from exec_law [OF r] OpExec r show ?case by (simp add: sandboxes_exec_def tracked_def)
next
  case (OpEndpoint i port)
  obtain r w1 where r: "sb_endpoint b i port (sx_world s) = (r, w1)" by (cases "sb_endpoint b i port (sx_world s)")
  from endpoint_law [OF r] OpEndpoint r show ?case by (simp add: sandboxes_endpoint_def tracked_def)
qed

lemma run_ops_tracked: "tracked up down usable s \<Longrightarrow> tracked up down usable (foldl (\<lambda>s op. run_op b op s) s ops)"
  by (induction ops arbitrary: s) (auto simp: run_op_tracked)

lemma destroy_all:
  "usable w \<Longrightarrow>
     up (foldl (\<lambda>w i. snd (sb_destroy b i w)) w is) = up w \<and>
     down (foldl (\<lambda>w i. snd (sb_destroy b i w)) w is) = down w @ is"
proof (induction "is" arbitrary: w)
  case (Cons i "is")
  obtain r w1 where r: "sb_destroy b i w = (r, w1)" by (cases "sb_destroy b i w")
  from destroy_law [OF r Cons.prems] Cons.IH [of w1] r show ?case by simp
qed simp

text \<open>The manager's promise: after the cleanup, what was created is what was asked to be destroyed.\<close>

lemma cleanup_complete:
  assumes "up w = []" "down w = []"
    and s_def: "s = sandboxes_cleanup b (foldl (\<lambda>s op. run_op b op s) (fresh_sandboxes w) ops)"
  shows "set (down (sx_world s)) = set (up (sx_world s)) \<and> sx_provisioned s = []"
proof -
  let ?s = "foldl (\<lambda>s op. run_op b op s) (fresh_sandboxes w) ops"
  have t: "tracked up down usable ?s"
    using assms(1,2) by (intro run_ops_tracked) (simp add: fresh_sandboxes_def tracked_def)
  show ?thesis
  proof (cases "sx_provisioned ?s = []")
    case True
    with t show ?thesis by (simp add: s_def sandboxes_cleanup_def tracked_def)
  next
    case False
    with t have "usable (sx_world ?s)" by (auto simp: tracked_def)
    from destroy_all [OF this, of "sx_provisioned ?s"] t show ?thesis
      by (auto simp: s_def sandboxes_cleanup_def tracked_def)
  qed
qed

end

section \<open>What the operations promise\<close>

text \<open>The output of a command stays within the cap, and is complete unless it is marked.\<close>

lemma append_capped_bounded:
  "append_capped cap buf c clipped = (buf1, clipped1) \<Longrightarrow> length buf \<le> cap \<Longrightarrow> length buf1 \<le> cap"
  using floor_boundary_le [of c "cap - length buf"]
  by (auto simp: append_capped_def Let_def split: if_splits)

lemma read_exec_bounded:
  "read_exec cap items buf clipped = Inr (out, clipped1) \<Longrightarrow> length buf \<le> cap \<Longrightarrow> length out \<le> cap"
  by (induction cap items buf clipped rule: read_exec.induct)
    (auto split: if_splits prod.splits dest: append_capped_bounded)

lemma exec_output_bounded:
  "exec_output cap started = Inr out \<Longrightarrow> length out \<le> cap + length truncation_marker"
  by (auto simp: exec_output_def map_sum_def dest!: read_exec_bounded split: exec_start.splits sum.splits if_splits prod.splits)

lemma read_exec_clipped: "read_exec cap items buf True \<noteq> Inr (out, False)"
proof (induction items arbitrary: buf)
  case (Cons item items)
  then show ?case by (cases item) (auto simp: append_capped_def Let_def)
qed simp

lemma read_exec_complete:
  "read_exec cap items buf clipped = Inr (out, False) \<Longrightarrow>
     \<exists>cs. items = map Chunk cs \<and> out = buf @ concat cs"
proof (induction cap items buf clipped rule: read_exec.induct)
  case (4 cap c items buf clipped)
  obtain buf1 clipped1 where a: "append_capped cap buf c clipped = (buf1, clipped1)"
    by (cases "append_capped cap buf c clipped")
  show ?case
  proof (cases "length buf < cap")
    case True
    with a "4.prems" have r: "read_exec cap items buf1 clipped1 = Inr (out, False)" by simp
    with read_exec_clipped have "clipped1 = False" by (cases clipped1) auto
    with a True have "buf1 = buf @ c" by (auto simp: append_capped_def Let_def split: if_splits)
    with "4.IH"(1) [OF True a [symmetric] r] show ?thesis by (metis append.assoc concat.simps(2) list.simps(9))
  next
    case False
    with "4.prems" read_exec_clipped show ?thesis by auto
  qed
qed auto

text \<open>
  What is kept of a clipped output need not be its beginning: after a piece that was cut back to a
  character boundary a later, smaller one still fits.
\<close>

lemma clipped_output_has_gap:
  "read_exec 2 [Chunk ''a'', Chunk [CHR 0xC3, CHR 0xA9], Chunk ''b''] [] False = Inr (''ab'', True)"
  by code_simp

text \<open>The address does not depend on the order in which the networks are listed.\<close>

lemma network_address_order:
  assumes "distinct (map fst nets)" "distinct (map fst nets1)" "set nets = set nets1"
  shows "network_address nets = network_address nets1"
proof -
  have "map_of nets = map_of nets1" using assms by (simp add: map_of_inject_set)
  moreover have "sort (map fst nets) = sort (map fst nets1)"
    using assms by (metis distinct_remdups_id set_map sorted_list_of_set_sort_remdups)
  ultimately show ?thesis unfolding network_address_def by presburger
qed

section \<open>Every container is taken down\<close>

fun created_by :: "docker_call \<Rightarrow> string option" where
  "created_by (CallCreate body i) = i"
| "created_by call = None"

fun removal_of :: "docker_call \<Rightarrow> string option" where
  "removal_of (CallRemove i succeeded) = Some i"
| "removal_of call = None"

definition created :: "docker_call list \<Rightarrow> string list" where
  "created calls = List.map_filter created_by calls"

definition removals :: "docker_call list \<Rightarrow> string list" where
  "removals calls = List.map_filter removal_of calls"

lemma log_simps [simp]:
  "created [] = []" "removals [] = []"
  "created (a @ b) = created a @ created b" "removals (a @ b) = removals a @ removals b"
  "created (c # a) = (case created_by c of None \<Rightarrow> created a | Some i \<Rightarrow> i # created a)"
  "removals (c # a) = (case removal_of c of None \<Rightarrow> removals a | Some i \<Rightarrow> i # removals a)"
  by (simp_all add: created_def removals_def List.map_filter_def split: option.split)

text \<open>What an operation adds to the log.\<close>

definition extends :: "'d docker_world \<Rightarrow> 'd docker_world \<Rightarrow> string list \<Rightarrow> string list \<Rightarrow> bool" where
  "extends w w1 made gone \<longleftrightarrow>
     created (dw_calls w1) = created (dw_calls w) @ made \<and> removals (dw_calls w1) = removals (dw_calls w) @ gone \<and>
     (dw_connected w \<longrightarrow> dw_connected w1)"

lemma extends_refl: "extends w w [] []"
  by (simp add: extends_def)

lemma extends_trans: "extends w w1 a b \<Longrightarrow> extends w1 w2 c d \<Longrightarrow> extends w w2 (a @ c) (b @ d)"
  by (simp add: extends_def)

lemma ask_extends:
  "ask f log w = (a, w1) \<Longrightarrow> extends w w1 (created (log a)) (removals (log a))"
  by (auto simp: ask_def extends_def split: prod.splits)

lemma ask_connected: "ask f log w = (a, w1) \<Longrightarrow> dw_connected w1 = dw_connected w"
  by (auto simp: ask_def split: prod.splits)

lemma docker_connect_effect:
  assumes "docker_connect api w = (r, w1)"
  shows "extends w w1 [] []" "r = Inr () \<Longrightarrow> dw_connected w1" "dw_connected w \<Longrightarrow> r = Inr () \<and> w1 = w"
proof -
  obtain a w2 where a: "ask (dk_connect api) (\<lambda>r. []) w = (a, w2)" by (cases "ask (dk_connect api) (\<lambda>r. []) w")
  note e = ask_extends [OF a]
  show "extends w w1 [] []" "r = Inr () \<Longrightarrow> dw_connected w1" "dw_connected w \<Longrightarrow> r = Inr () \<and> w1 = w"
    using assms a e by (cases a; auto simp: docker_connect_def extends_def split: if_splits)+
qed

lemma docker_destroy_effect:
  assumes "docker_destroy api i w = (r, w1)" "dw_connected w"
  shows "extends w w1 [] [i]"
proof -
  obtain a w2 where a: "ask (dk_remove api i) (\<lambda>r. [CallRemove i (r = Inr ())]) w = (a, w2)"
    by (cases "ask (dk_remove api i) (\<lambda>r. [CallRemove i (r = Inr ())]) w")
  from ask_extends [OF a] assms a show ?thesis
    by (cases a) (auto simp: docker_destroy_def docker_connect_def)
qed

lemma ensure_image_effect:
  assumes "ensure_image api img w = (r, w1)"
  shows "extends w w1 [] []"
proof -
  obtain b w2 where b: "ask (dk_has_image api img) (\<lambda>r. []) w = (b, w2)"
    by (cases "ask (dk_has_image api img) (\<lambda>r. []) w")
  obtain p w3 where p: "ask (dk_pull api img) (\<lambda>r. [CallPull img]) w2 = (p, w3)"
    by (cases "ask (dk_pull api img) (\<lambda>r. [CallPull img]) w2")
  from extends_trans [OF ask_extends [OF b] ask_extends [OF p]] ask_extends [OF b] assms b p show ?thesis
    by (auto simp: ensure_image_def split: bool.splits pull_end.splits)
qed

text \<open>
  Provisioning: on success one container was created and it is the one returned; on failure
  whatever was created was asked to be removed.
\<close>

lemma docker_provision_effect:
  assumes "docker_provision api img env w = (r, w1)"
  shows "\<exists>made gone. extends w w1 made gone \<and> (made \<noteq> [] \<longrightarrow> dw_connected w1) \<and>
    (case r of Inr i \<Rightarrow> made = [i] \<and> gone = [] | Inl e \<Rightarrow> made = gone)"
proof -
  obtain c wc where c: "docker_connect api w = (c, wc)" by (cases "docker_connect api w")
  note ec = docker_connect_effect [OF c]
  show ?thesis
  proof (cases c)
    case (Inl e)
    with assms c ec(1) show ?thesis by (auto simp: docker_provision_def intro!: exI [of _ "[]"])
  next
    case (Inr u)
    obtain g wg where g: "ensure_image api img wc = (g, wg)" by (cases "ensure_image api img wc")
    have eg: "extends w wg [] []" using extends_trans [OF ec(1) ensure_image_effect [OF g]] by simp
    have cg: "dw_connected wg" using ec(2) Inr ensure_image_effect [OF g] by (simp add: extends_def)
    show ?thesis
    proof (cases g)
      case (Inl e)
      with assms c g eg \<open>c = Inr u\<close> show ?thesis by (auto simp: docker_provision_def intro!: exI [of _ "[]"])
    next
      case ok: (Inr u2)
      let ?body = "container_body img env"
      let ?log = "\<lambda>r. [CallCreate ?body (case r of Inl e \<Rightarrow> None | Inr i \<Rightarrow> Some i)]"
      obtain m wm where m: "ask (dk_create api ?body) ?log wg = (m, wm)" by (cases "ask (dk_create api ?body) ?log wg")
      note em = extends_trans [OF eg ask_extends [OF m]]
      have cm: "dw_connected wm" using cg ask_connected [OF m] by simp
      show ?thesis
      proof (cases m)
        case (Inl e)
        with assms c g m em Inr ok show ?thesis
          by (auto simp: docker_provision_def Let_def intro!: exI [of _ "[]"])
      next
        case made: (Inr i)
        obtain st ws where st: "ask (dk_start api i) (\<lambda>r. [CallStart i (r = Inr ())]) wm = (st, ws)"
          by (cases "ask (dk_start api i) (\<lambda>r. [CallStart i (r = Inr ())]) wm")
        have es: "extends w ws [i] []" using extends_trans [OF em ask_extends [OF st]] made by simp
        have cs: "dw_connected ws" using cm ask_connected [OF st] by simp
        obtain d wd where d: "docker_destroy api i ws = (d, wd)" by (cases "docker_destroy api i ws")
        have ed: "extends w wd [i] [i]" using extends_trans [OF es docker_destroy_effect [OF d cs]] by simp
        have cd: "dw_connected wd" using docker_destroy_effect [OF d cs] cs by (simp add: extends_def)
        show ?thesis
          using assms c g m st d es cs ed cd Inr ok made
          by (cases st) (auto simp: docker_provision_def Let_def extends_def intro!: exI [of _ "[i]"])
      qed
    qed
  qed
qed

lemma quiet_trans: "extends w w1 [] [] \<Longrightarrow> extends w1 w2 [] [] \<Longrightarrow> extends w w2 [] []"
  using extends_trans [of w w1 "[]" "[]" w2 "[]" "[]"] by simp

lemma docker_exec_effect: "docker_exec api i argv wd w = (r, w1) \<Longrightarrow> extends w w1 [] []"
  by (auto simp: docker_exec_def do_then_def with_context_def map_err_def split: prod.splits sum.splits
    dest!: docker_connect_effect(1) ask_extends) (blast intro: quiet_trans)+

lemma docker_endpoint_effect: "docker_endpoint api i port w = (r, w1) \<Longrightarrow> extends w w1 [] []"
  by (auto simp: docker_endpoint_def do_then_def with_context_def map_err_def split: prod.splits sum.splits
    dest!: docker_connect_effect(1) ask_extends) (blast intro: quiet_trans)+

interpretation daemon: sandbox_contract "docker_backend api" "\<lambda>w. created (dw_calls w)" "\<lambda>w. removals (dw_calls w)" dw_connected
  for api
proof (unfold_locales, goal_cases)
  case (1 img env w r w1)
  then show ?case using docker_provision_effect [of api img env w r w1] by (auto simp: docker_backend_def extends_def)
next
  case (2 i argv wd w r w1)
  then show ?case using docker_exec_effect [of api i argv wd w r w1] by (simp add: docker_backend_def extends_def)
next
  case (3 i port w r w1)
  then show ?case using docker_endpoint_effect [of api i port w r w1] by (simp add: docker_backend_def extends_def)
next
  case (4 i w r w1)
  then show ?case using docker_destroy_effect [of api i w r w1] by (simp add: docker_backend_def extends_def)
qed

definition fresh_docker :: "'d \<Rightarrow> 'd docker_world" where
  "fresh_docker d = \<lparr>dw_daemon = d, dw_connected = False, dw_calls = []\<rparr>"

section \<open>Properties\<close>

text \<open>
  Property C19.  No container outlives its run: whatever the nodes do with the sandboxes and
  however the daemon answers, the containers the daemon created for the run are exactly those
  it has been asked to remove by the time the cleanup is over, whether they were provisioned or
  failed to start.
\<close>

theorem docker_no_orphans:
  "let b = docker_backend api;
       s = sandboxes_cleanup b (foldl (\<lambda>s op. run_op b op s) (fresh_sandboxes (fresh_docker d)) ops);
       calls = dw_calls (sx_world s)
   in set (removals calls) = set (created calls) \<and> sx_provisioned s = []"
  using daemon.cleanup_complete [OF _ _ refl, of "fresh_docker d" api ops] by (simp add: fresh_docker_def Let_def)

end
