(* ===== verification/Human.thy ===== *)
theory Human
  imports Nodes Utf8
begin

text \<open>
  The terminal operator (\<open>StdioHuman\<close> in \<open>boitata-orchestrator/src/human.rs\<close>): the console it
  prompts on, and the human nodes of a blueprint that ask it.  One buffered reader is held for the
  whole run, so what is left of the input after a reply is there for the next prompt.  A string
  is the sequence of its UTF-8 bytes.
\<close>

section \<open>The console\<close>

text \<open>
  \<open>co_write_fails\<close> and \<open>co_read_fails\<close> are the failures of the operating system,
  \<open>co_cancelled\<close> whether the run is cancelled before the awaited line arrives.
\<close>

record console =
  co_stdin :: string
  co_stderr :: string
  co_write_fails :: "string option"
  co_read_fails :: "string option"
  co_cancelled :: bool

definition newline :: string where
  "newline = [CHR 0x0A]"

fun read_line :: "string \<Rightarrow> string \<times> string" where
  "read_line [] = ([], [])"
| "read_line (c # cs) =
     (if c = CHR 0x0A then ([c], cs) else let (l, rest) = read_line cs in (c # l, rest))"

definition human_prompt :: "string \<Rightarrow> string" where
  "human_prompt p = newline @ p @ newline @ ''> ''"

definition stdio_human :: "string \<Rightarrow> console \<Rightarrow> (string + string) \<times> console" where
  "stdio_human p w =
     (case co_write_fails w of
        Some e \<Rightarrow> (Inl e, w)
      | None \<Rightarrow>
          let w1 = w\<lparr>co_stderr := co_stderr w @ human_prompt p\<rparr>
          in if co_cancelled w then (Inl ''human input cancelled'', w1)
             else (case co_read_fails w of
                     Some e \<Rightarrow> (Inl e, w1)
                   | None \<Rightarrow>
                       let (line, rest) = read_line (co_stdin w); w2 = w1\<lparr>co_stdin := rest\<rparr>
                       in if \<not> valid_utf8 line then (Inl ''stream did not contain valid UTF-8'', w2)
                          else if line = [] then
                            (Inl ''human input required but stdin reached EOF (non-interactive run?)'', w2)
                          else (Inr (trim line), w2)))"

section \<open>Properties\<close>

lemma read_line_splits: "read_line s = (l, rest) \<Longrightarrow> l @ rest = s"
  by (induction s arbitrary: l) (auto split: if_splits prod.splits)

lemma read_line_empty: "read_line s = ([], rest) \<Longrightarrow> s = []"
  by (cases s) (auto split: if_splits prod.splits)

lemma read_line_terminated:
  "CHR 0x0A \<notin> set l \<Longrightarrow> read_line (l @ newline @ rest) = (l @ newline, rest)"
  by (induction l) (auto simp: newline_def)

text \<open>
  A reply consumes exactly one line and never loses read-ahead: what was consumed and what is
  left make up the input, whatever the outcome.
\<close>

lemma stdio_human_keeps_input:
  "\<exists>consumed. co_stdin w = consumed @ co_stdin (snd (stdio_human p w))"
  by (auto simp: stdio_human_def Let_def dest!: read_line_splits intro: sym split: option.splits prod.splits)

text \<open>
  Two prompts in a row read two lines in a row, and a third one at the end of the input is the
  error of an unattended run, so a gate is never passed for want of an operator.
\<close>

lemma prompts_read_in_turn:
  assumes "co_write_fails w = None" "co_read_fails w = None" "\<not> co_cancelled w"
    and "co_stdin w = a @ newline @ b @ newline" "CHR 0x0A \<notin> set a" "CHR 0x0A \<notin> set b"
    and "valid_utf8 (a @ newline)" "valid_utf8 (b @ newline)"
    and "stdio_human p w = (ra, w1)" "stdio_human q w1 = (rb, w2)" "stdio_human r w2 = (rc, w3)"
  shows "ra = Inr (trim (a @ newline)) \<and> rb = Inr (trim (b @ newline)) \<and>
    rc = Inl ''human input required but stdin reached EOF (non-interactive run?)''"
proof -
  have 1: "ra = Inr (trim (a @ newline)) \<and> w1 = w\<lparr>co_stderr := co_stderr w @ human_prompt p, co_stdin := b @ newline\<rparr>"
    using assms read_line_terminated [OF assms(5), of "b @ newline"]
    by (auto simp: stdio_human_def Let_def newline_def)
  with assms read_line_terminated [OF assms(6), of "[]"]
  have 2: "rb = Inr (trim (b @ newline)) \<and>
      w2 = w1\<lparr>co_stderr := co_stderr w1 @ human_prompt q, co_stdin := []\<rparr>"
    by (auto simp: stdio_human_def Let_def newline_def)
  with 1 assms have "rc = Inl ''human input required but stdin reached EOF (non-interactive run?)''"
    by (auto simp: stdio_human_def Let_def)
  with 1 2 show ?thesis by simp
qed

text \<open>
  An approval gate asking this operator succeeds only on a line that was read and is affirmative.
\<close>

lemma approval_needs_operator:
  assumes "cx_human cx = stdio_human"
    and "human_run cx name prompt ApprovalMode s w = (Inr u, w1, [])" "up_status u = Some Ok"
  shows "\<exists>line rest. read_line (co_stdin w) = (line, rest) \<and> line \<noteq> [] \<and> is_affirmative (trim line)"
  using assms
  by (auto simp: human_run_def stdio_human_def Let_def from_node_def
      split: option.splits prod.splits sum.splits if_splits)

end
