(* ===== verification/Event_Wire.thy ===== *)
theory Event_Wire
  imports Messages Audit_Sinks "HOL-Library.Monad_Syntax"
begin

text \<open>
  Audit events as JSON (the derived \<open>Serialize\<close> and \<open>Deserialize\<close> of \<open>boitata-core/src/audit.rs\<close>):
  an object tagged by \<open>event\<close> with the variant's name in snake case.  Reading ignores unknown
  fields; a missing field is an error unless it is optional.
\<close>

section \<open>Writing\<close>

definition jnat :: "nat \<Rightarrow> json" where
  "jnat n = JNum (PosInt n)"

definition jopt :: "('a \<Rightarrow> json) \<Rightarrow> 'a option \<Rightarrow> json" where
  "jopt f v = (case v of None \<Rightarrow> JNull | Some x \<Rightarrow> f x)"

fun kind_name :: "node_kind \<Rightarrow> string" where
  "kind_name KindAgent = ''agent''"
| "kind_name KindTool = ''tool''"
| "kind_name KindScript = ''script''"
| "kind_name KindHuman = ''human''"
| "kind_name KindContainer = ''container''"

fun status_name :: "node_status \<Rightarrow> string" where
  "status_name NodeOk = ''ok''"
| "status_name NodeFailed = ''failed''"

fun reason_name :: "completion_reason \<Rightarrow> string" where
  "reason_name RunDone = ''completed''"
| "reason_name RunCancelled = ''cancelled''"
| "reason_name RunStepLimit = ''step_limit''"
| "reason_name RunError = ''error''"

fun event_tag :: "audit_event \<Rightarrow> string" where
  "event_tag (RunStarted t p m) = ''run_started''"
| "event_tag (LlmResponse i h c ti to) = ''llm_response''"
| "event_tag (ToolCallEvent i n a r e ro) = ''tool_call''"
| "event_tag (ToolDenied i n a r) = ''tool_denied''"
| "event_tag (ContextCompacted i tb ta mb ma) = ''context_compacted''"
| "event_tag (RunCompleted s i e ti to) = ''run_completed''"
| "event_tag (BlueprintStarted b e) = ''blueprint_started''"
| "event_tag (BlueprintResumed b s) = ''blueprint_resumed''"
| "event_tag (NodeExecuted s n k st nx out) = ''node_executed''"
| "event_tag (SuperStepRetried s a e) = ''super_step_retried''"
| "event_tag (BlueprintCompleted s r) = ''blueprint_completed''"

fun event_fields :: "audit_event \<Rightarrow> (string \<times> json) list" where
  "event_fields (RunStarted t p m) = [(''task'', JStr t), (''provider'', JStr p), (''model'', JStr m)]"
| "event_fields (LlmResponse i h c ti to) =
     [(''iteration'', jnat i), (''has_text'', JBool h), (''tool_calls'', JArr (map JStr c)),
      (''input_tokens'', jopt jnat ti), (''output_tokens'', jopt jnat to)]"
| "event_fields (ToolCallEvent i n a r e ro) =
     [(''iteration'', jnat i), (''name'', JStr n), (''arguments'', JStr a), (''result'', JStr r),
      (''is_error'', JBool e), (''read_only'', JBool ro)]"
| "event_fields (ToolDenied i n a r) =
     [(''iteration'', jnat i), (''name'', JStr n), (''arguments'', JStr a), (''reason'', JStr r)]"
| "event_fields (ContextCompacted i tb ta mb ma) =
     [(''iteration'', jnat i), (''tokens_before'', jnat tb), (''tokens_after'', jnat ta),
      (''messages_before'', jnat mb), (''messages_after'', jnat ma)]"
| "event_fields (RunCompleted s i e ti to) =
     [(''success'', JBool s), (''iterations'', jnat i), (''error'', jopt JStr e),
      (''total_input_tokens'', jnat ti), (''total_output_tokens'', jnat to)]"
| "event_fields (BlueprintStarted b e) = [(''blueprint'', JStr b), (''entry'', JStr e)]"
| "event_fields (BlueprintResumed b s) = [(''blueprint'', JStr b), (''step'', jnat s)]"
| "event_fields (NodeExecuted s n k st nx out) =
     [(''step'', jnat s), (''node'', JStr n), (''kind'', JStr (kind_name k)), (''status'', JStr (status_name st)),
      (''next'', JStr nx), (''output'', JStr out)]"
| "event_fields (SuperStepRetried s a e) = [(''step'', jnat s), (''attempt'', jnat a), (''error'', JStr e)]"
| "event_fields (BlueprintCompleted s r) = [(''steps'', jnat s), (''reason'', JStr (reason_name r))]"

definition event_json :: "audit_event \<Rightarrow> json" where
  "event_json e = JObj ((''event'', JStr (event_tag e)) # event_fields e)"

text \<open>The line of the audit log and the event of the stream: the envelope's fields come first.\<close>

definition record_json :: "string \<Rightarrow> string \<Rightarrow> audit_event \<Rightarrow> json" where
  "record_json run_id timestamp e =
     JObj ([(''run_id'', JStr run_id), (''timestamp'', JStr timestamp), (''event'', JStr (event_tag e))] @ event_fields e)"

definition run_event_json :: "run_event \<Rightarrow> json" where
  "run_event_json ev =
     JObj ([(''seq'', jnat (re_seq ev)), (''event'', JStr (event_tag (re_event ev)))] @ event_fields (re_event ev))"

section \<open>Reading\<close>

fun all_some :: "'a option list \<Rightarrow> 'a list option" where
  "all_some [] = Some []"
| "all_some (None # vs) = None"
| "all_some (Some v # vs) = map_option (Cons v) (all_some vs)"

definition as_strs :: "json \<Rightarrow> string list option" where
  "as_strs v = (case v of JArr vs \<Rightarrow> all_some (map as_str vs) | _ \<Rightarrow> None)"

definition need :: "json \<Rightarrow> string \<Rightarrow> (json \<Rightarrow> 'a option) \<Rightarrow> 'a option" where
  "need v k conv = Option.bind (jget v k) conv"

definition maybe :: "json \<Rightarrow> string \<Rightarrow> (json \<Rightarrow> 'a option) \<Rightarrow> 'a option option" where
  "maybe v k conv =
     (case jget v k of None \<Rightarrow> Some None | Some x \<Rightarrow> if x = JNull then Some None else map_option Some (conv x))"

definition kind_of_name :: "string \<Rightarrow> node_kind option" where
  "kind_of_name s = map_of (map (\<lambda>k. (kind_name k, k)) [KindAgent, KindTool, KindScript, KindHuman, KindContainer]) s"

definition status_of_name :: "string \<Rightarrow> node_status option" where
  "status_of_name s = map_of (map (\<lambda>k. (status_name k, k)) [NodeOk, NodeFailed]) s"

definition reason_of_name :: "string \<Rightarrow> completion_reason option" where
  "reason_of_name s = map_of (map (\<lambda>k. (reason_name k, k)) [RunDone, RunCancelled, RunStepLimit, RunError]) s"

definition named :: "(string \<Rightarrow> 'a option) \<Rightarrow> json \<Rightarrow> 'a option" where
  "named f v = Option.bind (as_str v) f"

definition read_event :: "string \<Rightarrow> json \<Rightarrow> audit_event option" where
  "read_event tag v =
     (if tag = ''run_started'' then do {
        t \<leftarrow> need v ''task'' as_str; p \<leftarrow> need v ''provider'' as_str; m \<leftarrow> need v ''model'' as_str;
        Some (RunStarted t p m) }
      else if tag = ''llm_response'' then do {
        i \<leftarrow> need v ''iteration'' as_u64; h \<leftarrow> need v ''has_text'' as_bool; c \<leftarrow> need v ''tool_calls'' as_strs;
        ti \<leftarrow> maybe v ''input_tokens'' as_u64; to \<leftarrow> maybe v ''output_tokens'' as_u64;
        Some (LlmResponse i h c ti to) }
      else if tag = ''tool_call'' then do {
        i \<leftarrow> need v ''iteration'' as_u64; n \<leftarrow> need v ''name'' as_str; a \<leftarrow> need v ''arguments'' as_str;
        r \<leftarrow> need v ''result'' as_str; e \<leftarrow> need v ''is_error'' as_bool; ro \<leftarrow> need v ''read_only'' as_bool;
        Some (ToolCallEvent i n a r e ro) }
      else if tag = ''tool_denied'' then do {
        i \<leftarrow> need v ''iteration'' as_u64; n \<leftarrow> need v ''name'' as_str; a \<leftarrow> need v ''arguments'' as_str;
        r \<leftarrow> need v ''reason'' as_str;
        Some (ToolDenied i n a r) }
      else if tag = ''context_compacted'' then do {
        i \<leftarrow> need v ''iteration'' as_u64; tb \<leftarrow> need v ''tokens_before'' as_u64; ta \<leftarrow> need v ''tokens_after'' as_u64;
        mb \<leftarrow> need v ''messages_before'' as_u64; ma \<leftarrow> need v ''messages_after'' as_u64;
        Some (ContextCompacted i tb ta mb ma) }
      else if tag = ''run_completed'' then do {
        s \<leftarrow> need v ''success'' as_bool; i \<leftarrow> need v ''iterations'' as_u64; e \<leftarrow> maybe v ''error'' as_str;
        ti \<leftarrow> need v ''total_input_tokens'' as_u64; to \<leftarrow> need v ''total_output_tokens'' as_u64;
        Some (RunCompleted s i e ti to) }
      else if tag = ''blueprint_started'' then do {
        b \<leftarrow> need v ''blueprint'' as_str; e \<leftarrow> need v ''entry'' as_str;
        Some (BlueprintStarted b e) }
      else if tag = ''blueprint_resumed'' then do {
        b \<leftarrow> need v ''blueprint'' as_str; s \<leftarrow> need v ''step'' as_u64;
        Some (BlueprintResumed b s) }
      else if tag = ''node_executed'' then do {
        s \<leftarrow> need v ''step'' as_u64; n \<leftarrow> need v ''node'' as_str; k \<leftarrow> need v ''kind'' (named kind_of_name);
        st \<leftarrow> need v ''status'' (named status_of_name); nx \<leftarrow> need v ''next'' as_str; out \<leftarrow> need v ''output'' as_str;
        Some (NodeExecuted s n k st nx out) }
      else if tag = ''super_step_retried'' then do {
        s \<leftarrow> need v ''step'' as_u64; a \<leftarrow> need v ''attempt'' as_u64; e \<leftarrow> need v ''error'' as_str;
        Some (SuperStepRetried s a e) }
      else if tag = ''blueprint_completed'' then do {
        s \<leftarrow> need v ''steps'' as_u64; r \<leftarrow> need v ''reason'' (named reason_of_name);
        Some (BlueprintCompleted s r) }
      else None)"

definition event_of_json :: "json \<Rightarrow> audit_event option" where
  "event_of_json v = Option.bind (need v ''event'' as_str) (\<lambda>tag. read_event tag v)"

section \<open>The round trip\<close>

lemma scalar_codecs [simp, codec_simps]:
  "as_str (JStr s) = Some s" "as_u64 (jnat n) = Some n" "as_bool (JBool b) = Some b"
  by (simp_all add: as_str_def as_u64_def jnat_def as_bool_def)

lemma as_strs_codec [simp, codec_simps]: "as_strs (JArr (map JStr c)) = Some c"
proof -
  have "all_some (map as_str (map JStr c)) = Some c" by (induction c) auto
  then show ?thesis by (simp add: as_strs_def)
qed

lemma kind_codec [simp, codec_simps]: "kind_of_name (kind_name k) = Some k"
  by (cases k) (simp_all add: kind_of_name_def)

lemma status_codec [simp, codec_simps]: "status_of_name (status_name st) = Some st"
  by (cases st) (simp_all add: status_of_name_def)

lemma reason_codec [simp, codec_simps]: "reason_of_name (reason_name r) = Some r"
  by (cases r) (simp_all add: reason_of_name_def)

lemma field_codecs [simp, codec_simps]:
  "need (JObj ((a, x) # fs)) k conv = (if k = a then conv x else need (JObj fs) k conv)"
  "maybe (JObj ((a, x) # fs)) k conv =
     (if k = a then if x = JNull then Some None else map_option Some (conv x) else maybe (JObj fs) k conv)"
  by (simp_all add: need_def maybe_def jget_def)

lemma jopt_codecs [simp, codec_simps]:
  "(if jopt jnat v = JNull then Some None else map_option Some (as_u64 (jopt jnat v))) = Some v"
  "(if jopt JStr w = JNull then Some None else map_option Some (as_str (jopt JStr w))) = Some w"
  by (cases v; cases w; simp add: jopt_def jnat_def as_u64_def)+

lemma event_json_roundtrip [simp, codec_simps]: "event_of_json (event_json e) = Some e"
  by (cases e) (simp_all add: event_of_json_def event_json_def read_event_def named_def)

end
