(* ===== verification/Acp.thy ===== *)
theory Acp
  imports Event_Wire Nodes Runtime
begin

text \<open>
  An agent that runs elsewhere (\<open>boitata-acp\<close>, and \<open>boitata-agent/src/main.rs\<close>): the server that
  exposes an agent over the Agent Client Protocol, the client that drives it for one prompt, and
  the events that travel in the protocol's message chunks.

  The protocol and its transport are library code.  The model is what they carry: the requests
  with their answers, and the notifications the client handles before the answer to its prompt
  arrives.  A text is the JSON a codec makes of a value.
\<close>

section \<open>Events as chunks\<close>

record text_codec =
  tx_print :: "json \<Rightarrow> string option"
  tx_parse :: "string \<Rightarrow> json option"

definition encode_event :: "text_codec \<Rightarrow> audit_event \<Rightarrow> string" where
  "encode_event tx e = unwrap_or ''{}'' (tx_print tx (event_json e))"

definition decode_event :: "text_codec \<Rightarrow> string \<Rightarrow> audit_event option" where
  "decode_event tx s = Option.bind (tx_parse tx s) event_of_json"

section \<open>The protocol's messages\<close>

datatype content_block = TextBlock string | OtherBlock

datatype session_update = AgentMessageChunk content_block | OtherUpdate

datatype stop_reason = EndTurn | Refusal | OtherStop

record prompt_response =
  pr_stop_reason :: stop_reason
  pr_meta_message :: "json option"

section \<open>The server\<close>

text \<open>
  A runner: what it does for a prompt, given the number of events after which it is cancelled
  (\<open>None\<close>: it is not), as the events it records and how it ends.
\<close>

datatype run_end = RunOk agent_outcome | RunErr string | RunPanicked

type_synonym runner = "string \<Rightarrow> nat option \<Rightarrow> audit_event list \<times> run_end"

fun blocks_to_text :: "content_block list \<Rightarrow> string" where
  "blocks_to_text [] = []"
| "blocks_to_text (TextBlock t # bs) = t @ blocks_to_text bs"
| "blocks_to_text (OtherBlock # bs) = blocks_to_text bs"

fun turn_end :: "run_end \<Rightarrow> stop_reason \<times> string option" where
  "turn_end (RunOk oc) = (if ao_success oc then EndTurn else Refusal, ao_message oc)"
| "turn_end (RunErr e) = (Refusal, Some e)"
| "turn_end RunPanicked = (Refusal, None)"

definition turn_response :: "run_end \<Rightarrow> prompt_response" where
  "turn_response fin =
     (case turn_end fin of (stop, message) \<Rightarrow>
        \<lparr>pr_stop_reason = stop, pr_meta_message = map_option JStr message\<rparr>)"

text \<open>
  One turn: each event becomes a chunk; the first that cannot be sent cancels the run.  \<open>sends\<close>
  says which of the sends succeed.
\<close>

definition run_prompt_turn ::
    "text_codec \<Rightarrow> runner \<Rightarrow> (nat \<Rightarrow> bool) \<Rightarrow> content_block list \<Rightarrow> session_update list \<times> prompt_response" where
  "run_prompt_turn tx runner sends prompt =
     (let text = blocks_to_text prompt;
          (events, fin) = runner text None;
          chunk = (\<lambda>e. AgentMessageChunk (TextBlock (encode_event tx e)))
      in case List.find (\<lambda>n. \<not> sends n) [0..<length events] of
           None \<Rightarrow> (map chunk events, turn_response fin)
         | Some n \<Rightarrow> (map chunk (take n events), turn_response (snd (runner text (Some n)))))"

definition new_session :: "nat \<Rightarrow> string \<times> nat" where
  "new_session counter = (''session-'' @ show_nat counter, Suc counter)"

text \<open>
  The three requests a connection answers.  The counter of the sessions is shared by all
  connections; the version the client asks for is echoed; the chunks of a turn carry the id of the
  session they belong to.
\<close>

datatype acp_request = InitializeRequest nat | NewSessionRequest | PromptRequest string "content_block list"

datatype acp_answer = InitializeAnswer nat | NewSessionAnswer string | PromptAnswer prompt_response

definition handle_request ::
    "text_codec \<Rightarrow> runner \<Rightarrow> (nat \<Rightarrow> bool) \<Rightarrow> acp_request \<Rightarrow> nat \<Rightarrow>
     (string \<times> session_update) list \<times> acp_answer \<times> nat" where
  "handle_request tx runner sends req counter =
     (case req of
        InitializeRequest version \<Rightarrow> ([], InitializeAnswer version, counter)
      | NewSessionRequest \<Rightarrow> (case new_session counter of (i, counter1) \<Rightarrow> ([], NewSessionAnswer i, counter1))
      | PromptRequest session prompt \<Rightarrow>
          (case run_prompt_turn tx runner sends prompt of
             (updates, response) \<Rightarrow> (map (Pair session) updates, PromptAnswer response, counter)))"

fun handle_requests ::
    "text_codec \<Rightarrow> runner \<Rightarrow> (nat \<Rightarrow> bool) \<Rightarrow> acp_request list \<Rightarrow> nat \<Rightarrow>
     ((string \<times> session_update) list \<times> acp_answer) list \<times> nat" where
  "handle_requests tx runner sends [] counter = ([], counter)"
| "handle_requests tx runner sends (req # reqs) counter =
     (case handle_request tx runner sends req counter of
        (updates, ans, counter1) \<Rightarrow>
          (case handle_requests tx runner sends reqs counter1 of
             (rest, counter2) \<Rightarrow> ((updates, ans) # rest, counter2)))"

text \<open>Connections: a bounded number of slots; accepting waits while there is none.\<close>

record acp_server =
  as_slots :: nat
  as_connections :: "nat list"
  as_next :: nat

definition max_connections :: nat where
  "max_connections = 64"

definition new_acp_server :: acp_server where
  "new_acp_server = \<lparr>as_slots = max_connections, as_connections = [], as_next = 0\<rparr>"

definition accept_connection :: "acp_server \<Rightarrow> acp_server option" where
  "accept_connection s =
     (if as_slots s = 0 then None
      else Some (s\<lparr>as_slots := as_slots s - 1, as_connections := as_next s # as_connections s, as_next := Suc (as_next s)\<rparr>))"

definition end_connection :: "nat \<Rightarrow> acp_server \<Rightarrow> acp_server" where
  "end_connection c s =
     (if c \<in> set (as_connections s)
      then s\<lparr>as_slots := Suc (as_slots s), as_connections := removeAll c (as_connections s)\<rparr> else s)"

section \<open>The client\<close>

text \<open>The peer as the client meets it.\<close>

record acp_peer =
  pe_connect :: "string + unit"
  pe_initialize :: "string + unit"
  pe_new_session :: "string + string"
  pe_prompt :: "string \<Rightarrow> content_block list \<Rightarrow> session_update list \<times> (string + prompt_response)"

definition update_event :: "text_codec \<Rightarrow> session_update \<Rightarrow> audit_event option" where
  "update_event tx u =
     (case u of AgentMessageChunk (TextBlock t) \<Rightarrow> decode_event tx t | _ \<Rightarrow> None)"

definition outcome_of_response :: "prompt_response \<Rightarrow> agent_outcome" where
  "outcome_of_response r =
     \<lparr>ao_success = (pr_stop_reason r = EndTurn), ao_message = Option.bind (pr_meta_message r) as_str\<rparr>"

definition drive_prompt ::
    "text_codec \<Rightarrow> acp_peer \<Rightarrow> string \<Rightarrow> string \<Rightarrow> audit_event list \<times> (string + agent_outcome)" where
  "drive_prompt tx peer addr prompt =
     (let failed = (\<lambda>e. ''ACP session error: '' @ e) in
      case pe_connect peer of
        Inl e \<Rightarrow> ([], Inl (''failed to connect to agent at '' @ addr @ '': '' @ e))
      | Inr u \<Rightarrow>
          (case and_then (pe_initialize peer) (\<lambda>u. pe_new_session peer) of
             Inl e \<Rightarrow> ([], Inl (failed e))
           | Inr session \<Rightarrow>
               (case pe_prompt peer session [TextBlock prompt] of
                  (updates, res) \<Rightarrow>
                    (List.map_filter (update_event tx) updates, map_err failed (map_sum id outcome_of_response res)))))"

text \<open>
  Cancellation wins over anything that is ready: \<open>seen\<close> is the number of events forwarded
  before it (\<open>None\<close>: the turn ends first).
\<close>

definition run_prompt ::
    "text_codec \<Rightarrow> acp_peer \<Rightarrow> string \<Rightarrow> string \<Rightarrow> nat option \<Rightarrow> audit_event list \<times> (string + agent_outcome)" where
  "run_prompt tx peer addr prompt seen =
     (case seen of
        None \<Rightarrow> drive_prompt tx peer addr prompt
      | Some n \<Rightarrow>
          (take n (fst (drive_prompt tx peer addr prompt)),
           Inl (''cancelled while driving the agent at '' @ addr)))"

section \<open>The agent behind the server\<close>

record 'w agent_host =
  ah_config :: config
  ah_provider :: provider
  ah_tools :: "'w registry"
  ah_tool_order :: "string list"
  ah_policy :: policy

definition host_agent :: "'w agent_host \<Rightarrow> string \<Rightarrow> 'w agent" where
  "host_agent h default_prompt =
     (let cfg = ah_config h;
          ag = with_audit (with_policy (new_agent (ah_provider h) (ah_tools h) (ah_tool_order h) default_prompt)
            (ah_policy h));
          ag1 = (case cf_system_prompt cfg of Some p \<Rightarrow> with_system_prompt ag p | None \<Rightarrow> ag);
          ag2 = (case cf_max_iterations cfg of Some n \<Rightarrow> with_max_iterations ag1 n | None \<Rightarrow> ag1)
      in case cf_auto_compact_threshold cfg of Some x \<Rightarrow> with_compact_threshold ag2 x | None \<Rightarrow> ag2)"

text \<open>\<open>env\<close> is the agent's environment when the turn is cancelled after so many events.\<close>

definition agent_runner ::
    "'w agent_host \<Rightarrow> string \<Rightarrow> string \<Rightarrow> (nat option \<Rightarrow> 'w env) \<Rightarrow> 'w \<Rightarrow> runner" where
  "agent_runner h default_prompt sum_prompt env w prompt cancelled =
     (case run_with_cancel (host_agent h default_prompt) (env cancelled) sum_prompt (new_task prompt) w of
        (Inl e, r) \<Rightarrow> (rn_events r, RunErr e)
      | (Inr res, r) \<Rightarrow>
          (rn_events r,
           RunOk \<lparr>ao_success = rs_success res, ao_message = or_opt (rs_final_message res) (rs_error res)\<rparr>))"

text \<open>
  \<open>main\<close> of the agent: the configuration, then the parts of the agent, then the address it listens
  at.  The tools' assembly and the listener are what the process is given.
\<close>

definition start_agent ::
    "environment \<Rightarrow> (string \<Rightarrow> string + string) \<Rightarrow> (string \<Rightarrow> string + config) \<Rightarrow>
     (config \<Rightarrow> 'w registry \<times> string list) \<Rightarrow> (string \<Rightarrow> string + string) \<Rightarrow> (string \<Rightarrow> string + unit) \<Rightarrow>
     string option \<Rightarrow> string \<Rightarrow> string + 'w agent_host" where
  "start_agent env read parse tools compile listen config_path addr =
     and_then (load_config read parse (resolve_config_path env config_path)) (\<lambda>c.
     and_then (build_provider env c) (\<lambda>p.
     and_then (build_policy compile c) (\<lambda>policy.
     and_then (map_err (\<lambda>e. ''failed to bind '' @ addr @ '': '' @ e) (listen addr)) (\<lambda>u.
       Inr \<lparr>ah_config = c, ah_provider = provider_facts p, ah_tools = fst (tools c),
            ah_tool_order = snd (tools c), ah_policy = policy\<rparr>))))"

text \<open>The peer a client meets that reaches this server, on a connection that holds.\<close>

definition served_peer :: "text_codec \<Rightarrow> runner \<Rightarrow> nat \<Rightarrow> acp_peer" where
  "served_peer tx runner counter =
     \<lparr>pe_connect = Inr (), pe_initialize = Inr (), pe_new_session = Inr (fst (new_session counter)),
      pe_prompt = (\<lambda>session blocks.
        case run_prompt_turn tx runner (\<lambda>n. True) blocks of (updates, response) \<Rightarrow> (updates, Inr response))\<rparr>"

section \<open>What the link promises\<close>

lemma connections_bounded:
  assumes "as_slots s + length (as_connections s) = max_connections" "distinct (as_connections s)"
    and "\<forall>c \<in> set (as_connections s). c < as_next s"
  shows "accept_connection s = Some s1 \<Longrightarrow> as_slots s1 + length (as_connections s1) = max_connections \<and> distinct (as_connections s1)"
    and "as_slots (end_connection c s) + length (as_connections (end_connection c s)) = max_connections"
proof -
  show "accept_connection s = Some s1 \<Longrightarrow> as_slots s1 + length (as_connections s1) = max_connections \<and> distinct (as_connections s1)"
    using assms by (auto simp: accept_connection_def split: if_splits)
  have "length (as_connections s) = Suc (length (removeAll c (as_connections s)))" if "c \<in> set (as_connections s)"
    using that assms(2) by (auto simp: distinct_remove1_removeAll [symmetric] length_remove1 dest: length_pos_if_in_set)
  with assms show "as_slots (end_connection c s) + length (as_connections (end_connection c s)) = max_connections"
    by (auto simp: end_connection_def)
qed

lemma drive_served:
  assumes "\<And>e. e \<in> set events \<Longrightarrow> Option.bind (tx_print tx (event_json e)) (tx_parse tx) = Some (event_json e)"
    and "runner prompt None = (events, fin)"
  shows "drive_prompt tx (served_peer tx runner counter) addr prompt =
    (events, Inr (outcome_of_response (turn_response fin)))"
proof -
  have reads_back: "decode_event tx (encode_event tx e) = Some e" if "e \<in> set events" for e
    using assms(1) [OF that] by (auto simp: decode_event_def encode_event_def bind_eq_Some_conv)
  have "List.map_filter (update_event tx) (map (\<lambda>e. AgentMessageChunk (TextBlock (encode_event tx e))) es) = es"
    if "set es \<subseteq> set events" for es
    using that by (induction es) (auto simp: List.map_filter_simps update_event_def reads_back)
  moreover have "List.find (\<lambda>n. False) xs = None" for xs :: "nat list"
    by (induction xs) simp_all
  ultimately show ?thesis
    using assms(2) by (simp add: drive_prompt_def served_peer_def run_prompt_turn_def Let_def)
qed

lemma outcome_turn: "outcome_of_response (turn_response (RunOk oc)) = oc"
  by (cases "ao_message oc") (simp_all add: outcome_of_response_def turn_response_def)

text \<open>The sessions a server hands out, on any of its connections, have different ids.\<close>

lemma digit_char_inj: "m < 10 \<Longrightarrow> n < 10 \<Longrightarrow> digit_char m = digit_char n \<Longrightarrow> m = n"
  by (simp add: digit_char_def char_of_eq_iff of_char_of take_bit_eq_mod flip: unsigned_of_nat)

lemma show_nat_inj: "show_nat m = show_nat n \<Longrightarrow> m = n"
proof (induction m arbitrary: n rule: less_induct)
  case (less m)
  have one: "show_nat k = (if k < 10 then [digit_char k] else show_nat (k div 10) @ [digit_char (k mod 10)])" for k
    by (subst show_nat.simps) simp
  from less.prems have "m mod 10 = n mod 10"
    using one [of m] one [of n] digit_char_inj [of "m mod 10" "n mod 10"] by (auto split: if_splits)
  moreover from less have "m div 10 = n div 10"
    using one [of m] one [of n] show_nat_nonempty [symmetric] by (auto split: if_splits)
  ultimately show ?case by (metis mod_mult_div_eq)
qed

fun session_of :: "acp_answer \<Rightarrow> string option" where
  "session_of (NewSessionAnswer i) = Some i"
| "session_of _ = None"

lemma handle_requests_sessions:
  assumes "handle_requests tx runner sends reqs c = (as, c1)"
  shows "c \<le> c1 \<and> List.map_filter (session_of \<circ> snd) as = map (\<lambda>n. ''session-'' @ show_nat n) [c..<c1]"
  using assms
proof (induction reqs arbitrary: c as)
  case (Cons req reqs)
  obtain updates ans c2 where h: "handle_request tx runner sends req c = (updates, ans, c2)"
    by (cases "handle_request tx runner sends req c")
  from Cons.prems h obtain rest where r: "handle_requests tx runner sends reqs c2 = (rest, c1)"
    and as: "as = (updates, ans) # rest" by (auto split: prod.splits)
  from h have "c2 = c \<and> session_of ans = None \<or> c2 = Suc c \<and> session_of ans = Some (''session-'' @ show_nat c)"
    by (auto simp: handle_request_def new_session_def split: acp_request.splits prod.splits)
  with Cons.IH [OF r] as show ?case by (auto simp: List.map_filter_simps upt_conv_Cons)
qed (simp add: List.map_filter_simps)

lemma sessions_distinct:
  "distinct (List.map_filter (session_of \<circ> snd) (fst (handle_requests tx runner sends reqs c)))"
  using handle_requests_sessions [of tx runner sends reqs c]
  by (cases "handle_requests tx runner sends reqs c") (auto simp: distinct_map inj_on_def dest: show_nat_inj)

section \<open>Properties\<close>


text \<open>An agent without iterations, and a text format for the two events it records.\<close>

definition idle_host :: "unit agent_host" where
  "idle_host =
     \<lparr>ah_config = \<lparr>cf_provider = ''openai'', cf_model = ''m'', cf_api_key = None, cf_base_url = None,
        cf_max_tokens = None, cf_max_iterations = Some 0, cf_system_prompt = None, cf_audit_log = None,
        cf_mcp_servers = [], cf_allow_execute_command = None, cf_workspace_root = None, cf_confine_tools = None,
        cf_tool_policy = None, cf_denied_commands = [], cf_auto_compact_threshold = None,
        cf_blueprint_max_steps = None, cf_blueprint_max_retries = None, cf_state_db = None, cf_api_token = None\<rparr>,
      ah_provider = \<lparr>pv_name = ''openai'', pv_model = ''m'', pv_supports_tools = False, pv_max_tokens = 100,
        pv_context_limit = 1000\<rparr>,
      ah_tools = new_registry, ah_tool_order = [], ah_policy = policy_allow_all\<rparr>"

definition idle_events :: "audit_event list" where
  "idle_events =
     [RunStarted ''fix'' ''openai'' ''m'', RunCompleted False 0 (Some ''Max iterations reached'') 0 0]"

definition idle_codec :: text_codec where
  "idle_codec =
     \<lparr>tx_print = (\<lambda>j. Option.bind (jget j ''event'') as_str),
      tx_parse = map_of (map (\<lambda>e. (event_tag e, event_json e)) idle_events)\<rparr>"


text \<open>
  A run that fails outright is a failed turn for the client, where the local node reports an
  error of its own; a node without a message says so in other words.
\<close>

lemma failed_run_is_refusal:
  "outcome_of_response (turn_response (RunErr e)) = \<lparr>ao_success = False, ao_message = Some e\<rparr>"
  by (simp add: outcome_of_response_def turn_response_def)

end
