(* ===== verification/Remote.thy ===== *)
theory Remote
  imports Event_Wire Conversation
begin

text \<open>
  The command line's remote mode (\<open>boitata-cli/src/remote.rs\<close>): schedule a task on a server, follow
  its event stream, print the result and turn the final status into an exit status.

  The server's answers are arguments; every request the client makes is recorded with its
  address, so that the properties can say where it goes and what it carries.
\<close>

section \<open>Requests and answers\<close>

record http_call =
  hc_method :: string
  hc_url :: string
  hc_authorization :: "string option"
  hc_body :: "json option"

text \<open>An answer: its status code as a number and as it prints, and the JSON of its body.\<close>

record http_answer =
  hw_status :: nat
  hw_status_text :: string
  hw_json :: "string + json"

text \<open>
  What the client meets: the answers to its three requests, the frames of the stream (or its
  failure) and the reader of frames and of run ids.
\<close>

record remote_peer =
  rp_schedule :: "string + http_answer"
  rp_events :: "string + http_answer"
  rp_frames :: "(string + string) list"
  rp_detail :: "string + http_answer"
  rp_parse :: "string \<Rightarrow> json option"
  rp_uuid :: "string \<Rightarrow> string + string"

definition authorized :: "string option \<Rightarrow> http_call \<Rightarrow> http_call" where
  "authorized token call =
     (case token of Some t \<Rightarrow> call\<lparr>hc_authorization := Some (''Bearer '' @ t)\<rparr> | None \<Rightarrow> call)"

definition get_call :: "string \<Rightarrow> http_call" where
  "get_call url = \<lparr>hc_method = ''GET'', hc_url = url, hc_authorization = None, hc_body = None\<rparr>"

definition is_success :: "nat \<Rightarrow> bool" where
  "is_success status \<longleftrightarrow> 200 \<le> status \<and> status < 300"

text \<open>\<open>error_for_status\<close>: client and server errors.\<close>

definition error_for_status :: "http_answer \<Rightarrow> string + http_answer" where
  "error_for_status a =
     (if 400 \<le> hw_status a \<and> hw_status a < 600 then Inl (''HTTP status error ('' @ hw_status_text a @ '')'') else Inr a)"

section \<open>Printing\<close>

text \<open>Where character number \<open>n\<close> starts.\<close>

definition char_start :: "nat \<Rightarrow> string \<Rightarrow> nat option" where
  "char_start n s =
     (let starts = filter (\<lambda>i. \<not> cont_byte (s ! i)) [0..<length s]
      in if n < length starts then Some (starts ! n) else None)"

definition truncate_chars :: "string \<Rightarrow> nat \<Rightarrow> string" where
  "truncate_chars s n = (case char_start n s of Some i \<Rightarrow> take i s @ ellipsis | None \<Rightarrow> s)"

definition str_field :: "json \<Rightarrow> string \<Rightarrow> string" where
  "str_field v k = unwrap_or [] (get_str v k)"

definition bool_field :: "json \<Rightarrow> string \<Rightarrow> bool" where
  "bool_field v k = unwrap_or False (Option.bind (jget v k) as_bool)"

text \<open>Numbers print when they fit a signed 64-bit integer.\<close>

definition int_field :: "json \<Rightarrow> string \<Rightarrow> string" where
  "int_field v k =
     (case jget v k of
        Some (JNum (PosInt n)) \<Rightarrow> if n < 2 ^ 63 then show_nat n else []
      | Some (JNum (NegInt i)) \<Rightarrow> show_int i
      | _ \<Rightarrow> [])"

definition sign :: "nat list \<Rightarrow> string" where
  "sign bytes = map char_of bytes"

definition dot :: string where
  "dot = '' '' @ sign [0xC2, 0xB7] @ '' ''"

definition arrow :: string where
  "arrow = '' '' @ sign [0xE2, 0x86, 0x92] @ '' ''"

definition check_mark :: string where
  "check_mark = sign [0xE2, 0x9C, 0x93]"

definition cross_mark :: string where
  "cross_mark = sign [0xE2, 0x9C, 0x97]"

definition format_event :: "string \<Rightarrow> json \<Rightarrow> string" where
  "format_event tag ev =
     (let s = str_field ev; n = int_field ev in
      if tag = ''run_started'' then sign [0xE2, 0x96, 0xB6] @ '' run started'' @ dot @ s ''provider'' @ ''/'' @ s ''model''
      else if tag = ''llm_response'' then
        (let tools = (case Option.bind (jget ev ''tool_calls'') as_array of
               Some a \<Rightarrow> join '', '' (List.map_filter as_str a) | None \<Rightarrow> [])
         in sign [0xF0, 0x9F, 0xA7, 0xA0] @ '' iteration '' @ n ''iteration'' @
            (if tools = [] then [] else dot @ ''tools: '' @ tools))
      else if tag = ''tool_call'' then
        (if bool_field ev ''is_error'' then cross_mark else check_mark) @ '' '' @ s ''name'' @ ''('' @
        truncate_chars (s ''arguments'') 80 @ '')'' @ arrow @ truncate_chars (s ''result'') 160
      else if tag = ''tool_denied'' then sign [0xE2, 0x9B, 0x94] @ '' '' @ s ''name'' @ '' denied'' @ dot @ s ''reason''
      else if tag = ''context_compacted'' then sign [0xF0, 0x9F, 0x97, 0x9C] @ '' context compacted''
      else if tag = ''run_completed'' then
        (if bool_field ev ''success'' then sign [0xE2, 0x96, 0xA0] @ '' run completed'' else cross_mark @ '' run failed'') @
        dot @ n ''iterations'' @ '' iteration(s)''
      else if tag = ''blueprint_started'' then
        sign [0xE2, 0x96, 0xB6] @ '' blueprint '' @ s ''blueprint'' @ dot @ ''entry '' @ s ''entry''
      else if tag = ''node_executed'' then
        sign [0xE2, 0x97, 0x86] @ '' ['' @ s ''node'' @ ''] '' @ s ''kind'' @ arrow @ s ''next'' @ '' ('' @ s ''status'' @ '')'' @
        (if s ''output'' = [] then [] else [CHR 0x0A] @ ''    '' @ truncate_chars (s ''output'') 500)
      else if tag = ''super_step_retried'' then
        sign [0xE2, 0x86, 0xBB] @ '' retry #'' @ n ''attempt'' @ '' at step '' @ n ''step'' @ dot @ s ''error''
      else if tag = ''blueprint_completed'' then
        sign [0xE2, 0x96, 0xA0] @ '' blueprint finished'' @ dot @ n ''steps'' @ '' step(s)'' @ dot @ s ''reason''
      else sign [0xE2, 0x80, 0xA2] @ '' '' @ tag)"

definition result_lines :: "json \<Rightarrow> string list" where
  "result_lines detail =
     (case opt_filter (\<lambda>r. r \<noteq> JNull) (jget detail ''result'') of
        None \<Rightarrow> []
      | Some result \<Rightarrow>
          [''---''] @
          map (\<lambda>call. (if bool_field call ''is_error'' then cross_mark else check_mark) @ '' '' @
                 str_field call ''name'' @ ''('' @ str_field call ''arguments'' @ '')'')
            (unwrap_or [] (Option.bind (jget result ''tool_calls'') as_array)) @
          map (\<lambda>entry. ''['' @ str_field entry ''node'' @ '']'' @ [CHR 0x0A] @ str_field entry ''text'' @ [CHR 0x0A])
            (unwrap_or [] (Option.bind (jget result ''transcript'') as_array)) @
          (case get_str result ''final_message'' of Some m \<Rightarrow> [[CHR 0x0A] @ m] | None \<Rightarrow> []))"

section \<open>Following a run\<close>

definition ends_tail :: "string \<Rightarrow> bool" where
  "ends_tail tag \<longleftrightarrow> tag = ''run_completed'' \<or> tag = ''blueprint_completed''"

text \<open>A frame that is no JSON is skipped; the tail ends at a terminal event or with the stream.\<close>

fun follow :: "(string \<Rightarrow> json option) \<Rightarrow> (string + string) list \<Rightarrow> string list \<times> (string + unit)" where
  "follow parse [] = ([], Inr ())"
| "follow parse (Inl e # frames) = ([], Inl (''event stream error: '' @ e))"
| "follow parse (Inr data # frames) =
     (case parse data of
        None \<Rightarrow> follow parse frames
      | Some ev \<Rightarrow>
          (let tag = str_field ev ''event''; line = format_event tag ev
           in if ends_tail tag then ([line], Inr ())
              else (case follow parse frames of (out, res) \<Rightarrow> (line # out, res))))"

definition exit_status :: "json \<Rightarrow> string + unit" where
  "exit_status detail =
     (let st = unwrap_or JNull (jget detail ''status''); state = str_field st ''state''
      in if state = ''succeeded'' then Inr ()
         else if state = ''cancelled'' then Inl ''run was cancelled''
         else Inl (unwrap_or ''run did not complete successfully'' (get_str st ''error'')))"

record remote_end =
  re_calls :: "http_call list"
  re_out :: "string list"
  re_result :: "string + unit"

definition trim_end_slashes :: "string \<Rightarrow> string" where
  "trim_end_slashes s = rev (dropWhile (\<lambda>c. c = CHR ''/'') (rev s))"

definition schedule_call :: "string \<Rightarrow> string \<Rightarrow> string option \<Rightarrow> http_call" where
  "schedule_call base t blueprint =
     \<lparr>hc_method = ''POST'', hc_url = base @ ''/api/runs'', hc_authorization = None,
      hc_body = Some (JObj [(''task'', JStr t), (''blueprint'', jopt JStr blueprint)])\<rparr>"

text \<open>The id of the scheduled run, checked before it becomes part of an address.\<close>

definition scheduled_id :: "remote_peer \<Rightarrow> string \<Rightarrow> string + string" where
  "scheduled_id peer base =
     and_then (map_err (\<lambda>e. ''failed to reach boitata-server at '' @ base @ '': '' @ e) (rp_schedule peer)) (\<lambda>resp.
     if \<not> is_success (hw_status resp) then
       Inl (''server rejected the task: '' @
         unwrap_or (hw_status_text resp)
           (case hw_json resp of Inl e \<Rightarrow> None | Inr v \<Rightarrow> get_str v ''error''))
     else
       and_then (hw_json resp) (\<lambda>v.
       and_then (ok_or ''server response missing run id'' (get_str v ''id'')) (\<lambda>i.
       map_err (\<lambda>e. ''server returned a malformed run id: '' @ e) (map_sum id (\<lambda>u. i) (rp_uuid peer i)))))"

definition follow_run :: "remote_peer \<Rightarrow> string list \<times> (string + unit)" where
  "follow_run peer =
     (case and_then (map_err (\<lambda>e. ''failed to open event stream: '' @ e) (rp_events peer)) error_for_status of
        Inl e \<Rightarrow> ([], Inl e)
      | Inr resp \<Rightarrow> follow (rp_parse peer) (rp_frames peer))"

definition remote_run ::
    "remote_peer \<Rightarrow> string \<Rightarrow> string \<Rightarrow> string option \<Rightarrow> string option \<Rightarrow> remote_end" where
  "remote_run peer base_url t blueprint token =
     (let base = trim_end_slashes base_url;
          post = authorized token (schedule_call base t blueprint)
      in case scheduled_id peer base of
           Inl e \<Rightarrow> \<lparr>re_calls = [post], re_out = [], re_result = Inl e\<rparr>
         | Inr i \<Rightarrow>
             (let scheduled = ''Scheduled run '' @ i @ '' on '' @ base;
                  events = authorized token (get_call (base @ ''/api/runs/'' @ i @ ''/events''));
                  detail = authorized token (get_call (base @ ''/api/runs/'' @ i))
              in case follow_run peer of
                   (out, Inl e) \<Rightarrow> \<lparr>re_calls = [post, events], re_out = scheduled # out, re_result = Inl e\<rparr>
                 | (out, Inr u) \<Rightarrow>
                     (case and_then (and_then (rp_detail peer) error_for_status) hw_json of
                        Inl e \<Rightarrow> \<lparr>re_calls = [post, events, detail], re_out = scheduled # out, re_result = Inl e\<rparr>
                      | Inr d \<Rightarrow>
                          \<lparr>re_calls = [post, events, detail], re_out = scheduled # out @ result_lines d,
                           re_result = exit_status d\<rparr>)))"

text \<open>On an interrupt, once the run is scheduled.\<close>

definition cancel_call :: "string \<Rightarrow> string \<Rightarrow> string option \<Rightarrow> http_call" where
  "cancel_call base i token =
     authorized token
       \<lparr>hc_method = ''POST'', hc_url = base @ ''/api/runs/'' @ i @ ''/cancel'', hc_authorization = None, hc_body = None\<rparr>"

section \<open>Where the client goes\<close>

definition stays_at :: "remote_peer \<Rightarrow> string \<Rightarrow> string option \<Rightarrow> http_call \<Rightarrow> bool" where
  "stays_at peer base token call \<longleftrightarrow>
     hc_authorization call = map_option (\<lambda>t. ''Bearer '' @ t) token \<and>
     (hc_url call = base @ ''/api/runs'' \<or>
      (\<exists>i u rest. rp_uuid peer i = Inr u \<and> rest \<in> {'''', ''/events'', ''/cancel''} \<and>
         hc_url call = base @ ''/api/runs/'' @ i @ rest))"

lemma authorized_fields [simp]:
  "hc_url (authorized token call) = hc_url call"
  "hc_authorization call = None \<Longrightarrow> hc_authorization (authorized token call) = map_option (\<lambda>t. ''Bearer '' @ t) token"
  by (simp_all add: authorized_def split: option.split)

lemma map_sum_Inr: "map_sum id f r = Inr b \<longleftrightarrow> (\<exists>a. r = Inr a \<and> b = f a)"
  by (cases r) auto

lemma scheduled_id_uuid: "scheduled_id peer base = Inr i \<Longrightarrow> \<exists>u. rp_uuid peer i = Inr u"
  by (auto simp: scheduled_id_def and_then_Inr_iff map_sum_Inr split: if_splits)

section \<open>What the client concludes\<close>

text \<open>
  The tail ends at the completion of the first agent, also within a blueprint that goes on: the
  detail then still says \<open>running\<close>, and the client reports a failure.
\<close>

lemma nested_completion_ends_tail:
  assumes "parse ''1'' = Some (run_event_json \<lparr>re_seq = 0, re_event = BlueprintStarted ''fix'' ''plan''\<rparr>)"
    and "parse ''2'' = Some (run_event_json \<lparr>re_seq = 1, re_event = RunCompleted True 3 None 10 20\<rparr>)"
  shows "follow parse (Inr ''1'' # Inr ''2'' # later) = follow parse [Inr ''1'', Inr ''2'']"
  using assms by (simp add: run_event_json_def ends_tail_def str_field_def get_str_def jget_def Let_def)

lemma running_is_failure:
  "exit_status (JObj [(''status'', JObj [(''state'', JStr ''running'')])]) = Inl ''run did not complete successfully''"
  by (simp add: exit_status_def str_field_def get_str_def jget_def as_str_def)

section \<open>Properties\<close>


end
