(* ===== verification/Cli.thy ===== *)
theory Cli
  imports Library Runtime Executor Remote
begin

text \<open>
  The command line (\<open>boitata-cli/src/main.rs\<close>): what each subcommand assembles, prints and returns.
  What a command reaches outside the program is the record \<open>cli_host\<close>; a result \<open>None\<close> is a
  panic.
\<close>

section \<open>Surroundings\<close>

record ('w, 't) cli_host =
  ch_environment :: environment
  ch_read :: "string \<Rightarrow> string + string"
  ch_parse :: "string \<Rightarrow> string + config"
  ch_tools :: "config \<Rightarrow> 'w registry \<times> string list"
  ch_compile :: "string \<Rightarrow> string + string"
  ch_audit_opens :: "string \<Rightarrow> bool"
  ch_disk :: library_disk
  ch_open :: "string \<Rightarrow> string + store"
  ch_default_prompt :: string
  ch_summary_prompt :: string
  ch_env :: "'w env"
  ch_world :: 'w
  ch_outside :: "'w outside"
  ch_schedule :: "'w schedule"
  ch_store_env :: "'t store_env"
  ch_codec :: state_codec
  ch_run_id :: string
  ch_peer :: "string \<Rightarrow> remote_peer"

type_synonym cli_end = "string list \<times> (string + unit) option"

definition failed :: "string \<Rightarrow> cli_end" where
  "failed e = ([], Some (Inl e))"

definition default_audit_log :: string where
  "default_audit_log = ''boitata-audit.log''"

definition default_state_db :: string where
  "default_state_db = ''boitata.db''"

text \<open>An audit log that does not open is left out: the run goes on without.\<close>

definition open_audit :: "('w, 't) cli_host \<Rightarrow> config \<Rightarrow> bool" where
  "open_audit h c = ch_audit_opens h (unwrap_or default_audit_log (cf_audit_log c))"

definition open_store :: "('w, 't) cli_host \<Rightarrow> config \<Rightarrow> string + store" where
  "open_store h c =
     (let path = unwrap_or default_state_db (cf_state_db c)
      in map_err (\<lambda>e. ''failed to open state database '' @ bt @ path @ bt @ '': '' @ e) (ch_open h path))"

definition cli_config :: "('w, 't) cli_host \<Rightarrow> string option \<Rightarrow> string + config" where
  "cli_config h explicit = load_config (ch_read h) (ch_parse h) (resolve_config_path (ch_environment h) explicit)"

definition cli_setup :: "('w, 't) cli_host \<Rightarrow> string option \<Rightarrow> string + config \<times> provider \<times> policy" where
  "cli_setup h explicit =
     and_then (cli_config h explicit) (\<lambda>c.
     and_then (build_provider (ch_environment h) c) (\<lambda>p.
     and_then (build_policy (ch_compile h) c) (\<lambda>policy.
       Inr (c, provider_facts p, policy))))"

section \<open>One agent\<close>

definition cli_agent :: "('w, 't) cli_host \<Rightarrow> config \<Rightarrow> provider \<Rightarrow> policy \<Rightarrow> 'w agent" where
  "cli_agent h c p policy =
     (let (tools, order) = ch_tools h c;
          ag = with_policy (new_agent p tools order (ch_default_prompt h)) policy;
          ag1 = (if open_audit h c then with_audit ag else ag);
          ag2 = (case cf_system_prompt c of Some s \<Rightarrow> with_system_prompt ag1 s | None \<Rightarrow> ag1);
          ag3 = (case cf_max_iterations c of Some n \<Rightarrow> with_max_iterations ag2 n | None \<Rightarrow> ag2)
      in case cf_auto_compact_threshold c of Some x \<Rightarrow> with_compact_threshold ag3 x | None \<Rightarrow> ag3)"

definition report_task :: "task_result \<Rightarrow> cli_end" where
  "report_task res =
     (let calls = map (\<lambda>call. (if sm_is_error call then cross_mark else check_mark) @ '' '' @ sm_name call @ ''('' @
            sm_arguments call @ '')'') (rs_tool_calls res)
      in if rs_success res
         then (calls @ [''---'', ''Task completed in '' @ show_nat (rs_iterations res) @ '' iteration(s).''] @
               (case rs_final_message res of Some m \<Rightarrow> [[CHR 0x0A] @ m] | None \<Rightarrow> []),
               Some (Inr ()))
         else (calls @ [''---''],
               Some (Inl (''Task did not complete: '' @ unwrap_or ''unknown error'' (rs_error res)))))"

section \<open>Blueprints\<close>

definition build_blueprint_executor ::
    "('w, 't) cli_host \<Rightarrow> config \<Rightarrow> provider \<Rightarrow> policy \<Rightarrow> string \<Rightarrow> ('w, store) executor" where
  "build_blueprint_executor h c p policy run_id =
     (let (tools, order) = ch_tools h c;
          ex = ex_with_run_id
            (ex_with_checkpointer
              (ex_with_env_defaults
                (ex_with_compact_threshold
                  (ex_with_max_iterations
                    (ex_with_system_prompt (ex_with_policy (new_executor p tools order) policy) (cf_system_prompt c))
                    (cf_max_iterations c))
                  (cf_auto_compact_threshold c))
                (provider_env (ch_environment h) c))
              (sqlite_ops (ch_store_env h) (ch_codec h)))
            run_id;
          ex1 = (if open_audit h c then ex_with_audit ex else ex);
          ex2 = (case cf_blueprint_max_steps c of Some n \<Rightarrow> ex_with_max_steps ex1 n | None \<Rightarrow> ex1)
      in ex_with_max_retries ex2 (cf_blueprint_max_retries c))"

definition report_blueprint_state :: "string \<Rightarrow> state \<Rightarrow> cli_end" where
  "report_blueprint_state name s =
     ([''---''] @ map (\<lambda>(node, txt). ''['' @ node @ '']'' @ [CHR 0x0A] @ txt @ [CHR 0x0A]) (transcript s) @
      (if status s = Some Ok then [''Blueprint '' @ bt @ name @ bt @ '' completed.''] else []),
      Some (case status s of
        Some Ok \<Rightarrow> Inr ()
      | Some Failed \<Rightarrow> Inl (''Blueprint '' @ bt @ name @ bt @ '' finished with a failing step'')
      | None \<Rightarrow> Inl (''Blueprint '' @ bt @ name @ bt @ '' finished with no node having run'')))"

fun report_outcome :: "string \<Rightarrow> outcome \<Rightarrow> cli_end" where
  "report_outcome name (OkState s) = report_blueprint_state name s"
| "report_outcome name (ErrRun e) = failed (show_run_error e)"
| "report_outcome name Panicked = ([], None)"

definition cli_run_blueprint ::
    "('w, 't) cli_host \<Rightarrow> string \<Rightarrow> string \<Rightarrow> config \<Rightarrow> provider \<Rightarrow> policy \<Rightarrow> cli_end" where
  "cli_run_blueprint h name t c p policy =
     (case load_blueprint (ch_disk h) name of
        Inl e \<Rightarrow> failed e
      | Inr g \<Rightarrow>
          (case open_store h c of
             Inl e \<Rightarrow> failed e
           | Inr st \<Rightarrow>
               report_outcome name (fst (run_blueprint (build_blueprint_executor h c p policy (ch_run_id h))
                 (ch_outside h) g (ch_schedule h) t st))))"

definition run_task :: "('w, 't) cli_host \<Rightarrow> string \<Rightarrow> string option \<Rightarrow> string option \<Rightarrow> cli_end" where
  "run_task h t config_path blueprint =
     (case cli_setup h config_path of
        Inl e \<Rightarrow> failed e
      | Inr (c, p, policy) \<Rightarrow>
          (case blueprint of
             Some name \<Rightarrow> cli_run_blueprint h name t c p policy
           | None \<Rightarrow>
               (case fst (run_with_cancel (cli_agent h c p policy) (ch_env h) (ch_summary_prompt h) (new_task t)
                        (ch_world h)) of
                  Inl e \<Rightarrow> failed e
                | Inr res \<Rightarrow> report_task res)))"

definition cli_resume_blueprint :: "('w, 't) cli_host \<Rightarrow> string \<Rightarrow> string \<Rightarrow> string option \<Rightarrow> cli_end" where
  "cli_resume_blueprint h run_id path config_path =
     (case cli_setup h config_path of
        Inl e \<Rightarrow> failed e
      | Inr (c, p, policy) \<Rightarrow>
          (case load_blueprint (ch_disk h) path of
             Inl e \<Rightarrow> failed e
           | Inr g \<Rightarrow>
               (case open_store h c of
                  Inl e \<Rightarrow> failed e
                | Inr st \<Rightarrow>
                    report_outcome path (fst (resume_blueprint (build_blueprint_executor h c p policy run_id)
                      (ch_outside h) g (ch_schedule h) st)))))"

section \<open>The table of runs\<close>

definition char_count :: "string \<Rightarrow> nat" where
  "char_count s = length (filter (\<lambda>c. \<not> cont_byte c) s)"

definition truncate_column :: "string \<Rightarrow> nat \<Rightarrow> string" where
  "truncate_column s width =
     (if width = 0 then []
      else if char_count s \<le> width then s
      else (case char_start (width - 1) s of Some i \<Rightarrow> take i s | None \<Rightarrow> s) @ ellipsis)"

definition pad_left :: "nat \<Rightarrow> string \<Rightarrow> string" where
  "pad_left width s = replicate (width - char_count s) (CHR '' '') @ s"

definition pad_right :: "nat \<Rightarrow> string \<Rightarrow> string" where
  "pad_right width s = s @ replicate (width - char_count s) (CHR '' '')"

text \<open>
  The status prints itself by \<open>write_str\<close>, which ignores the width the row asks for: only the
  header's column is padded.
\<close>

definition table_line :: "string \<Rightarrow> string \<Rightarrow> string \<Rightarrow> string \<Rightarrow> string \<Rightarrow> string" where
  "table_line i st step blueprint t =
     pad_right 36 i @ ''  '' @ st @ ''  '' @ pad_left 5 step @ ''  '' @ pad_right 16 blueprint @ ''  '' @ t"

definition list_runs :: "('w, 't) cli_host \<Rightarrow> string option \<Rightarrow> bool \<Rightarrow> cli_end" where
  "list_runs h config_path every =
     (case and_then (cli_config h config_path) (open_store h) of
        Inl e \<Rightarrow> failed e
      | Inr st \<Rightarrow>
          (case fst (list_checkpoints (ch_store_env h) (\<not> every) st) of
             Inl e \<Rightarrow> failed e
           | Inr [] \<Rightarrow> ([''No '' @ (if every then [] else ''resumable '') @ ''runs recorded.''], Some (Inr ()))
           | Inr (r # rs) \<Rightarrow>
               ([table_line ''RUN ID'' (pad_right 9 ''STATUS'') ''STEP'' ''BLUEPRINT'' ''TASK''] @
                map (\<lambda>r. table_line (cr_run_id r) (run_state_as_str (cr_status r)) (show_nat (cr_step r))
                  (truncate_column (cr_blueprint r) 16) (truncate_column (cr_task r) 60)) (r # rs) @
                (if every then [] else [[CHR 0x0A] @ ''Resume one with: boitata resume <RUN ID> --blueprint <path>'']),
                Some (Inr ()))))"

section \<open>The commands\<close>

datatype command =
    CmdRun string "string option" "string option" "string option"
  | CmdResume string string "string option"
  | CmdRuns "string option" bool
  | CmdTaskCreate string
  | CmdTaskList
  | CmdWorkspaceCreate string

text \<open>The token for a remote server: from the configuration, or without one from the environment.\<close>

definition remote_token :: "('w, 't) cli_host \<Rightarrow> string option \<Rightarrow> string option" where
  "remote_token h config_path =
     (case cli_config h config_path of
        Inr c \<Rightarrow> resolve_api_token (ch_environment h) c
      | Inl e \<Rightarrow> opt_filter (\<lambda>t. t \<noteq> []) (map_option trim (ch_environment h ''BOITATA_API_TOKEN'')))"

fun cli_main :: "('w, 't) cli_host \<Rightarrow> command \<Rightarrow> cli_end" where
  "cli_main h (CmdRun t config_path blueprint (Some url)) =
     (let fin = remote_run (ch_peer h url) url t blueprint (remote_token h config_path)
      in (re_out fin, Some (re_result fin)))"
| "cli_main h (CmdRun t config_path blueprint None) = run_task h t config_path blueprint"
| "cli_main h (CmdResume run_id path config_path) = cli_resume_blueprint h run_id path config_path"
| "cli_main h (CmdRuns config_path every) = list_runs h config_path every"
| "cli_main h (CmdTaskCreate d) = ([''Task creation not yet implemented''], Some (Inr ()))"
| "cli_main h CmdTaskList = ([''Task listing not yet implemented''], Some (Inr ()))"
| "cli_main h (CmdWorkspaceCreate path) = ([''Workspace creation not yet implemented''], Some (Inr ()))"

section \<open>Facts\<close>

text \<open>The exit status of a local run is its outcome.\<close>

lemma report_task_status: "snd (report_task res) = Some (Inr ()) \<longleftrightarrow> rs_success res"
  by (simp add: report_task_def Let_def)

lemma report_blueprint_status: "snd (report_blueprint_state name s) = Some (Inr ()) \<longleftrightarrow> status s = Some Ok"
  by (auto simp: report_blueprint_state_def split: option.split status.split)

lemma report_outcome_status:
  "snd (report_outcome name res) = Some (Inr ()) \<longleftrightarrow> (\<exists>s. res = OkState s \<and> status s = Some Ok)"
  by (cases res) (simp_all add: report_blueprint_status failed_def)

text \<open>Rows of runs with different states do not line up.\<close>

lemma status_column_ragged:
  assumes "char_count i = 36" "char_count b = 16"
  shows "length (table_line i (run_state_as_str RsRunning) (show_nat 1) b []) + 2 =
    length (table_line i (run_state_as_str RsSuspended) (show_nat 1) b [])"
  using assms by (simp add: table_line_def pad_right_def)

text \<open>The remote token is trimmed and not empty, with or without a configuration.\<close>

lemma remote_token_trimmed: "remote_token h config_path = Some t \<Longrightarrow> trim t = t \<and> t \<noteq> []"
  by (auto simp: remote_token_def resolve_api_token_def nonblank_def opt_filter_def bind_eq_Some_conv
    split: sum.splits option.splits if_splits)

end
