(* ===== verification/Server_Ends.thy ===== *)
theory Server_Ends
  imports Server_Safety
begin

text \<open>
  How runs of the server end: an outcome that is recorded is final, whatever the server does
  afterwards, and a task that ends, even by a panic, leaves its run with a final status and gives
  its slot back.
\<close>

section \<open>A handle that ended\<close>

definition same_end :: "run_handle \<Rightarrow> run_handle \<Rightarrow> bool" where
  "same_end h h1 \<longleftrightarrow>
     rh_id h1 = rh_id h \<and> rh_status h1 = rh_status h \<and> rh_result h1 = rh_result h \<and>
     (rh_finished h \<longrightarrow> rh_finished h1)"

lemma same_end_refl [simp]: "same_end h h"
  by (simp add: same_end_def)

lemma same_end_trans: "same_end h g \<Longrightarrow> same_end g k \<Longrightarrow> same_end h k"
  by (simp add: same_end_def)

lemma same_end_updates [simp]:
  "same_end h (h\<lparr>rh_cancelled := c\<rparr>)" "same_end h (h\<lparr>rh_channel := k\<rparr>)"
  by (simp_all add: same_end_def)

text \<open>The handle of a run is changed, or the state stays, or a new handle is added.\<close>

definition keeps_end :: "server \<Rightarrow> server \<Rightarrow> bool" where
  "keeps_end s s1 \<longleftrightarrow>
     (\<forall>a h. sv_handles s a = Some h \<longrightarrow> rh_status h \<noteq> SRunning \<longrightarrow>
        (\<exists>h1. sv_handles s1 a = Some h1 \<and> same_end h h1))"

lemma keeps_end_same: "sv_handles s1 = sv_handles s \<Longrightarrow> keeps_end s s1"
  by (simp add: keeps_end_def)

lemma keeps_end_change:
  assumes "\<And>h. sv_handles s a = Some h \<Longrightarrow> rh_status h \<noteq> SRunning \<Longrightarrow> same_end h (f h)"
  shows "keeps_end s (change_handle a f s)"
  using assms by (auto simp: keeps_end_def)

lemma keeps_end_started:
  assumes "server_inv s"
  shows "keeps_end s (started rank h (s\<lparr>sv_store := st\<rparr>))"
proof -
  have "sv_handles s (sv_next s) = None"
    using assms by (force simp: server_inv_def slots_ok_def)
  then show ?thesis by (auto simp: keeps_end_def started_fields)
qed

lemma recorded_when_ended:
  assumes "server_inv s" "j \<in> set (sv_jobs s)" "sv_handles s (jb_handle j) = Some h" "rh_status h \<noteq> SRunning"
  shows "jb_recorded j"
  using assms by (auto simp: server_inv_def handle_ok_def live_job_def)

lemma keeps_end_trans:
  assumes "keeps_end s s1" "keeps_end s1 s2"
  shows "keeps_end s s2"
proof -
  have "\<exists>h2. sv_handles s2 a = Some h2 \<and> same_end h h2"
    if h: "sv_handles s a = Some h" "rh_status h \<noteq> SRunning" for a h
  proof -
    from assms(1) h obtain h1 where h1: "sv_handles s1 a = Some h1" "same_end h h1" by (auto simp: keeps_end_def)
    with h(2) have "rh_status h1 \<noteq> SRunning" by (simp add: same_end_def)
    with assms(2) h1(1) obtain h2 where "sv_handles s2 a = Some h2" "same_end h1 h2" by (auto simp: keeps_end_def)
    with same_end_trans [OF h1(2)] show ?thesis by blast
  qed
  then show ?thesis by (simp add: keeps_end_def)
qed

lemma server_step_keeps_end:
  assumes "server_step rank env s s1" "server_inv s"
  shows "keeps_end s s1"
  using assms(1)
proof cases
  case (Create i t blueprint now)
  with create_run_started [of rank t blueprint i now s] keeps_end_started [OF assms(2), of rank _ "sv_store s"]
  show ?thesis by (auto simp: keeps_end_same)
next
  case (Claim i now)
  then show ?thesis
    by (cases rule: resume_claim_started [of rank env i now s])
      (auto simp: keeps_end_same keeps_end_started [OF assms(2)])
next
  case (Cancel i)
  then show ?thesis by (auto simp: cancel_run_def keeps_end_same intro: keeps_end_change split: option.split)
next
  case (Listing parse_uuid)
  then show ?thesis by (auto simp: list_runs_def Let_def keeps_end_same split: prod.split sum.split)
next
  case (Event j e)
  then show ?thesis by (simp add: job_event_def keeps_end_change)
next
  case (Record j outcome)
  with recorded_when_ended [OF assms(2)] have "keeps_end s (change_handle (jb_handle j) (record_outcome outcome) s)"
    by (intro keeps_end_change) blast
  with Record show ?thesis by (simp add: keeps_end_def record_job_def)
next
  case (End j)
  with recorded_when_ended [OF assms(2)] have "keeps_end s (change_handle (jb_handle j) (drop_guard j) s)"
    by (intro keeps_end_change) (auto simp: same_end_def)
  with End show ?thesis by (simp add: keeps_end_def end_job_def)
next
  case (Stored st)
  then show ?thesis by (simp add: keeps_end_same)
qed

lemma server_steps_keep_end:
  assumes "(server_step rank env)\<^sup>*\<^sup>* s s1" "server_inv s"
  shows "server_inv s1 \<and> keeps_end s s1"
  using assms
proof (induction rule: rtranclp_induct)
  case base
  then show ?case by (simp add: keeps_end_same)
next
  case (step s1 s2)
  then have inv: "server_inv s1" and ends: "keeps_end s s1" by auto
  have "keeps_end s s2"
    by (rule keeps_end_trans [OF ends server_step_keeps_end [OF step.hyps(2) inv]])
  with server_step_inv [OF step.hyps(2) inv] show ?case by simp
qed

section \<open>Draining\<close>

text \<open>Every task ends, in some order.\<close>

definition end_jobs :: "job list \<Rightarrow> server \<Rightarrow> server" where
  "end_jobs js s = foldl (\<lambda>s j. end_job j s) s js"

lemma end_job_others:
  assumes "server_inv s" "j \<in> set (sv_jobs s)"
  shows "set (sv_jobs (end_job j s)) = set (sv_jobs s) - {j}"
proof -
  have "inj_on jb_handle (set (sv_jobs s))"
    using assms(1) by (simp add: server_inv_def slots_ok_def distinct_map)
  with assms(2) show ?thesis by (auto simp: end_job_def inj_on_def)
qed

lemma end_jobs_Cons: "end_jobs (j # js) s = end_jobs js (end_job j s)"
  by (simp add: end_jobs_def)

lemma end_jobs_drain:
  "server_inv s \<Longrightarrow> distinct js \<Longrightarrow> set js = set (sv_jobs s) \<Longrightarrow>
     server_inv (end_jobs js s) \<and> sv_jobs (end_jobs js s) = [] \<and> sv_runs (end_jobs js s) = sv_runs s \<and>
     (server_step rank env)\<^sup>*\<^sup>* s (end_jobs js s)"
proof (induction js arbitrary: s)
  case (Cons j js)
  let ?s = "end_job j s"
  have j: "j \<in> set (sv_jobs s)" using Cons.prems(3) by auto
  have "set js = set (sv_jobs ?s)"
    using end_job_others [OF Cons.prems(1) j] Cons.prems(2,3) by auto
  note IH = Cons.IH [OF end_job_inv [OF Cons.prems(1) j] _ this]
  have "server_step rank env s ?s" using j by (rule server_step.End)
  with IH Cons.prems(2) show ?case
    by (auto simp: end_jobs_Cons end_job_def intro: converse_rtranclp_into_rtranclp)
qed (simp add: end_jobs_def)

definition drained_status :: "run_status \<Rightarrow> run_status" where
  "drained_status st = (if st = SRunning then SFailed (Some ''run task panicked'') else st)"

lemma end_job_status:
  assumes "server_inv s" "j \<in> set (sv_jobs s)" "sv_handles s a = Some h"
  shows "\<exists>h1. sv_handles (end_job j s) a = Some h1 \<and> drained_status (rh_status h1) = drained_status (rh_status h)"
proof (cases "a = jb_handle j")
  case True
  have "rh_status h = SRunning" if "\<not> jb_recorded j"
    using assms that True recorded_when_ended by blast
  with assms(3) True show ?thesis by (auto simp: end_job_def drained_status_def)
next
  case False
  with assms(3) show ?thesis by (simp add: end_job_def)
qed

lemma end_jobs_status:
  "server_inv s \<Longrightarrow> distinct js \<Longrightarrow> set js = set (sv_jobs s) \<Longrightarrow> sv_handles s a = Some h \<Longrightarrow>
     \<exists>h1. sv_handles (end_jobs js s) a = Some h1 \<and> drained_status (rh_status h1) = drained_status (rh_status h)"
proof (induction js arbitrary: s h)
  case (Cons j js)
  let ?s = "end_job j s"
  have j: "j \<in> set (sv_jobs s)" using Cons.prems(3) by auto
  have set: "set js = set (sv_jobs ?s)"
    using end_job_others [OF Cons.prems(1) j] Cons.prems(2,3) by auto
  from end_job_status [OF Cons.prems(1) j Cons.prems(4)] obtain h1 where h1: "sv_handles ?s a = Some h1"
    "drained_status (rh_status h1) = drained_status (rh_status h)" by blast
  from Cons.IH [OF end_job_inv [OF Cons.prems(1) j] _ set h1(1)] Cons.prems(2) h1(2)
  show ?case by (simp add: end_jobs_Cons)
qed (simp add: end_jobs_def)

text \<open>A server with one run, and the same with its failure recorded.\<close>

definition one_run :: "store \<Rightarrow> server" where
  "one_run st = snd (create_run (\<lambda>_. 0) ''fix the bug'' None ''r1'' 7 (new_server [] st))"

lemma one_run_reachable: "reachable (\<lambda>_. 0) env [] (one_run st)"
  unfolding one_run_def by (rule reachable.Step [OF reachable.Start server_step.Create]) (simp add: new_server_def)

lemma one_run_fields:
  "sv_jobs (one_run st) = [\<lparr>jb_handle = 0, jb_recorded = False\<rparr>]"
  "sv_handles (one_run st) 0 = Some (new_handle ''r1'' ''fix the bug'' None 7)"
  "get_run (one_run st) ''r1'' = Some (0, new_handle ''r1'' ''fix the bug'' None 7)"
proof -
  have "trim ''fix the bug'' \<noteq> []" by code_simp
  then show "sv_jobs (one_run st) = [\<lparr>jb_handle = 0, jb_recorded = False\<rparr>]"
    "sv_handles (one_run st) 0 = Some (new_handle ''r1'' ''fix the bug'' None 7)"
    "get_run (one_run st) ''r1'' = Some (0, new_handle ''r1'' ''fix the bug'' None 7)"
    by (simp_all add: one_run_def create_run_def register_run_def spawn_job_def new_server_def opt_filter_def
      max_concurrent_runs_def insert_evicting_def new_handle_def get_run_def max_runs_def Let_def)
qed

section \<open>Properties\<close>



text \<open>
  Property C15.  The server drains: in every reachable state the tasks can end, in any order and
  without recording anything; then all sixteen slots are free again, and every run that is
  found has a final status and has fired \<open>finished\<close>, a run that was still running as the failure
  of its task.
\<close>

theorem server_drains:
  assumes "reachable rank env blueprints s" and "distinct js" and "set js = set (sv_jobs s)"
  shows "(server_step rank env)\<^sup>*\<^sup>* s (end_jobs js s) \<and> sv_permits (end_jobs js s) = 16 \<and>
    (\<forall>i a h. get_run s i = Some (a, h) \<longrightarrow>
       (\<exists>h1. get_run (end_jobs js s) i = Some (a, h1) \<and> rh_finished h1 \<and>
          rh_status h1 = (if rh_status h = SRunning then SFailed (Some ''run task panicked'') else rh_status h)))"
proof -
  let ?s = "end_jobs js s"
  have inv: "server_inv s" using assms(1) by (rule reachable_inv)
  note drained = end_jobs_drain [OF inv assms(2,3), of rank env]
  have "\<exists>h1. get_run ?s i = Some (a, h1) \<and> rh_finished h1 \<and> rh_status h1 = drained_status (rh_status h)"
    if "get_run s i = Some (a, h)" for i a h
  proof -
    from that have h: "map_of (sv_runs s) i = Some a" "sv_handles s a = Some h" by (simp_all add: get_run_Some)
    from end_jobs_status [OF inv assms(2,3) h(2)] obtain h1 where h1: "sv_handles ?s a = Some h1"
      "drained_status (rh_status h1) = drained_status (rh_status h)" by blast
    with drained have ok: "handle_ok ?s a h1" by (simp add: server_inv_def)
    with drained have "rh_finished h1" "rh_status h1 \<noteq> SRunning" by (simp_all add: handle_ok_def live_job_def)
    with h(1) h1 drained show ?thesis by (auto simp: get_run_Some drained_status_def)
  qed
  with drained inv_slots [of ?s] show ?thesis
    by (simp add: max_concurrent_runs_def drained_status_def)
qed

theorem server_drains_witness:
  "\<forall>env st. reachable (\<lambda>_. 0) env [] (one_run st) \<and>
     sv_permits (end_jobs (sv_jobs (one_run st)) (one_run st)) = 16 \<and>
     (\<exists>h1. get_run (end_jobs (sv_jobs (one_run st)) (one_run st)) ''r1'' = Some (0, h1) \<and>
        rh_status h1 = SFailed (Some ''run task panicked''))"
proof (intro allI)
  fix env :: "nat store_env" and st
  have "distinct (sv_jobs (one_run st))" by (simp add: one_run_fields)
  from server_drains [OF one_run_reachable [of env] this refl] one_run_fields(3)
  have "\<exists>h1. get_run (end_jobs (sv_jobs (one_run st)) (one_run st)) ''r1'' = Some (0, h1) \<and>
      rh_status h1 = SFailed (Some ''run task panicked'')"
    and "sv_permits (end_jobs (sv_jobs (one_run st)) (one_run st)) = 16"
    by (fastforce simp: new_handle_def)+
  with one_run_reachable [of env st]
  show "reachable (\<lambda>_. 0) env [] (one_run st) \<and>
     sv_permits (end_jobs (sv_jobs (one_run st)) (one_run st)) = 16 \<and>
     (\<exists>h1. get_run (end_jobs (sv_jobs (one_run st)) (one_run st)) ''r1'' = Some (0, h1) \<and>
        rh_status h1 = SFailed (Some ''run task panicked''))" by blast
qed

end
