(* ===== verification/Remote_Server.thy ===== *)
theory Remote_Server
  imports Server_Gate Remote
begin

text \<open>
  The command line's remote mode against the server it is written for: the JSON of the server's
  answers (the derived \<open>Serialize\<close> of \<open>boitata-server/src/state.rs\<close> and the responses of
  \<open>api.rs\<close>), and what the client makes of them.
\<close>

section \<open>The server's answers\<close>

fun status_json :: "run_status \<Rightarrow> json" where
  "status_json SRunning = JObj [(''state'', JStr ''running'')]"
| "status_json SSucceeded = JObj [(''state'', JStr ''succeeded'')]"
| "status_json (SFailed e) = JObj [(''state'', JStr ''failed''), (''error'', jopt JStr e)]"
| "status_json SCancelled = JObj [(''state'', JStr ''cancelled'')]"
| "status_json SSuspended = JObj [(''state'', JStr ''suspended'')]"

definition summary_fields :: "(nat \<Rightarrow> string) \<Rightarrow> run_summary \<Rightarrow> (string \<times> json) list" where
  "summary_fields time s =
     [(''id'', JStr (sy_id s)), (''task'', JStr (sy_task s)), (''blueprint'', jopt JStr (sy_blueprint s)),
      (''status'', status_json (sy_status s)), (''started_at'', JStr (time (sy_started_at s)))]"

definition result_json :: "run_result \<Rightarrow> json" where
  "result_json r =
     JObj [(''success'', JBool (rz_success r)), (''final_message'', jopt JStr (rz_final_message r)),
       (''error'', jopt JStr (rz_error r)), (''iterations'', jopt jnat (rz_iterations r)),
       (''tool_calls'', JArr (map (\<lambda>c. JObj [(''name'', JStr (sm_name c)), (''arguments'', JStr (sm_arguments c)),
          (''result'', JStr (sm_result c)), (''is_error'', JBool (sm_is_error c))]) (rz_tool_calls r))),
       (''transcript'', JArr (map (\<lambda>(node, txt). JObj [(''node'', JStr node), (''text'', JStr txt)]) (rz_transcript r)))]"

definition detail_json :: "(nat \<Rightarrow> string) \<Rightarrow> run_detail \<Rightarrow> json" where
  "detail_json time d =
     JObj (summary_fields time (dt_summary d) @
       [(''result'', jopt result_json (dt_result d)), (''events'', JArr (map run_event_json (dt_events d)))])"

text \<open>\<open>reason\<close> is how the HTTP library prints a status code.\<close>

definition error_answer :: "(nat \<Rightarrow> string) \<Rightarrow> api_error \<Rightarrow> http_answer" where
  "error_answer reason e =
     \<lparr>hw_status = ae_status e, hw_status_text = reason (ae_status e), hw_json = Inr (JObj [(''error'', JStr (ae_message e))])\<rparr>"

definition scheduled_answer :: "(nat \<Rightarrow> string) \<Rightarrow> api_error + string \<Rightarrow> http_answer" where
  "scheduled_answer reason r =
     (case r of
        Inl e \<Rightarrow> error_answer reason e
      | Inr i \<Rightarrow> \<lparr>hw_status = 202, hw_status_text = reason 202, hw_json = Inr (JObj [(''id'', JStr i)])\<rparr>)"

section \<open>Properties\<close>

lemma create_run_status: "fst (create_run rank t blueprint i now s) = Inl e \<Longrightarrow> ae_status e = 400 \<or> ae_status e = 503"
  by (auto simp: create_run_def bad_request_def service_unavailable_def split: option.splits if_splits prod.splits)

lemma resolved_token_trimmed: "resolve_api_token env c = Some t \<Longrightarrow> trim t = t"
  by (auto simp: resolve_api_token_def nonblank_def opt_filter_def bind_eq_Some_conv split: if_splits)

lemma bearer_provided: "provided_token (Some (''Bearer '' @ t)) query = Some (trim t)"
  by (simp add: provided_token_def strip_prefix_def)

lemma exit_of_status:
  "exit_status (detail_json time d) =
     (case sy_status (dt_summary d) of
        SSucceeded \<Rightarrow> Inr ()
      | SCancelled \<Rightarrow> Inl ''run was cancelled''
      | SFailed (Some e) \<Rightarrow> Inl e
      | _ \<Rightarrow> Inl ''run did not complete successfully'')"
  by (cases "sy_status (dt_summary d)")
    (auto simp: exit_status_def detail_json_def summary_fields_def str_field_def get_str_def jget_def jopt_def
      as_str_def Let_def split: option.split)


end
