(* ===== verification/Remote_Local.thy ===== *)
theory Remote_Local
  imports Server_Ends Server_Jobs Cli Remote_Server
begin

text \<open>
  A run on a server against the same run in the process of the command line: what the remote
  client reports in the end is what the local command would have reported.  The two sides share
  the outcome of the agent or of the blueprint; the server records it (\<open>record_outcome\<close> in
  \<open>boitata-server/src/api.rs\<close>), serializes it and the client reads it.
\<close>

section \<open>What the server answers after the end of a task\<close>

text \<open>A task that records its outcome, and a task that panics before it does.\<close>

definition task_end :: "nat \<Rightarrow> (string + run_result) option \<Rightarrow> server \<Rightarrow> server" where
  "task_end a outcome s =
     (case outcome of
        Some r \<Rightarrow> end_job \<lparr>jb_handle = a, jb_recorded = True\<rparr> (record_job a r s)
      | None \<Rightarrow> end_job \<lparr>jb_handle = a, jb_recorded = False\<rparr> s)"

definition remote_status :: "(nat \<Rightarrow> string) \<Rightarrow> string \<Rightarrow> server \<Rightarrow> (string + unit) option" where
  "remote_status time i s =
     (case get_run_detail i s of Inl e \<Rightarrow> None | Inr d \<Rightarrow> Some (exit_status (detail_json time d)))"

lemma task_end_handle:
  assumes "sv_handles s a = Some h"
  shows "sv_handles (task_end a outcome s) a =
    Some (case outcome of
        Some r \<Rightarrow> (record_outcome r h)\<lparr>rh_finished := True\<rparr>
      | None \<Rightarrow> h\<lparr>rh_status := SFailed (Some ''run task panicked''), rh_finished := True\<rparr>)"
  using assms by (simp add: task_end_def end_job_def record_job_def drop_guard_def split: option.split)

lemma task_end_runs [simp]: "sv_runs (task_end a outcome s) = sv_runs s"
  by (simp add: task_end_def end_job_def record_job_def split: option.split)

lemma remote_status_of_end:
  assumes "get_run s i = Some (a, h)"
  shows "remote_status time i (task_end a outcome s) =
    Some (case outcome of
        None \<Rightarrow> Inl ''run task panicked''
      | Some r \<Rightarrow>
          if rh_cancelled h then Inl ''run was cancelled''
          else case r of
                 Inl e \<Rightarrow> Inl e
               | Inr res \<Rightarrow>
                   if rz_success res then Inr ()
                   else Inl (unwrap_or ''run did not complete successfully'' (rz_error res)))"
proof -
  from assms have h: "map_of (sv_runs s) i = Some a" "sv_handles s a = Some h" by (simp_all add: get_run_Some)
  have "get_run (task_end a outcome s) i = Some (a, the (sv_handles (task_end a outcome s) a))"
    using h(1) task_end_handle [OF h(2), of outcome] by (simp add: get_run_Some)
  then show ?thesis
    by (auto simp: remote_status_def get_run_detail_def task_end_handle [OF h(2)] exit_of_status handle_summary_def
      outcome_status_def split: option.split sum.split)
qed

section \<open>Properties\<close>



end
