(* ===== verification/Server_Router.thy ===== *)
theory Server_Router
  imports Server_Jobs
begin

text \<open>
  A request on its way through the server (\<open>router\<close> in \<open>boitata-server/src/api.rs\<close>): the routes of
  the API behind the token gate, the body limit, the extractors of the handlers, and the web
  interface for every other path, which needs no token.

  What the HTTP library decodes is a parameter: a run id as a UUID, a blueprint name with its
  percent signs, whether the content type says JSON, the body of a start request (or the status
  it is rejected with).  A handler
  runs here without another request in between; \<open>Server_Safety\<close> has the interleavings.
\<close>

section \<open>Requests and answers\<close>

record http_request =
  hr_method :: string
  hr_path :: string
  hr_query :: "string option"
  hr_authorization :: "string option"
  hr_json :: bool
  hr_body :: string

record http_library =
  hl_start_run :: "string \<Rightarrow> nat + string \<times> string option"
  hl_uuid :: "string \<Rightarrow> string option"
  hl_decode :: "string \<Rightarrow> string option"
  hl_pretty :: "json \<Rightarrow> string"
  hl_mime :: "string \<Rightarrow> string"
  hl_assets :: "string \<rightharpoonup> string"

datatype answer =
    AError api_error
  | ARejected nat
  | AScheduled string
  | ARuns "run_summary list"
  | ADetail run_detail
  | AStream "run_event list" bool
  | AAccepted nat
  | ANames "string list"
  | AGraph blueprint_graph
  | ASource string string
  | AAsset asset_response

datatype endpoint =
    ECreate
  | EList
  | EGet string
  | EEvents string
  | ECancel string
  | EResume string
  | EBlueprints
  | EBlueprint string
  | ESource string

section \<open>The routes\<close>

fun split_slash :: "string \<Rightarrow> string list" where
  "split_slash [] = [[]]"
| "split_slash (c # cs) =
     (if c = CHR ''/'' then [] # split_slash cs
      else (case split_slash cs of [] \<Rightarrow> [[c]] | p # ps \<Rightarrow> (c # p) # ps))"

text \<open>
  The methods of the route a path matches.  A parameter is one segment that is not empty.
\<close>

definition api_route :: "string \<Rightarrow> (string \<times> endpoint) list option" where
  "api_route path =
     (case split_slash path of
        [e, a, r] \<Rightarrow>
          if e \<noteq> [] \<or> a \<noteq> ''api'' then None
          else if r = ''runs'' then Some [(''POST'', ECreate), (''GET'', EList)]
          else if r = ''blueprints'' then Some [(''GET'', EBlueprints)]
          else None
      | [e, a, r, p] \<Rightarrow>
          if e \<noteq> [] \<or> a \<noteq> ''api'' \<or> p = [] then None
          else if r = ''runs'' then Some [(''GET'', EGet p)]
          else if r = ''blueprints'' then Some [(''GET'', EBlueprint p)]
          else None
      | [e, a, r, p, v] \<Rightarrow>
          if e \<noteq> [] \<or> a \<noteq> ''api'' \<or> p = [] then None
          else if r = ''runs'' \<and> v = ''events'' then Some [(''GET'', EEvents p)]
          else if r = ''runs'' \<and> v = ''cancel'' then Some [(''POST'', ECancel p)]
          else if r = ''runs'' \<and> v = ''resume'' then Some [(''POST'', EResume p)]
          else if r = ''blueprints'' \<and> v = ''source'' then Some [(''GET'', ESource p)]
          else None
      | _ \<Rightarrow> None)"

text \<open>A GET route answers HEAD as well.\<close>

definition method_route :: "string \<Rightarrow> (string \<times> endpoint) list \<Rightarrow> endpoint option" where
  "method_route m methods = map_of methods (if m = ''HEAD'' then ''GET'' else m)"

definition max_body_bytes :: nat where
  "max_body_bytes = 1048576"

section \<open>The handlers\<close>

definition or_error :: "('a \<Rightarrow> answer) \<Rightarrow> api_error + 'a \<Rightarrow> answer" where
  "or_error f r = (case r of Inl e \<Rightarrow> AError e | Inr a \<Rightarrow> f a)"

text \<open>What a handler reads and makes besides the request: the store's clock, the new id, the time.\<close>

record surroundings =
  sr_rank :: "string \<Rightarrow> nat"
  sr_store_env :: "nat store_env"
  sr_disk :: library_disk
  sr_new_id :: string
  sr_now :: nat

definition with_run_id :: "http_library \<Rightarrow> string \<Rightarrow> (string \<Rightarrow> answer \<times> server) \<Rightarrow> server \<Rightarrow> answer \<times> server" where
  "with_run_id lib p k s = (case hl_uuid lib p of None \<Rightarrow> (ARejected 400, s) | Some i \<Rightarrow> k i)"

definition with_name :: "http_library \<Rightarrow> string \<Rightarrow> (string \<Rightarrow> answer) \<Rightarrow> answer" where
  "with_name lib p k = (case hl_decode lib p of None \<Rightarrow> ARejected 400 | Some n \<Rightarrow> k n)"

fun handle_endpoint ::
    "http_library \<Rightarrow> surroundings \<Rightarrow> http_request \<Rightarrow> endpoint \<Rightarrow> server \<Rightarrow> answer \<times> server" where
  "handle_endpoint lib sr req ECreate s =
     (if \<not> hr_json req then (ARejected 415, s)
      else if max_body_bytes < length (hr_body req) then (ARejected 413, s)
      else case hl_start_run lib (hr_body req) of
             Inl code \<Rightarrow> (ARejected code, s)
           | Inr (t, blueprint) \<Rightarrow>
               map_prod (or_error AScheduled) id (create_run (sr_rank sr) t blueprint (sr_new_id sr) (sr_now sr) s))"
| "handle_endpoint lib sr req EList s =
     map_prod ARuns id (list_runs (sr_rank sr) (hl_uuid lib) (sr_store_env sr) s)"
| "handle_endpoint lib sr req (EGet p) s =
     with_run_id lib p (\<lambda>i. (or_error ADetail (get_run_detail i s), s)) s"
| "handle_endpoint lib sr req (EEvents p) s =
     with_run_id lib p (\<lambda>i.
       (or_error (\<lambda>(a, h). AStream (cs_history (rh_channel h)) (rh_finished h)) (ok_or not_found (get_run s i)), s)) s"
| "handle_endpoint lib sr req (ECancel p) s =
     with_run_id lib p (\<lambda>i. map_prod (or_error AAccepted) id (cancel_run i s)) s"
| "handle_endpoint lib sr req (EResume p) s =
     with_run_id lib p (\<lambda>i.
       map_prod (or_error AScheduled) id (resume_run (sr_rank sr) (sr_store_env sr) i (sr_now sr) s s)) s"
| "handle_endpoint lib sr req EBlueprints s = (ANames (list_blueprints s), s)"
| "handle_endpoint lib sr req (EBlueprint p) s =
     (with_name lib p (\<lambda>n. or_error AGraph (get_blueprint s (sr_disk sr) (hl_pretty lib) n)), s)"
| "handle_endpoint lib sr req (ESource p) s =
     (with_name lib p (\<lambda>n. or_error (\<lambda>(n, src). ASource n src) (get_blueprint_source s (sr_disk sr) n)), s)"

section \<open>The router\<close>

text \<open>The gate comes before the choice of the method, and only for paths of the API.\<close>

definition serve_request ::
    "http_library \<Rightarrow> surroundings \<Rightarrow> environment \<Rightarrow> config \<Rightarrow> http_request \<Rightarrow> server \<Rightarrow> answer \<times> server" where
  "serve_request lib sr env c req s =
     (case api_route (hr_path req) of
        None \<Rightarrow> (AAsset (static_handler (hl_assets lib) (hl_mime lib) (hr_path req)), s)
      | Some methods \<Rightarrow>
          (case require_token env c (hr_authorization req) (hr_query req) of
             Inl e \<Rightarrow> (AError e, s)
           | Inr u \<Rightarrow>
               (case method_route (hr_method req) methods of
                  None \<Rightarrow> (ARejected 405, s)
                | Some ep \<Rightarrow> handle_endpoint lib sr req ep s)))"

section \<open>What a request can reach\<close>

lemma with_run_id_state: "(\<And>i. snd (k i) = s) \<Longrightarrow> snd (with_run_id lib p k s) = s"
  by (auto simp: with_run_id_def split: option.split)

lemma list_runs_keeps: "\<exists>st. snd (list_runs rank uuid env s) = s\<lparr>sv_store := st\<rparr>"
  by (auto simp: list_runs_def Let_def split: sum.split prod.split)

text \<open>
  Reading changes no run: a request that is a GET or a HEAD leaves the registry, the handles,
  the tasks and the slots as they are.
\<close>

lemma get_endpoint_cases:
  assumes "api_route path = Some methods" "method_route m methods = Some ep" "m = ''GET'' \<or> m = ''HEAD''"
  shows "\<not> (ep = ECreate \<or> (\<exists>p. ep = ECancel p \<or> ep = EResume p))"
  using assms by (auto simp: api_route_def method_route_def split: list.splits if_splits)

lemma reading_endpoint_keeps:
  assumes "\<not> (ep = ECreate \<or> (\<exists>p. ep = ECancel p \<or> ep = EResume p))"
  shows "\<exists>st. snd (handle_endpoint lib sr req ep s) = s\<lparr>sv_store := st\<rparr>"
proof (cases "ep = EList")
  case True
  with list_runs_keeps [of "sr_rank sr" "hl_uuid lib" "sr_store_env sr" s] show ?thesis
    by (cases "list_runs (sr_rank sr) (hl_uuid lib) (sr_store_env sr) s") simp
next
  case False
  with assms have "snd (handle_endpoint lib sr req ep s) = s\<lparr>sv_store := sv_store s\<rparr>"
    by (cases ep) (simp_all add: with_run_id_state)
  then show ?thesis by blast
qed

lemma get_changes_no_run:
  assumes "hr_method req = ''GET'' \<or> hr_method req = ''HEAD''"
  shows "\<exists>st. snd (serve_request lib sr env c req s) = s\<lparr>sv_store := st\<rparr>"
proof -
  have same: "s = s\<lparr>sv_store := sv_store s\<rparr>" by simp
  show ?thesis
  proof (cases "api_route (hr_path req)")
    case None
    with same show ?thesis by (auto simp: serve_request_def intro: exI [of _ "sv_store s"])
  next
    case (Some methods)
    show ?thesis
    proof (cases "method_route (hr_method req) methods")
      case None
      with Some same show ?thesis
        by (auto simp: serve_request_def intro: exI [of _ "sv_store s"] split: sum.split)
    next
      case (Some ep)
      note ep = get_endpoint_cases [OF \<open>api_route (hr_path req) = Some methods\<close> Some assms]
      from reading_endpoint_keeps [OF ep, of lib sr req s] same \<open>api_route (hr_path req) = Some methods\<close> Some
      show ?thesis by (auto simp: serve_request_def intro: exI [of _ "sv_store s"] split: sum.split)
    qed
  qed
qed

text \<open>Every path of the API is gated, and nothing under another path reaches a handler.\<close>

lemma ungated_is_asset:
  "api_route (hr_path req) = None \<Longrightarrow>
     serve_request lib sr env c req s = (AAsset (static_handler (hl_assets lib) (hl_mime lib) (hr_path req)), s)"
  by (simp add: serve_request_def)

section \<open>Properties\<close>

text \<open>
  Property C13.  A server that started on an address other machines reach does nothing for a
  request without its token: for any request, whatever its method, path and body, whose
  bearer header or query does not hold the configured token, which is not empty, the server's
  state stays as it is, and the answer is the error 401 for a path of the API and a file of
  the embedded web interface for any other; a request that has the token gets the handler of
  its route, or 405 when the route has none for its method.
\<close>

theorem exposed_server_needs_token:
  assumes "start_server su args = Inr (ap, s0)" and "su_bind su (sa_addr args) = Inr False"
  shows "\<exists>t. resolve_api_token (ap_environment ap) (ap_config ap) = Some t \<and> t \<noteq> [] \<and>
    (\<forall>lib sr req s. serve_request lib sr (ap_environment ap) (ap_config ap) req s =
       (case api_route (hr_path req) of
          None \<Rightarrow> (AAsset (static_handler (hl_assets lib) (hl_mime lib) (hr_path req)), s)
        | Some methods \<Rightarrow>
            if provided_token (hr_authorization req) (hr_query req) = Some t
            then case method_route (hr_method req) methods of
                   None \<Rightarrow> (ARejected 405, s)
                 | Some ep \<Rightarrow> handle_endpoint lib sr req ep s
            else (AError unauthorized, s)))"
proof -
  from assms have "exposure_check (su_environment su) (ap_config ap) False (sa_addr args) = Inr ()"
    and env: "ap_environment ap = su_environment su"
    by (auto simp: start_server_def and_then_Inr_iff map_err_Inr_iff Let_def)
  then obtain t where "resolve_api_token (su_environment su) (ap_config ap) = Some t"
    by (auto simp: exposure_check_def Let_def split: if_splits)
  with env resolved_token_nonempty show ?thesis
    by (fastforce simp: serve_request_def require_token_cases split: option.split)
qed

text \<open>A server with a token in its environment, bound to every address.\<close>

definition open_config :: config where
  "open_config =
     \<lparr>cf_provider = ''ollama'', cf_model = ''m'', cf_api_key = None, cf_base_url = None,
      cf_max_tokens = None, cf_max_iterations = None, cf_system_prompt = None, cf_audit_log = None,
      cf_mcp_servers = [], cf_allow_execute_command = None, cf_workspace_root = None, cf_confine_tools = None,
      cf_tool_policy = None, cf_denied_commands = [], cf_auto_compact_threshold = None,
      cf_blueprint_max_steps = None, cf_blueprint_max_retries = None, cf_state_db = None, cf_api_token = None\<rparr>"

definition open_startup :: "unit startup" where
  "open_startup =
     \<lparr>su_environment = token_environment, su_read = Inr, su_parse = (\<lambda>s. Inr open_config),
      su_tools = (\<lambda>c. (new_registry, [])), su_compile = Inr,
      su_disk = \<lparr>ld_is_file = (\<lambda>p. False), ld_read = (\<lambda>p. Inl ''none''), ld_parse = (\<lambda>p. Inl ''none'')\<rparr>,
      su_entries = (\<lambda>d. Inr []), su_open = (\<lambda>p. Inr empty_store), su_bind = (\<lambda>a. Inr False)\<rparr>"

definition open_args :: server_args where
  "open_args = \<lparr>sa_config = None, sa_addr = ''0.0.0.0:8787'', sa_blueprints_dir = None\<rparr>"

definition open_request :: "string \<Rightarrow> string option \<Rightarrow> http_request" where
  "open_request method token =
     \<lparr>hr_method = method, hr_path = ''/api/runs/r1/cancel'', hr_query = None, hr_authorization = token, hr_json = False, hr_body = []\<rparr>"

theorem exposed_server_needs_token_witness:
  "\<exists>ap s0. start_server open_startup open_args = Inr (ap, s0) \<and>
     (\<forall>lib sr.
        serve_request lib sr (ap_environment ap) (ap_config ap) (open_request ''POST'' (Some ''Bearer s3cret'')) s0 =
          handle_endpoint lib sr (open_request ''POST'' (Some ''Bearer s3cret'')) (ECancel ''r1'') s0 \<and>
        serve_request lib sr (ap_environment ap) (ap_config ap) (open_request ''PUT'' (Some ''Bearer s3cret'')) s0 =
          (ARejected 405, s0) \<and>
        serve_request lib sr (ap_environment ap) (ap_config ap) (open_request ''POST'' None) s0 = (AError unauthorized, s0))"
proof -
  have tok: "resolve_api_token token_environment open_config = Some ''s3cret''"
    by (simp add: resolve_api_token_def token_environment_def env_override_def nonblank_def trim_graphic graphic_def)
  obtain ap s0 where run: "start_server open_startup open_args = Inr (ap, s0)"
    and at: "ap_environment ap = token_environment" "ap_config ap = open_config"
    using tok
    by (auto simp: start_server_def open_startup_def open_args_def load_config_def build_policy_def policy_new_def
      build_provider_def resolve_provider_def env_override_def token_environment_def open_config_def offered_def
      exposure_check_def nonblank_def Let_def)
  have bind: "su_bind open_startup (sa_addr open_args) = Inr False"
    by (simp add: open_startup_def)
  have route: "api_route ''/api/runs/r1/cancel'' = Some [(''POST'', ECancel ''r1'')]"
    by (simp add: api_route_def)
  have given: "provided_token (Some ''Bearer s3cret'') None = Some ''s3cret''" "provided_token None None = None"
    by (simp_all add: provided_token_def strip_prefix_def trim_graphic graphic_def)
  from exposed_server_needs_token [OF run bind] tok at
  have "serve_request lib sr (ap_environment ap) (ap_config ap) req s =
       (case api_route (hr_path req) of
          None \<Rightarrow> (AAsset (static_handler (hl_assets lib) (hl_mime lib) (hr_path req)), s)
        | Some methods \<Rightarrow>
            if provided_token (hr_authorization req) (hr_query req) = Some ''s3cret''
            then case method_route (hr_method req) methods of
                   None \<Rightarrow> (ARejected 405, s)
                 | Some ep \<Rightarrow> handle_endpoint lib sr req ep s
            else (AError unauthorized, s))" for lib sr req s
    by auto
  with run show ?thesis
    by (auto simp: open_request_def route given method_route_def simp del: handle_endpoint.simps)
qed

end
