(* ===== verification/Spill.thy ===== *)
theory Spill
  imports Prelude
begin

text \<open>
  The files that keep the whole output of a command (\<open>create_spill\<close> and \<open>cleanup_stale_spills\<close>
  in \<open>boitata-core/src/tools/builtins/exec.rs\<close>), in the temporary directory that other programs
  share.  Times are nanoseconds.  \<open>Capture\<close> takes from here only whether a file was created.
\<close>

section \<open>The temporary directory\<close>

text \<open>
  \<open>tf_modified\<close> is \<open>None\<close> when the metadata cannot be read; \<open>td_listed\<close> gives the entries a listing
  yields (\<open>None\<close>: the directory cannot be read), \<open>td_sweeps\<close> the sweeps started and not yet run.
\<close>

record temp_file =
  tf_modified :: "nat option"
  tf_removable :: bool
  tf_owner_only :: bool

record temp_dir =
  td_files :: "string \<rightharpoonup> temp_file"
  td_listed :: "string list option"
  td_swept :: bool
  td_sweeps :: nat

definition spill_prefix :: string where
  "spill_prefix = ''boitata-cmdout-''"

definition spill_max_age :: nat where
  "spill_max_age = 24 * 60 * 60 * 10 ^ 9"

section \<open>Creating and sweeping\<close>

definition spill_path :: "string \<Rightarrow> string \<Rightarrow> string" where
  "spill_path label uuid = spill_prefix @ label @ ''-'' @ uuid @ ''.log''"

text \<open>The first call of the process starts the sweep; \<open>opens\<close>: the system lets a new file be made.\<close>

definition create_spill :: "string \<Rightarrow> string \<Rightarrow> bool \<Rightarrow> nat \<Rightarrow> temp_dir \<Rightarrow> string option \<times> temp_dir" where
  "create_spill label uuid opens now d =
     (let d1 = (if td_swept d then d else d\<lparr>td_swept := True, td_sweeps := Suc (td_sweeps d)\<rparr>);
          path = spill_path label uuid
      in if opens \<and> td_files d path = None
         then (Some path, d1\<lparr>td_files := (td_files d)(path \<mapsto>
                \<lparr>tf_modified = Some now, tf_removable = True, tf_owner_only = True\<rparr>)\<rparr>)
         else (None, d1))"

definition stale :: "nat \<Rightarrow> temp_file \<Rightarrow> bool" where
  "stale now f \<longleftrightarrow>
     (case tf_modified f of None \<Rightarrow> False | Some t \<Rightarrow> t \<le> now \<and> spill_max_age < now - t)"

definition sweep_entry :: "nat \<Rightarrow> string \<Rightarrow> (string \<rightharpoonup> temp_file) \<Rightarrow> (string \<rightharpoonup> temp_file)" where
  "sweep_entry now name fs =
     (if \<not> prefix spill_prefix name then fs
      else case fs name of
             Some f \<Rightarrow> if stale now f \<and> tf_removable f then fs(name := None) else fs
           | None \<Rightarrow> fs)"

definition cleanup_stale_spills :: "nat \<Rightarrow> temp_dir \<Rightarrow> temp_dir" where
  "cleanup_stale_spills now d =
     (let d1 = d\<lparr>td_sweeps := td_sweeps d - 1\<rparr>
      in case td_listed d of
           None \<Rightarrow> d1
         | Some names \<Rightarrow> d1\<lparr>td_files := fold (sweep_entry now) names (td_files d)\<rparr>)"

section \<open>Facts\<close>

text \<open>A sweep removes nothing but old files of its own; a file is created, never overwritten.\<close>

lemma sweep_entry_keeps:
  "fs name = Some f \<Longrightarrow> \<not> prefix spill_prefix name \<or> \<not> stale now f \<Longrightarrow> sweep_entry now n fs name = Some f"
  by (auto simp: sweep_entry_def split: option.split)

lemma sweep_keeps_others:
  assumes "td_files d name = Some f" "\<not> prefix spill_prefix name \<or> \<not> stale now f"
  shows "td_files (cleanup_stale_spills now d) name = Some f"
proof -
  have "fold (sweep_entry now) names fs name = Some f" if "fs name = Some f" for names fs
    using that by (induction names arbitrary: fs) (simp_all add: sweep_entry_keeps [OF _ assms(2)])
  with assms(1) show ?thesis by (auto simp: cleanup_stale_spills_def Let_def split: option.split)
qed

lemma sweep_adds_nothing: "td_files d name = None \<Longrightarrow> td_files (cleanup_stale_spills now d) name = None"
proof -
  have "fold (sweep_entry now) names fs name = None" if "fs name = None" for names fs
    using that by (induction names arbitrary: fs) (auto simp: sweep_entry_def split: option.split)
  then show "td_files d name = None \<Longrightarrow> td_files (cleanup_stale_spills now d) name = None"
    by (auto simp: cleanup_stale_spills_def Let_def split: option.split)
qed

lemma create_spill_new:
  assumes "create_spill label uuid opens now d = (Some path, d1)"
  shows "prefix spill_prefix path" "td_files d path = None"
    and "td_files d1 = (td_files d)(path \<mapsto> \<lparr>tf_modified = Some now, tf_removable = True, tf_owner_only = True\<rparr>)"
  using assms by (auto simp: create_spill_def spill_path_def Let_def split: if_splits)

lemma create_spill_sweeps_once: "td_swept (snd (create_spill label uuid opens now d))"
  and "td_swept d \<Longrightarrow> td_sweeps (snd (create_spill label uuid opens now d)) = td_sweeps d"
  by (simp_all add: create_spill_def Let_def)

text \<open>A file just created outlives every sweep of the next day.\<close>

lemma fresh_spill_survives:
  assumes "create_spill label uuid opens now d = (Some path, d1)" and "later \<le> now + spill_max_age"
  shows "td_files (cleanup_stale_spills later d1) path \<noteq> None"
proof -
  have "td_files d1 path = Some \<lparr>tf_modified = Some now, tf_removable = True, tf_owner_only = True\<rparr>"
    using create_spill_new(3) [OF assms(1)] by simp
  moreover have "\<not> stale later \<lparr>tf_modified = Some now, tf_removable = True, tf_owner_only = True\<rparr>"
    using assms(2) by (simp add: stale_def) arith
  ultimately show ?thesis by (simp add: sweep_keeps_others)
qed

end
