(* ===== verification/Server_Tasks.thy ===== *)
theory Server_Tasks
  imports Remote_Local Server_Router Executor_Safety
begin

text \<open>
  The background tasks of the server as a whole (\<open>run_job\<close> and \<open>resume_job\<close> in
  \<open>boitata-server/src/api.rs\<close>), and what the user of a restarted server gets: a run that another
  process of the server left unfinished is resumed as if it had not been interrupted.

  A task runs here without a request in between; the events it records on the way reach the
  handle's history, then the outcome is recorded and the guard dropped.
\<close>

section \<open>The tasks\<close>

definition job_done ::
    "nat \<Rightarrow> audit_event list \<Rightarrow> (string + run_result) option \<Rightarrow> store \<Rightarrow> server \<Rightarrow> server" where
  "job_done a events outcome st s =
     task_end a outcome (foldl (\<lambda>s e. job_event a e s) (s\<lparr>sv_store := st\<rparr>) events)"

text \<open>A fresh run: a blueprint when one is named, the agent otherwise.\<close>

definition run_job ::
    "'w app \<Rightarrow> library_disk \<Rightarrow> 't store_env \<Rightarrow> state_codec \<Rightarrow> 'w outside \<Rightarrow> 'w schedule \<Rightarrow> 'w \<Rightarrow>
     nat \<Rightarrow> string \<Rightarrow> string \<Rightarrow> string option \<Rightarrow> server \<Rightarrow> server" where
  "run_job ap d env codec os sd w a i t blueprint s =
     (case blueprint of
        Some name \<Rightarrow>
          (case run_blueprint_job ap s d env codec os sd i name t (sv_store s) of
             (outcome, r) \<Rightarrow> job_done a (xr_events r) outcome (xr_store r) s)
      | None \<Rightarrow>
          (case run_agent_job ap (os_default_prompt os) (os_env os) (os_summary_prompt os) t w of
             (outcome, r) \<Rightarrow> job_done a (rn_events r) (Some outcome) (sv_store s) s))"

definition resume_job ::
    "'w app \<Rightarrow> library_disk \<Rightarrow> 't store_env \<Rightarrow> state_codec \<Rightarrow> 'w outside \<Rightarrow> 'w schedule \<Rightarrow>
     nat \<Rightarrow> string \<Rightarrow> string \<Rightarrow> server \<Rightarrow> server" where
  "resume_job ap d env codec os sd a i name s =
     (case resume_blueprint_job ap s d env codec os sd i name (sv_store s) of
        (outcome, r) \<Rightarrow> job_done a (xr_events r) outcome (xr_store r) s)"

text \<open>The status a task leaves that is not cancelled.\<close>

definition final_status :: "(string + run_result) option \<Rightarrow> run_status" where
  "final_status outcome =
     (case outcome of Some r \<Rightarrow> outcome_status False r | None \<Rightarrow> SFailed (Some ''run task panicked''))"

lemma job_events_handle:
  assumes "sv_handles s a = Some h"
  shows "\<exists>c. sv_handles (foldl (\<lambda>s e. job_event a e s) s es) a = Some (h\<lparr>rh_channel := c\<rparr>)"
  using assms
proof (induction es arbitrary: s h)
  case Nil
  then show ?case by (auto intro: exI [of _ "rh_channel h"])
next
  case (Cons e es)
  have "sv_handles (job_event a e s) a = Some (h\<lparr>rh_channel := channel_record (rh_channel h) e\<rparr>)"
    using Cons.prems by (simp add: job_event_def)
  from Cons.IH [OF this] show ?case by simp
qed

lemma job_done_status:
  assumes "sv_handles s a = Some h" "\<not> rh_cancelled h"
  shows "map_option rh_status (sv_handles (job_done a es outcome st s) a) = Some (final_status outcome)"
proof -
  obtain c where "sv_handles (foldl (\<lambda>s e. job_event a e s) (s\<lparr>sv_store := st\<rparr>) es) a = Some (h\<lparr>rh_channel := c\<rparr>)"
    using job_events_handle [of "s\<lparr>sv_store := st\<rparr>" a h es] assms(1) by auto
  from task_end_handle [OF this, of outcome] assms(2) show ?thesis
    by (simp add: job_done_def final_status_def record_outcome_def Let_def split: option.split sum.split)
qed

section \<open>What the stored row of a run says\<close>

text \<open>The rows of a run name its blueprint and its task.\<close>

definition row_says :: "string \<Rightarrow> string \<Rightarrow> string \<Rightarrow> store \<Rightarrow> bool" where
  "row_says i name t k \<longleftrightarrow>
     list_all (\<lambda>row. rw_run_id row = i \<longrightarrow> rw_blueprint row = name \<and> rw_task row = t) (so_rows k)"

lemma row_says_upsert:
  assumes "row_says i name t k" "cu_run_id cp = i" "cu_blueprint cp = name" "cu_task cp = t"
  shows "row_says i name t (snd (upsert_checkpoint env cp k))"
proof -
  have "list_all P (upsert_rows env cp now rows)"
    if "list_all P rows" "\<And>c. P (upsert_row env c cp now)" for P rows now
    using that by (induction rows) auto
  with assms show ?thesis
    by (auto simp: row_says_def upsert_checkpoint_def store_call_def Let_def upsert_row_def)
qed

lemma row_says_status: "row_says i name t k \<Longrightarrow> row_says i name t (snd (set_checkpoint_status env j st k))"
  by (auto simp: row_says_def set_checkpoint_status_def store_call_def Let_def list_all_iff)

lemma row_says_save:
  assumes "row_says i name t k" "cp_run_id cp = i" "cp_blueprint cp = name" "state.task (cp_state cp) = t"
  shows "row_says i name t (snd (sqlite_save env codec cp k))"
  using assms by (simp add: sqlite_save_def row_says_upsert split: sum.split)

lemma merge_outcomes_task: "state.task (fst (merge_outcomes s us)) = state.task s"
proof -
  have "state.task (fst (foldl merge_one acc us)) = state.task (fst acc)" for acc
    by (induction us arbitrary: acc) (simp_all add: merge_one_def Let_def case_prod_unfold split: option.split status.split)
  then show ?thesis by (simp add: merge_outcomes_def Let_def case_prod_unfold)
qed

lemma run_frontier_task:
  assumes "fst (run_frontier cx g sd step n f s) = FrOk s1 rans"
  shows "state.task s1 = state.task s"
proof -
  have "\<exists>us. merge_outcomes s us = (s1, rans)"
    using assms by (auto simp: run_frontier_def Let_def split: sum.splits if_splits option.splits prod.splits)
  then show ?thesis using merge_outcomes_task by (metis fst_conv)
qed

text \<open>An executor that checkpoints the run \<open>i\<close> of the blueprint \<open>name\<close> keeps the rows so.\<close>

definition checkpoints_as :: "('w, store) executor \<Rightarrow> 't store_env \<Rightarrow> state_codec \<Rightarrow> string \<Rightarrow> string \<Rightarrow> bool" where
  "checkpoints_as ex env codec i name \<longleftrightarrow>
     ex_checkpointer ex = Some (sqlite_ops env codec) \<and> ex_run_id ex = Some i \<and> ex_blueprint_label ex = Some name"

lemma row_says_finish:
  assumes "checkpoints_as ex env codec i name" "row_says i name t (xr_store r)"
  shows "row_says i name t (xr_store (finish ex st n reason r))"
  using assms
  by (simp add: checkpoints_as_def set_run_status_def sqlite_ops_def sqlite_set_status_def row_says_status)

lemma row_says_save_checkpoint:
  assumes "checkpoints_as ex env codec i name" "row_says i name t (xr_store r)" "state.task s = t"
  shows "row_says i name t (xr_store (save_checkpoint ex g step f s r))"
  using assms
  by (simp add: checkpoints_as_def save_checkpoint_def sqlite_ops_def blueprint_label_def row_says_save Let_def)

lemma row_says_try_step:
  assumes ex: "checkpoints_as ex env codec i name" and "row_says i name t (xr_store r)" and "state.task s = t"
  shows "case try_step ex cx g sd step f s n r of (res, r1) \<Rightarrow>
    row_says i name t (xr_store r1) \<and> (\<forall>s1 rans m. res = StDone s1 rans m \<longrightarrow> state.task s1 = t)"
proof (rule try_step_rule [where J = "\<lambda>n r. row_says i name t (xr_store r)" and
      R = "\<lambda>res r1. row_says i name t (xr_store r1) \<and> (\<forall>s1 rans m. res = StDone s1 rans m \<longrightarrow> state.task s1 = t)"],
    goal_cases)
  case (1 n r res ids)
  then show ?case
    using run_frontier_task [of cx g sd step n f s] assms(3)
    by (cases res) (auto simp: Let_def row_says_finish [OF ex] simp del: finish_frame)
qed (rule assms(2))

lemma route_all_store: "xr_store (snd (route_all ex g s step rans nx r)) = xr_store r"
  by (induction rans arbitrary: nx r) (simp_all split: sum.split)

lemma row_says_run_steps:
  assumes ex: "checkpoints_as ex env codec i name" and "row_says i name t (xr_store r)" and "state.task s = t"
  shows "row_says i name t (xr_store (snd (run_steps ex cx g sd step f s r)))"
proof -
  have "case run_steps ex cx g sd step f s r of (res, r1) \<Rightarrow> row_says i name t (xr_store r1)"
  proof (rule run_steps_rule [where I = "\<lambda>step f s r. row_says i name t (xr_store r) \<and> state.task s = t" and
        Q = "\<lambda>res r1. row_says i name t (xr_store r1)"], goal_cases)
    case (1 step f s r)
    let ?r = "save_checkpoint ex g step (sort_dedup f) s r"
    have "row_says i name t (xr_store ?r)" using 1 by (intro row_says_save_checkpoint [OF ex]) auto
    from row_says_try_step [OF ex this, of s cx g sd step "sort_dedup f" 0] 1
    obtain res r2 where t: "try_step ex cx g sd step (sort_dedup f) s 0 ?r = (res, r2)"
      and r2: "row_says i name t (xr_store r2)" and s1: "\<And>s1 rans m. res = StDone s1 rans m \<Longrightarrow> state.task s1 = t"
      by (cases "try_step ex cx g sd step (sort_dedup f) s 0 ?r") auto
    show ?case
    proof (cases res)
      case (StDone s1 rans n)
      obtain out r3 where ro: "route_all ex g s1 step rans [] r2 = (out, r3)"
        by (cases "route_all ex g s1 step rans [] r2")
      then have "row_says i name t (xr_store r3)" using route_all_store [of ex g s1 step rans "[]" r2] r2 by simp
      with s1 [OF StDone] StDone ro t r2 show ?thesis
        by (simp add: row_says_finish [OF ex] del: finish_frame split: sum.split)
    qed (use t r2 in simp_all)
  qed (use assms in \<open>auto simp: row_says_finish [OF ex] simp del: finish_frame\<close>)
  then show ?thesis by (simp add: case_prod_unfold)
qed

lemma row_says_run_blueprint:
  assumes "checkpoints_as ex env codec i name" "row_says i name t k"
  shows "row_says i name t (xr_store (snd (run_blueprint ex os g sd t k)))"
  using row_says_run_steps [OF assms(1), of t] assms(2)
  by (simp add: run_blueprint_def execute_def run_graph_def cleanup_all_def new_xrun_def Let_def case_prod_unfold new_state_def)

section \<open>Resuming on another process\<close>

lemma executor_checkpoints: "checkpoints_as (blueprint_executor ap env codec i name) env codec i name"
  by (simp add: checkpoints_as_def blueprint_executor_def Let_def ex_with_max_retries_def ex_with_blueprint_label_def
    ex_with_run_id_def ex_with_checkpointer_def ex_with_max_steps_def split: option.split)

lemma read_checkpoint_says:
  assumes "read_checkpoint env i (so_rows k) = Inr (Some rec)" "row_says i name t k"
  shows "cr_blueprint rec = name \<and> cr_task rec = t"
  using assms
  by (auto simp: read_checkpoint_def row_says_def list_all_iff row_to_record_def and_then_Inr_iff find_Some_iff
      dest!: nth_mem split: option.splits if_splits)

text \<open>What an accepted resume found in the store, and what it did.\<close>

lemma resume_run_accepted:
  assumes "resume_run rank env i now s s = (Inr j, s1)"
  obtains rec st where "read_checkpoint env i (so_rows (sv_store s)) = Inr (Some rec)" "is_resumable (cr_status rec)"
    "so_rows st = so_rows (sv_store s)" "j = i" "0 < sv_permits s"
    "s1 = started rank (new_handle i (cr_task rec) (Some (cr_blueprint rec)) now) (s\<lparr>sv_store := st\<rparr>)"
proof -
  obtain c st where c: "get_checkpoint env i (sv_store s) = (c, st)" by (cases "get_checkpoint env i (sv_store s)")
  have "resume_claim rank env i now s = (Inr j, s1)"
    using assms by (auto simp: resume_run_def split: sum.splits)
  note claim = this
  with c obtain rec where rec: "c = Inr (Some rec)" by (auto simp: resume_claim_def split: sum.splits option.splits)
  let ?s = "s\<lparr>sv_store := st\<rparr>"
  let ?claimed = "try_register_run rank (new_handle i (cr_task rec) (Some (cr_blueprint rec)) now)
    (?s\<lparr>sv_permits := sv_permits ?s - 1\<rparr>)"
  have ok: "is_resumable (cr_status rec)" "0 < sv_permits s" "?claimed \<noteq> None"
    and last: "(Inr j, s1) = (case the ?claimed of (a, s2) \<Rightarrow> (Inr i, spawn_job a s2))"
    using claim c rec by (auto simp: resume_claim_def Let_def split: option.splits if_splits prod.splits)
  then obtain a s2 where reg: "?claimed = Some (a, s2)" by auto
  have "read_checkpoint env i (so_rows (sv_store s)) = Inr (Some rec)" "so_rows st = so_rows (sv_store s)"
    using get_checkpoint_fst [of env i "sv_store s"] get_checkpoint_rows [of env i "sv_store s"] c rec by simp_all
  then show thesis
    using that ok last reg try_register_started(1) [OF reg] by simp
qed

lemma accepted_resume_found:
  assumes "server_inv s" "resume_run rank env i now s s = (Inr j, s1)"
    "s1 = started rank (new_handle i t b now) (s\<lparr>sv_store := st\<rparr>)"
  shows "get_run s1 i = Some (sv_next s, new_handle i t b now) \<and>
    \<lparr>jb_handle = sv_next s, jb_recorded = False\<rparr> \<in> set (sv_jobs s1)"
proof -
  have inv: "server_inv s1"
    using resume_claim_inv [OF assms(1), of rank env i now] assms(2)
    by (auto simp: resume_run_def split: sum.splits)
  have "\<lparr>jb_handle = sv_next s, jb_recorded = False\<rparr> \<in> set (sv_jobs s1)"
    "sv_handles s1 (sv_next s) = Some (new_handle i t b now)"
    by (simp_all add: assms(3) started_fields)
  moreover from this(1) have "live_job s1 (sv_next s)" by (force simp: live_job_def)
  then obtain h where "get_run s1 (rh_id h) = Some (sv_next s, h)" using inv_live_found [OF inv] by blast
  ultimately show ?thesis by (auto simp: get_run_Some)
qed

text \<open>A load that the disk does not refuse reads what the rows say.\<close>

lemma sqlite_load_reads:
  assumes "\<not> se_fault env (so_tick k)" "sqlite_stored env codec k i = Inr l"
  shows "\<exists>k1. sqlite_load env codec i k = (Inr l, k1)"
  using assms
  by (auto simp: sqlite_load_def sqlite_stored_def get_checkpoint_def store_call_def Let_def and_then_def
      split: sum.splits)

text \<open>
  What the rows of an interrupted run hold, and how a resume from any store with these rows ends.
\<close>

lemma interrupted_run:
  fixes ex :: "('w, store) executor"
  assumes ex: "checkpoints_as ex env codec i name"
    and st: "table_inv env st" "sqlite_stored env codec st i = Inr None"
    and run: "run_blueprint ex os g sd t st = (res, r)"
    and saved: "list_all (sqlite_storable env codec) (xr_saved r)"
    and rows: "so_rows k = so_rows (xr_store r)" "\<not> se_fault env (so_tick k)"
    and rec: "read_checkpoint env i (so_rows k) = Inr (Some rec)" "is_resumable (cr_status rec)"
  shows "cr_blueprint rec = name \<and> cr_task rec = t \<and>
    (\<exists>cp \<in> set (xr_saved r). fst (resume_blueprint ex os g sd' k) =
       fst (run_blueprint ex os g (splice_schedules (cp_step cp) sd sd') t st))"
proof -
  have cfg: "ex_checkpointer ex = Some (sqlite_ops env codec)" "ex_run_id ex = Some i"
    using ex by (simp_all add: checkpoints_as_def)
  have "find (\<lambda>row. rw_run_id row = i) (so_rows st) = None"
    using st(2) by (auto simp: sqlite_stored_def read_checkpoint_def loaded_of_def and_then_def map_err_def
      split: option.splits sum.splits)
  then have "row_says i name t st" by (auto simp: row_says_def list_all_iff find_None_iff)
  then have "row_says i name t (xr_store r)"
    using row_says_run_blueprint [OF ex, of t st os g sd] run by simp
  then have says: "row_says i name t k" using rows(1) by (simp add: row_says_def)
  have same: "sqlite_stored env codec k i = sqlite_stored env codec (xr_store r) i"
    using rows(1) by (simp add: sqlite_stored_def)
  note tracked = sqlite.tracks_run_blueprint [OF cfg st run saved]
  obtain l where l: "sqlite_stored env codec k i = Inr (Some l)" "ld_resumable l"
    using tracked rec unfolding sqlite.tracks_def same [symmetric]
    by (auto simp: sqlite_stored_def loaded_of_def record_to_checkpoint_def and_then_def map_err_def split: sum.splits)
  then have "ld_checkpoint l \<in> set (xr_saved r)"
    using tracked same by (simp add: sqlite.tracks_def sqlite.held_def)
  moreover obtain k1 where "load_run ex k = (Inr l, k1)"
    using sqlite_load_reads [OF rows(2) l(1)] cfg by (auto simp: load_run_def sqlite_ops_def)
  then have "fst (resume_blueprint ex os g sd' k) =
      fst (run_blueprint ex os g (splice_schedules (cp_step (ld_checkpoint l)) sd sd') t st)"
    by (rule sqlite.resume_completes_from [OF cfg st run saved same _ l(2)])
  ultimately show ?thesis using read_checkpoint_says [OF rec(1) says] by blast
qed

lemma started_catalog [simp]: "sv_blueprints (started rank h s) = sv_blueprints s"
  by (simp add: started_def register_run_def spawn_job_def Let_def)

lemma server_step_catalog: "server_step rank env s s1 \<Longrightarrow> sv_blueprints s1 = sv_blueprints s"
proof (induction rule: server_step.induct)
  case (Create s i t blueprint now)
  then show ?case using create_run_started [of rank t blueprint i now s] by auto
next
  case (Claim s i now)
  then show ?case by (cases rule: resume_claim_started [of rank env i now s]) simp_all
next
  case (Listing s parse_uuid)
  then show ?case by (auto simp: Server_Api.list_runs_def Let_def split: sum.split prod.split)
qed (auto simp: record_job_def end_job_def job_event_def change_handle_def cancel_run_def split: option.split)

lemma reachable_catalog: "reachable rank env bs s \<Longrightarrow> sv_blueprints s = bs"
  by (induction rule: reachable.induct) (simp_all add: new_server_def server_step_catalog)

section \<open>Properties\<close>


text \<open>A run cancelled in its first super-step, and the next process of the server.\<close>

definition restart_blueprint :: blueprint_def where
  "restart_blueprint =
     \<lparr>bd_name = ''g'', bd_entry = ''start'', bd_nodes = [(''start'', DScript ''make'')], bd_edges = []\<rparr>"

definition restart_disk :: library_disk where
  "restart_disk = \<lparr>ld_is_file = (\<lambda>p. True), ld_read = (\<lambda>p. Inr []), ld_parse = (\<lambda>s. Inr restart_blueprint)\<rparr>"

definition restart_app :: "unit app" where
  "restart_app = \<lparr>ap_config = open_config, ap_environment = Map.empty, ap_provider = sample_provider,
     ap_tools = Map.empty, ap_tool_order = [], ap_policy = policy_allow_all\<rparr>"

definition restart_catalog :: "(string \<times> string) list" where
  "restart_catalog = [(''b'', ''b.yaml'')]"

definition cut_off :: "(string + run_result) option \<times> store xrun" where
  "cut_off = run_blueprint_job restart_app (new_server restart_catalog empty_store) restart_disk sample_env sample_codec
     sample_outside (quiet_schedule True) ''r'' ''b'' ''t'' empty_store"

definition next_process :: server where
  "next_process = new_server restart_catalog (xr_store (snd cut_off))"

lemma restart_graph:
  "and_then (resolve_blueprint_path (new_server restart_catalog st) ''b'') (load_blueprint restart_disk) =
     Inr sample_graph"
  by (simp add: resolve_blueprint_path_def new_server_def restart_catalog_def load_blueprint_def restart_disk_def
    restart_blueprint_def ok_or_def into_graph_def add_node_def gb_node_def new_builder_def add_edges_def source_order_def
    gb_build_def dedup_names_def sample_graph_def)

lemma restart_executor:
  "blueprint_executor restart_app sample_env sample_codec ''r'' ''b'' =
     sample_executor\<lparr>ex_blueprint_label := Some ''b'',
       ex_env_defaults := provider_env Map.empty open_config\<rparr>"
  by (simp add: blueprint_executor_def restart_app_def sample_executor_def new_executor_def open_config_def Let_def
    ex_with_max_retries_def ex_with_blueprint_label_def ex_with_run_id_def ex_with_checkpointer_def ex_with_audit_def
    ex_with_env_defaults_def ex_with_compact_threshold_def ex_with_max_iterations_def ex_with_system_prompt_def
    ex_with_policy_def policy_allow_all_def)

lemmas store_eval = sqlite_save_def sqlite_load_def sqlite_set_status_def upsert_checkpoint_def
  set_checkpoint_status_def get_checkpoint_def read_checkpoint_def store_call_def row_to_record_def
  upsert_row_def loaded_of_def record_to_checkpoint_def is_resumable_def run_state_from_str_def
  sample_env_def sample_codec_def empty_store_def new_state_def

lemma cut_off_record:
  "xr_saved (snd cut_off) =
     [\<lparr>cp_run_id = ''r'', cp_blueprint = ''b'', cp_step = 0, cp_frontier = [''start''], cp_state = new_state ''t''\<rparr>]"
  "so_rows (xr_store (snd cut_off)) =
     [\<lparr>rw_run_id = ''r'', rw_blueprint = ''b'', rw_task = ''t'', rw_step = 0, rw_frontier = ''start'', rw_state = ''t'',
       rw_status = ''suspended'', rw_created_at = [], rw_updated_at = ''0''\<rparr>]"
proof -
  have "snd cut_off = snd (run_blueprint (sample_executor\<lparr>ex_blueprint_label := Some ''b'',
      ex_env_defaults := provider_env Map.empty open_config\<rparr>) sample_outside sample_graph (quiet_schedule True) ''t'' empty_store)"
    by (simp add: cut_off_def run_blueprint_job_def restart_graph restart_executor case_prod_unfold)
  then show "xr_saved (snd cut_off) =
     [\<lparr>cp_run_id = ''r'', cp_blueprint = ''b'', cp_step = 0, cp_frontier = [''start''], cp_state = new_state ''t''\<rparr>]"
    "so_rows (xr_store (snd cut_off)) =
     [\<lparr>rw_run_id = ''r'', rw_blueprint = ''b'', rw_task = ''t'', rw_step = 0, rw_frontier = ''start'', rw_state = ''t'',
       rw_status = ''suspended'', rw_created_at = [], rw_updated_at = ''0''\<rparr>]"
    by (simp_all add: sample_run_defs store_eval default_max_steps_def map_filter_simps Let_def)
qed

lemma resume_accepted:
  "\<exists>s1. resume_run (\<lambda>_. 0) sample_env ''r'' 7 next_process next_process = (Inr ''r'', s1)"
proof -
  have "fst (resume_run (\<lambda>_. 0) sample_env ''r'' 7 next_process next_process) = Inr ''r''"
    by (simp add: next_process_def resume_run_def resume_check_def resume_claim_def new_server_def get_run_def
      get_checkpoint_def store_call_def read_checkpoint_def cut_off_record row_to_record_def sample_env_def
      run_state_from_str_def is_resumable_def has_blueprint_def restart_catalog_def max_concurrent_runs_def
      try_register_run_def new_handle_def register_run_def Let_def)
  then show ?thesis by (metis prod.collapse)
qed


end
