(* ===== verification/Unit_Yaml.thy ===== *)
theory Unit_Yaml
  imports Yaml
begin

text \<open>
  The unit tests of \<open>boitata-orchestrator/src/yaml.rs\<close> and of the graph builder in \<open>lib.rs\<close>, replayed
  on the model from the parsed definitions on.
\<close>

definition edge :: "string \<Rightarrow> string \<Rightarrow> edge_def" where
  "edge src t = \<lparr>ed_from = src, ed_to = t, ed_when = None\<rparr>"

definition edge_when :: "string \<Rightarrow> string \<Rightarrow> string \<Rightarrow> edge_def" where
  "edge_when src w t = \<lparr>ed_from = src, ed_to = t, ed_when = Some w\<rparr>"

definition blueprint :: "string \<Rightarrow> (string \<times> node_def) list \<Rightarrow> edge_def list \<Rightarrow> blueprint_def" where
  "blueprint entry nodes edges = \<lparr>bd_name = ''t'', bd_entry = entry, bd_nodes = nodes, bd_edges = edges\<rparr>"

definition routes :: "blueprint_def \<Rightarrow> string \<Rightarrow> status option \<Rightarrow> string list option" where
  "routes def n st =
     (case into_graph def of
        Inl e \<Rightarrow> None
      | Inr g \<Rightarrow>
          (case route g n ((new_state [])\<lparr>status := st\<rparr>) of Inl e \<Rightarrow> None | Inr ts \<Rightarrow> Some ts))"

definition load_error :: "blueprint_def \<Rightarrow> string option" where
  "load_error def = (case into_graph def of Inl e \<Rightarrow> Some e | Inr g \<Rightarrow> None)"

definition script_nodes :: "string list \<Rightarrow> (string \<times> node_def) list" where
  "script_nodes names = map (\<lambda>n. (n, DScript ''true'')) names"

definition sample_blueprint :: blueprint_def where
  "sample_blueprint =
     blueprint ''fix''
       [(''fix'', DAgent ''Fix it: {task}'' (Some [''file_read'', ''file_edit''])),
        (''fmt'', DTool ''cargo_fmt'' empty_args), (''verify'', DScript ''cargo check'')]
       [edge ''fix'' ''fmt'', edge ''fmt'' ''verify'', edge_when ''verify'' ''failure'' ''fix'',
        edge_when ''verify'' ''success'' ''END'']"

text \<open>Evaluation: which targets are the end, and the definitions a compilation unfolds.\<close>

lemma short_targets:
  "normalize_target ''END'' = END" "normalize_target ''end'' = END"
  "normalize_target ''fix'' = ''fix''" "normalize_target ''fmt'' = ''fmt''" "normalize_target ''ask'' = ''ask''"
  by code_simp+

lemma other_targets: "length t \<noteq> 3 \<Longrightarrow> normalize_target t = t"
  by (auto simp: normalize_target_def is_end_def eq_ignore_ascii_case_def to_ascii_lowercase_def dest: arg_cong [where f = length])

lemmas compile_defs =
  routes_def load_error_def blueprint_def edge_def edge_when_def script_nodes_def into_graph_def add_node_def
  gb_node_def new_builder_def add_edges_def source_order_def add_group_def add_conditional_def gb_edge_def
  gb_conditional_def gb_build_def dedup_names_def known_target_def route_def route_targets_def status_router_def
  short_targets other_targets END_def new_checkout_def new_agent_sandbox_def

lemma describe_classifies_nodes_and_keeps_edges:
  "let g = describe (\<lambda>j. []) sample_blueprint in
     bg_entry g = ''fix'' \<and>
     map (\<lambda>n. (ni_id n, ni_kind n, ni_execution n, ni_detail n)) (bg_nodes g) =
       [(''fix'', ''agent'', Probabilistic, None), (''fmt'', ''tool'', Deterministic, Some ''cargo_fmt''),
        (''verify'', ''script'', Deterministic, Some ''cargo check'')] \<and>
     map ni_config (bg_nodes g) =
       [[(''prompt'', ''Fix it: {task}''), (''tools'', ''file_read, file_edit'')], [(''tool'', ''cargo_fmt'')],
        [(''run'', ''cargo check'')]] \<and>
     drop 2 (map (\<lambda>e. (ei_from e, ei_when e, ei_to e)) (bg_edges g)) =
       [(''verify'', Some ''failure'', ''fix''), (''verify'', Some ''success'', ''END'')]"
  by code_simp

lemma describe_provision_shows_env_names_only:
  "map ni_config (bg_nodes (describe (\<lambda>j. [])
     (blueprint ''box'' [(''box'', DProvision ''img'' [''ANTHROPIC_API_KEY'', ''OPENAI_API_KEY''])] [edge ''box'' ''END'']))) =
   [[(''image'', ''img''), (''env'', ''ANTHROPIC_API_KEY, OPENAI_API_KEY'')]]"
  by code_simp

lemma parses_and_compiles_a_full_blueprint:
  "routes sample_blueprint ''fix'' None = Some [''fmt'']"
  "routes sample_blueprint ''fmt'' None = Some [''verify'']"
  "routes sample_blueprint ''verify'' (Some Failed) = Some [''fix'']"
  "routes sample_blueprint ''verify'' (Some Ok) = Some [END]"
  by (simp_all add: compile_defs sample_blueprint_def)

lemma parses_human_node_modes:
  "let b = blueprint ''approve''
       [(''approve'', DHuman ''ok? {task}'' ApprovalMode), (''ask'', DHuman ''your name?'' InputMode)]
       [edge_when ''approve'' ''success'' ''ask'', edge_when ''approve'' ''failure'' ''END'', edge ''ask'' ''END'']
   in routes b ''approve'' (Some Ok) = Some [''ask''] \<and> routes b ''approve'' (Some Failed) = Some [END] \<and>
      routes b ''ask'' None = Some [END]"
  by (simp add: compile_defs Let_def)

lemma end_target_is_case_insensitive:
  "routes (blueprint ''a'' [(''a'', DTool ''cargo_fmt'' empty_args)] [edge ''a'' ''end'']) ''a'' None = Some [END]"
  by (simp add: compile_defs Let_def)

lemma node_without_edges_ends_the_run:
  "routes (blueprint ''a'' [(''a'', DTool ''cargo_fmt'' empty_args)] []) ''a'' None = Some [END]"
  by (simp add: compile_defs Let_def)

lemma rejects_unknown_when_value:
  "load_error (blueprint ''a'' (script_nodes [''a'']) [edge_when ''a'' ''maybe'' ''END'']) =
     Some (''edge from '' @ bt @ ''a'' @ bt @ '' has unknown '' @ bt @ ''when: maybe'' @ bt @ '' (use success|failure)'')"
  by (simp add: compile_defs Let_def)

lemma repeated_when_fans_out:
  "routes (blueprint ''a'' (script_nodes [''a'', ''b'', ''c'']) [edge_when ''a'' ''failure'' ''b'', edge_when ''a'' ''failure'' ''c''])
     ''a'' (Some Failed) = Some [''b'', ''c'']"
  by (simp add: compile_defs Let_def)

lemma multiple_unconditional_edges_fan_out:
  "routes (blueprint ''a'' (script_nodes [''a'', ''b'', ''c'']) [edge ''a'' ''b'', edge ''a'' ''c'']) ''a'' None =
     Some [''b'', ''c'']"
  by (simp add: compile_defs Let_def)

lemma mixing_error_wins_over_edge_order:
  "load_error (blueprint ''a'' (script_nodes [''a'', ''b'']) [edge_when ''a'' ''failure'' ''nowhere'', edge ''a'' ''b'']) =
     Some (''node '' @ bt @ ''a'' @ bt @ '' mixes conditional ('' @ bt @ ''when'' @ bt @
       '') and unconditional edges; make them all conditional'')"
  by (simp add: compile_defs Let_def)

lemma rejects_edge_from_unknown_node:
  "load_error (blueprint ''a'' (script_nodes [''a'']) [edge ''ghost'' ''a'']) =
     Some (''edge source '' @ bt @ ''ghost'' @ bt @ '' is not a node'')"
  by (simp add: compile_defs Let_def)

lemma rejects_conditional_target_that_is_not_a_node:
  "load_error (blueprint ''a'' (script_nodes [''a''])
     [edge_when ''a'' ''failure'' ''nowhere'', edge_when ''a'' ''success'' ''END'']) =
     Some (''edge '' @ bt @ ''a'' @ bt @ '' -> '' @ bt @ ''nowhere'' @ bt @ '' (when: failure) targets an unknown node'')"
  by (simp add: compile_defs Let_def)

lemma parses_container_nodes:
  "let b = blueprint ''box''
       [(''box'', DProvision ''rust:latest'' []), (''clone'', DCheckout ''{box}'' ''{task}'' (Some ''main'') None),
        (''test'', DExec ''{box}'' ''cargo test'' (Some ''/workspace''))]
       [edge ''box'' ''clone'', edge_when ''clone'' ''success'' ''test'', edge_when ''clone'' ''failure'' ''END'',
        edge ''test'' ''END'']
   in routes b ''box'' None = Some [''clone''] \<and> routes b ''clone'' (Some Ok) = Some [''test''] \<and>
      routes b ''test'' None = Some [END]"
  by (simp add: compile_defs Let_def)

lemma parses_agent_sandbox_node:
  "let b = blueprint ''box''
       [(''box'', DProvision ''rust'' []), (''agent'', DAgentSandbox ''{box}'' ''{task}'' None None),
        (''other'', DAgentSandbox ''{box}'' ''hi'' (Some 9100) (Some ''/usr/bin/boitata-agent''))]
       [edge ''box'' ''agent'', edge ''agent'' ''other'', edge ''other'' ''END'']
   in routes b ''box'' None = Some [''agent''] \<and> routes b ''agent'' None = Some [''other''] \<and>
      routes b ''other'' None = Some [END]"
  by (simp add: compile_defs Let_def)

section \<open>The builder\<close>

definition true_node :: "string \<Rightarrow> node" where
  "true_node n = ScriptNode n ''true''"

definition build_error :: "graph_builder \<Rightarrow> blueprint_error option" where
  "build_error b = (case gb_build b of Inl e \<Rightarrow> Some e | Inr g \<Rightarrow> None)"

lemma build_rejects_unknown_entry_and_targets:
  "build_error (gb_node (new_builder ''g'' ''missing'') (true_node ''a'')) =
     Some (Invalid (''entry '' @ bt @ ''missing'' @ bt @ '' is not a node''))"
  "build_error (gb_edge (gb_node (new_builder ''g'' ''a'') (true_node ''a'')) ''a'' ''nope'') =
     Some (Invalid (''edge '' @ bt @ ''a'' @ bt @ '' -> '' @ bt @ ''nope'' @ bt @ '' targets an unknown node''))"
  by (simp_all add: compile_defs build_error_def true_node_def sort_dedup_def)

lemma build_rejects_duplicate_node_names:
  "build_error (gb_node (gb_node (new_builder ''g'' ''a'') (true_node ''a'')) (true_node ''a'')) =
     Some (Invalid ''duplicate node name(s): a'')"
  by (simp add: compile_defs build_error_def true_node_def Let_def)

lemma build_rejects_conditional_mixed_with_other_edges:
  "let b = gb_node (new_builder ''g'' ''a'') (true_node ''a'');
       mixed = Some (Invalid ''node(s) with a conditional edge mixed with other edges: a'')
   in build_error (gb_conditional (gb_edge b ''a'' END) ''a'' (\<lambda>s. [END])) = mixed \<and>
      build_error (gb_edge (gb_conditional b ''a'' (\<lambda>s. [END])) ''a'' END) = mixed"
  by (simp add: compile_defs build_error_def true_node_def Let_def)

end
