(* ===== verification/Unit_Executor.thy ===== *)
theory Unit_Executor
  imports Executor_Resume
begin

text \<open>
  The unit tests of the executor in \<open>boitata-orchestrator/src/lib.rs\<close>, replayed on the model.  The
  tests count runs in nodes of their own; here script nodes and human nodes stand for them, the
  world of a node is its super-step, its attempt and its name, and the attempts of the run are
  the counters.
\<close>

section \<open>The setting of the tests\<close>

type_synonym spot = "nat \<times> nat \<times> string"

definition unit_outside :: "(spot \<Rightarrow> int) \<Rightarrow> (spot \<Rightarrow> string option) \<Rightarrow> spot outside" where
  "unit_outside code reply =
     \<lparr>os_default_prompt = [], os_summary_prompt = [],
      os_env = \<lparr>en_complete = (\<lambda>q w. (None, w)), en_cancelled = (\<lambda>w. False), en_bpe = None,
               en_jtext = (\<lambda>j. []), en_is_match = (\<lambda>re c. False)\<rparr>,
      os_getenv = Map.empty,
      os_run_script = (\<lambda>s w. (Inr \<lparr>sr_code = Some (code w), sr_output = ''x''\<rparr>, w)),
      os_human = (\<lambda>p w. (case reply w of None \<Rightarrow> Inl ''no scripted reply (stdin EOF)'' | Some r \<Rightarrow> Inr r, w)),
      os_sandbox = \<lparr>sb_provision = (\<lambda>img es w. (Inl ''failed to pull image'', w)),
                   sb_exec = (\<lambda>b a wd w. (Inl [], w)), sb_endpoint = (\<lambda>b p w. (Inl [], w))\<rparr>,
      os_ready = \<lparr>rd_connect = (\<lambda>a n w. Inr ()), rd_deadline = (\<lambda>w. 0), rd_cancelled = (\<lambda>n w. False),
                 rd_woken = (\<lambda>n w. False)\<rparr>,
      os_acp = (\<lambda>a p w. (Inl [], w))\<rparr>"

definition unit_schedule :: "spot schedule" where
  "unit_schedule =
     \<lparr>sd_world = (\<lambda>k a n. (k, a, n)), sd_rank = (\<lambda>k a n. 0), sd_panics = (\<lambda>k a n. False),
      sd_registered = (\<lambda>k a n. 0), sd_cancelled = (\<lambda>k a. False), sd_woken = (\<lambda>k a. False)\<rparr>"

definition unit_executor :: "(spot, store) executor" where
  "unit_executor = new_executor sample_provider Map.empty []"

definition unit_graph :: "string \<Rightarrow> node list \<Rightarrow> (string \<times> routing) list \<Rightarrow> graph" where
  "unit_graph entry nodes edges =
     \<lparr>gr_name = ''t'', gr_entry = entry, gr_nodes = map_of (map (\<lambda>n. (nd_name n, n)) nodes), gr_edges = map_of edges\<rparr>"

definition unit_run ::
    "(spot, store) executor \<Rightarrow> (spot \<Rightarrow> int) \<Rightarrow> (spot \<Rightarrow> string option) \<Rightarrow> graph \<Rightarrow> outcome \<times> store xrun" where
  "unit_run ex code reply g = run_blueprint ex (unit_outside code reply) g unit_schedule ''task'' empty_store"

definition node :: "string \<Rightarrow> node" where
  "node n = ScriptNode n ''true''"

lemmas unit_defs =
  unit_run_def unit_outside_def unit_schedule_def unit_executor_def unit_graph_def node_def
  new_executor_def sample_provider_def default_max_steps_def
  ex_with_max_retries_def ex_with_max_steps_def ex_with_audit_def ex_with_checkpointer_def ex_with_run_id_def
  run_blueprint_def execute_def run_graph_def run_steps.simps try_step.simps run_frontier_def run_one_def
  script_run_def human_run_def provision_run_def merge_outcomes_def updates_of_def merge_one_def finish_def
  set_run_status_def save_checkpoint_def node_ctx_of_def xemit_def xemits_def failed_node_event_def new_xrun_def
  cleanup_all_def blueprint_label_def from_node_def new_state_def map_filter_simps route_def route_targets_def

section \<open>Running\<close>

lemma runs_nodes_in_order_to_end:
  "let (res, r) = unit_run unit_executor (\<lambda>w. 0) (\<lambda>w. None)
         (unit_graph ''a'' [node ''a'', node ''b''] [(''a'', Static [''b'']), (''b'', Static [END])])
   in (\<exists>s. res = OkState s \<and> transcript s = [(''a'', ''x''), (''b'', ''x'')]) \<and> xr_attempts r = [(0, 0), (1, 0)]"
  by (simp add: unit_defs END_def transcript_def Let_def)

lemma failing_node_output_is_audited:
  "NodeExecuted 1 ''clone'' KindScript NodeFailed ''END'' ''x'' \<in>
     set (xr_events (snd (unit_run (ex_with_audit unit_executor) (\<lambda>w. 128) (\<lambda>w. None)
       (unit_graph ''clone'' [node ''clone''] [(''clone'', Static [END])]))))"
  by (simp add: unit_defs END_def display_routes_def Let_def)

lemma hard_node_error_is_audited:
  "let (res, r) = unit_run (ex_with_audit unit_executor) (\<lambda>w. 0) (\<lambda>w. None)
         (unit_graph ''provision'' [ProvisionNode ''provision'' ''nope:latest'' []] [(''provision'', Static [END])])
   in res = ErrRun (NodeErr ''provision'' KindContainer ''failed to pull image'') \<and>
      NodeExecuted 1 ''provision'' KindContainer NodeFailed ''END''
        (''blueprint node '' @ bt @ ''provision'' @ bt @ '' failed: failed to pull image'') \<in> set (xr_events r)"
  by (simp add: unit_defs END_def display_routes_def Let_def)

definition until_ok :: routing where
  "until_ok = Conditional (\<lambda>s. if status s = Some Failed then [''work''] else [END])"

lemma conditional_edge_loops_then_exits:
  "let (res, r) = unit_run unit_executor (\<lambda>(k, a, n). if n = ''check'' \<and> k < 5 then 1 else 0) (\<lambda>w. None)
         (unit_graph ''work'' [node ''work'', node ''check''] [(''work'', Static [''check'']), (''check'', until_ok)])
   in (\<exists>s. res = OkState s \<and> status s = Some Ok \<and>
         map fst (transcript s) = [''work'', ''check'', ''work'', ''check'', ''work'', ''check'']) \<and>
      length (xr_attempts r) = 6"
  by (simp add: unit_defs END_def until_ok_def transcript_def Let_def)

lemma step_limit_is_enforced:
  "let (res, r) = unit_run (ex_with_max_steps unit_executor 5) (\<lambda>w. 0) (\<lambda>w. None)
         (unit_graph ''a'' [node ''a''] [(''a'', Static [''a''])])
   in res = ErrRun (BlueprintErr (StepLimit 5)) \<and> length (xr_attempts r) = 5"
  by (simp add: unit_defs END_def Let_def)

lemma zero_max_steps_is_a_config_error:
  "let (res, r) = unit_run (ex_with_max_steps unit_executor 0) (\<lambda>w. 0) (\<lambda>w. None)
         (unit_graph ''a'' [node ''a''] [(''a'', Static [END])])
   in res = ErrRun (BlueprintErr (Invalid ''max_steps must be greater than 0'')) \<and> xr_attempts r = []"
  by (simp add: unit_defs Let_def)

lemma script_node_runs_and_routes_on_exit_code:
  "\<exists>s. fst (unit_run unit_executor (\<lambda>(k, a, n). if n = ''check'' then 3 else 0) (\<lambda>w. None)
         (unit_graph ''setup'' [node ''setup'', node ''check'']
           [(''setup'', Static [''check'']), (''check'', Conditional (\<lambda>s. [END]))])) = OkState s \<and>
     status s = Some Failed \<and> vars s ''setup'' = Some ''x''"
  by (simp add: unit_defs END_def Let_def)

lemma frontiers: "sort_dedup [''b'', ''c''] = [''b'', ''c'']" "sort_dedup [''d'', ''d''] = [''d'']"
  by code_simp+

lemma fan_out_and_fan_in_run_each_node_once:
  "let (res, r) = unit_run unit_executor (\<lambda>w. 0) (\<lambda>w. None)
         (unit_graph ''a'' [node ''a'', node ''b'', node ''c'', node ''d'']
           [(''a'', Static [''b'', ''c'']), (''b'', Static [''d'']), (''c'', Static [''d'']), (''d'', Static [END])])
   in (\<exists>s. res = OkState s \<and> map fst (transcript s) = [''a'', ''b'', ''c'', ''d'']) \<and> length (xr_attempts r) = 3"
  by (simp add: unit_defs END_def transcript_def frontiers Let_def)

section \<open>Retries\<close>

text \<open>A node that ends in a hard error on its first attempts.\<close>

definition flaky_reply :: "nat \<Rightarrow> spot \<Rightarrow> string option" where
  "flaky_reply fail_times w = (case w of (k, a, n) \<Rightarrow> if a < fail_times then None else Some ''recovered'')"

definition flaky_graph :: graph where
  "flaky_graph = unit_graph ''flaky'' [HumanNode ''flaky'' ''?'' InputMode] [(''flaky'', Static [END])]"

lemma retry_recovers_after_transient_errors:
  "let (res, r) = unit_run (ex_with_max_retries unit_executor (Some 2)) (\<lambda>w. 0) (flaky_reply 2) flaky_graph
   in (\<exists>s. res = OkState s \<and> transcript s = [(''flaky'', ''recovered'')] \<and> status s = Some Ok) \<and>
      xr_attempts r = [(0, 0), (0, 1), (0, 2)]"
  by (simp add: unit_defs END_def flaky_graph_def flaky_reply_def transcript_def Let_def)

lemma retry_exhausted_fails_the_run:
  "let (res, r) = unit_run (ex_with_max_retries unit_executor (Some 2)) (\<lambda>w. 0) (flaky_reply 5) flaky_graph
   in res = ErrRun (NodeErr ''flaky'' KindHuman ''no scripted reply (stdin EOF)'') \<and> length (xr_attempts r) = 3"
  by (simp add: unit_defs END_def flaky_graph_def flaky_reply_def Let_def)

section \<open>Asking a human\<close>

definition approval_graph :: graph where
  "approval_graph =
     unit_graph ''approve'' [HumanNode ''approve'' ''proceed? {task}'' ApprovalMode, node ''work'']
       [(''approve'', Conditional (\<lambda>s. if status s = Some Failed then [END] else [''work''])), (''work'', Static [END])]"

lemma affirmatives: "is_affirmative ''yes''" "\<not> is_affirmative ''n''"
proof -
  have "to_ascii_lowercase ''yes'' = ''yes''" "to_ascii_lowercase ''n'' = ''n''"
    by code_simp+
  then show "is_affirmative ''yes''" "\<not> is_affirmative ''n''"
    by (simp_all add: is_affirmative_def trim_graphic graphic_def)
qed

lemma human_approval_yes_proceeds:
  "\<exists>s. fst (unit_run unit_executor (\<lambda>w. 0) (\<lambda>w. Some ''yes'') approval_graph) = OkState s \<and>
     vars s ''approve'' = Some ''approved'' \<and> vars s ''work'' \<noteq> None"
  by (simp add: unit_defs END_def approval_graph_def affirmatives Let_def)

lemma human_approval_no_aborts:
  "\<exists>s. fst (unit_run unit_executor (\<lambda>w. 0) (\<lambda>w. Some ''n'') approval_graph) = OkState s \<and>
     vars s ''approve'' = Some ''declined'' \<and> vars s ''work'' = None \<and> status s = Some Failed"
  by (simp add: unit_defs END_def approval_graph_def affirmatives Let_def)

lemma human_input_captures_reply:
  "\<exists>s. fst (unit_run unit_executor (\<lambda>w. 0) (\<lambda>w. Some ''Ada'')
         (unit_graph ''ask'' [HumanNode ''ask'' ''your name?'' InputMode] [(''ask'', Static [END])])) = OkState s \<and>
     vars s ''ask'' = Some ''Ada'' \<and> status s = Some Ok"
  by (simp add: unit_defs END_def Let_def)

lemma human_input_unavailable_is_a_hard_error:
  "fst (unit_run unit_executor (\<lambda>w. 0) (\<lambda>w. None) approval_graph) =
     ErrRun (NodeErr ''approve'' KindHuman ''no scripted reply (stdin EOF)'')"
  by (simp add: unit_defs END_def approval_graph_def Let_def)

section \<open>Checkpoints\<close>

text \<open>The state after the first node, and a codec for it and for the fresh state.\<close>

definition after_a :: state where
  "after_a = apply_update (new_state ''task'') (from_node ''a'' ''x'' Ok)"

definition unit_codec :: state_codec where
  "unit_codec =
     \<lparr>sc_put = (\<lambda>s. Inr (if messages s = [] then ''new'' else ''a'')),
      sc_get = (\<lambda>t. Inr (if t = ''a'' then after_a else new_state ''task''))\<rparr>"

definition saved_executor :: "string \<Rightarrow> (spot, store) executor" where
  "saved_executor i = ex_with_run_id (ex_with_checkpointer unit_executor (sqlite_ops sample_env unit_codec)) i"

definition linear_ab :: graph where
  "linear_ab = unit_graph ''a'' [node ''a'', node ''b''] [(''a'', Static [''b'']), (''b'', Static [END])]"

definition saved :: "string \<Rightarrow> nat \<Rightarrow> string \<Rightarrow> state \<Rightarrow> store" where
  "saved blueprint step n s =
     snd (sqlite_save sample_env unit_codec
       \<lparr>cp_run_id = ''run-1'', cp_blueprint = blueprint, cp_step = step, cp_frontier = [n], cp_state = s\<rparr> empty_store)"

definition resumed :: "string \<Rightarrow> store \<Rightarrow> outcome \<times> store xrun" where
  "resumed i st = resume_blueprint (saved_executor i) (unit_outside (\<lambda>w. 0) (\<lambda>w. None)) linear_ab unit_schedule st"

definition stored_status :: "string \<Rightarrow> store \<Rightarrow> run_state option" where
  "stored_status i st =
     (case fst (get_checkpoint sample_env i st) of Inr (Some rec) \<Rightarrow> Some (cr_status rec) | _ \<Rightarrow> None)"

lemmas store_defs =
  saved_executor_def linear_ab_def saved_def resumed_def stored_status_def after_a_def unit_codec_def sample_env_def
  resume_blueprint_def load_run_def sqlite_ops_def sqlite_save_def sqlite_load_def sqlite_set_status_def
  upsert_checkpoint_def set_checkpoint_status_def get_checkpoint_def read_checkpoint_def store_call_def
  row_to_record_def upsert_row_def loaded_of_def record_to_checkpoint_def is_resumable_def
  run_state_from_str_def empty_store_def

lemma full_run_marks_checkpoint_completed:
  "stored_status ''run-x'' (xr_store (snd (unit_run (saved_executor ''run-x'') (\<lambda>w. 0) (\<lambda>w. None) linear_ab))) =
     Some RsCompleted"
  "\<not> is_resumable RsCompleted"
  by (simp_all add: unit_defs store_defs END_def Let_def)

lemma resume_runs_only_the_remaining_frontier:
  "let (res, r) = resumed ''run-1'' (saved ''t'' 1 ''b'' after_a)
   in (\<exists>s. res = OkState s \<and> map fst (transcript s) = [''a'', ''b'']) \<and> xr_attempts r = [(1, 0)] \<and>
      stored_status ''run-1'' (xr_store r) = Some RsCompleted"
  by (simp add: unit_defs store_defs END_def transcript_def Let_def)

lemma resume_rejects_a_mismatched_blueprint:
  "fst (resumed ''run-1'' (saved ''other'' 0 ''a'' (new_state ''task''))) =
     ErrRun (ResumeErr (''checkpoint for run was taken against blueprint '' @ bt @ ''other'' @ bt @ '', not '' @ bt @ ''t'' @ bt))"
  by (simp add: unit_defs store_defs Let_def)

lemma resume_refuses_a_completed_run:
  "fst (resumed ''run-1'' (snd (sqlite_set_status sample_env ''run-1'' CkCompleted (saved ''t'' 1 ''b'' (new_state ''task''))))) =
     ErrRun (ResumeErr ''run already finished (completed or failed); nothing to resume'')"
  by (simp add: unit_defs store_defs Let_def)

lemma resume_without_a_checkpoint_errors:
  "fst (resumed ''ghost'' empty_store) = ErrRun (ResumeErr (''no checkpoint found for run '' @ bt @ ''ghost'' @ bt))"
  by (simp add: unit_defs store_defs Let_def)

end
