(* ===== verification/Unit_Core.thy ===== *)
theory Unit_Core
  imports Conversation File_Ops Mcp
begin

text \<open>
  The unit tests of \<open>tools\<close>, \<open>context\<close> and \<open>mcp.rs\<close> in \<open>boitata-core/src\<close>, replayed on the model: each
  lemma has the name, the inputs and the assertions of a test.  What a test takes from a library (a
  pattern's matches, the legal header names) is stated for every function that agrees with the library
  on the inputs of the test.
\<close>

section \<open>The policy\<close>

definition read_only_policy :: policy where
  "read_only_policy = \<lparr>po_mode = ReadOnly, po_denied = []\<rparr>"

definition denying :: "string \<Rightarrow> policy" where
  "denying re = \<lparr>po_mode = AllowAll, po_denied = [re]\<rparr>"

definition denied :: "decision \<Rightarrow> bool" where
  "denied d \<longleftrightarrow> (case d of Deny _ \<Rightarrow> True | Allow \<Rightarrow> False)"

lemmas policy_defs = decide_def policy_allow_all_def read_only_policy_def denying_def denied_def
  default_annotations_def read_only_annotations_def jget_def as_str_def

lemma test_allow_all_allows_mutating_tool:
  "decide m policy_allow_all ''file_write'' (Some default_annotations) (JObj []) = Allow"
  by (simp add: policy_defs)

lemma test_read_only_mode_denies_mutation_allows_reads:
  "policy_new compile ReadOnly [] = Inr read_only_policy"
  "denied (decide m read_only_policy ''file_write'' (Some default_annotations) (JObj []))"
  "decide m read_only_policy ''file_read'' (Some read_only_annotations) (JObj []) = Allow"
  "denied (decide m read_only_policy ''mystery'' None (JObj []))"
  by (simp_all add: policy_defs policy_new_def)

lemma test_denylist_blocks_matching_command:
  "m re ''rm -rf / --no-preserve-root'' \<Longrightarrow>
     denied (decide m (denying re) ''execute_command'' None (JObj [(''command'', JStr ''rm -rf / --no-preserve-root'')]))"
  "\<not> m re ''ls -la'' \<Longrightarrow>
     decide m (denying re) ''execute_command'' None (JObj [(''command'', JStr ''ls -la'')]) = Allow"
  by (simp_all add: policy_defs)

lemma test_denylist_fails_closed_on_missing_command:
  "denied (decide m (denying re) ''execute_command'' None (JObj []))"
  "denied (decide m (denying re) ''execute_command'' None (JObj [(''command'', JNum (PosInt 42))]))"
  "decide m policy_allow_all ''execute_command'' None (JObj []) = Allow"
  by (simp_all add: policy_defs)

lemma test_denylist_only_applies_to_execute_command:
  "decide m (denying ''secret'') ''file_write'' (Some default_annotations) (JObj [(''content'', JStr ''secret'')]) = Allow"
  by (simp add: policy_defs)

lemma test_new_rejects_bad_regex:
  "compile ''(unclosed'' = Inl e \<Longrightarrow> policy_new compile AllowAll [''(unclosed''] = Inl e"
  by (simp add: policy_new_def)

section \<open>The workspace\<close>

definition test_dir :: filesystem where
  "test_dir = \<lparr>fs_entries = [[] \<mapsto> Directory, [''tmp''] \<mapsto> Directory, [''tmp'', ''d''] \<mapsto> Directory,
     [''tmp'', ''d'', ''a.txt''] \<mapsto> RegularFile ''x'' 420, [''etc''] \<mapsto> Directory,
     [''etc'', ''passwd''] \<mapsto> RegularFile ''root'' 420], fs_cwd = [''tmp'']\<rparr>"

definition test_root :: path where
  "test_root = path_of [''tmp'', ''d'']"

lemma test_unconfined_passes_through: "confine_within fs None p = Inr (path_components p)"
  by (simp add: confine_within_def)

lemma test_allows_paths_within_root:
  "confine_within test_dir (Some test_root) ''a.txt'' = Inr (path_of [''tmp'', ''d'', ''a.txt''])"
  "read_to_string test_dir no_faults (path_of [''tmp'', ''d'', ''a.txt'']) = Inr ''x''"
  "confine_within test_dir (Some test_root) ''sub/new.txt'' = Inr (test_root @ [Normal ''sub'', Normal ''new.txt''])"
  by code_simp+

lemma test_rejects_escapes:
  "isl (confine_within test_dir (Some test_root) ''/etc'')"
  "isl (confine_within test_dir (Some test_root) ''../../etc/passwd'')"
  "isl (confine_within test_dir (Some test_root) ''sub/../../etc/passwd'')"
  "isl (confine_within test_dir (Some test_root) ''/tmp/d/../escape'')"
  by code_simp+

lemma test_allows_harmless_internal_dotdot:
  "confine_within test_dir (Some test_root) ''a/../b'' = Inr (test_root @ [Normal ''b''])"
  by code_simp

lemma test_lexical_normalize_retains_escaping_dotdot:
  "lexical_normalize (path_components ''../etc'') = path_components ''../etc''"
  "lexical_normalize (path_components ''a/../../b'') = path_components ''../b''"
  by code_simp+

section \<open>Files\<close>

abbreviation nl :: string where "nl \<equiv> [CHR 0x0A]"
abbreviation tab :: string where "tab \<equiv> [CHR 0x09]"

lemma test_format_with_line_numbers_basic:
  "format_with_line_numbers (''a'' @ nl @ ''b'' @ nl @ ''c'') None None =
     ''     1'' @ tab @ ''a'' @ nl @ ''     2'' @ tab @ ''b'' @ nl @ ''     3'' @ tab @ ''c''"
  by code_simp

lemma test_format_with_line_numbers_offset_and_limit:
  "format_with_line_numbers (''a'' @ nl @ ''b'' @ nl @ ''c'' @ nl @ ''d'') (Some 2) (Some 2) =
     ''     2'' @ tab @ ''b'' @ nl @ ''     3'' @ tab @ ''c'' @ nl @ ''... (1 more line(s); use offset=4 to continue)''"
  by code_simp

lemma test_format_with_line_numbers_offset_zero_clamps_to_one:
  "format_with_line_numbers ''only'' (Some 0) None = ''     1'' @ tab @ ''only''"
  by code_simp

lemma test_format_with_line_numbers_offset_past_end:
  "contains_str (format_with_line_numbers (''a'' @ nl @ ''b'') (Some 5) None) ''past the end''"
  by code_simp

lemma test_format_with_line_numbers_empty: "format_with_line_numbers [] None None = ''(empty file)''"
  by code_simp

lemma test_compute_edit_unique:
  "compute_edit (''a'' @ nl @ ''BBB'' @ nl @ ''c'') ''BBB'' ''X'' = Inr (''a'' @ nl @ ''X'' @ nl @ ''c'', 2)"
  by code_simp

lemma test_compute_edit_not_found: "compute_edit (''a'' @ nl @ ''b'') ''zzz'' ''x'' = Inl NotFound"
  by code_simp

lemma test_compute_edit_ambiguous_reports_lines:
  "compute_edit (''dup'' @ nl @ ''other'' @ nl @ ''dup'') ''dup'' ''x'' = Inl (Ambiguous [1, 3])"
  by code_simp

lemma test_compute_edit_empty_and_noop:
  "compute_edit ''a'' [] ''x'' = Inl EmptyOld" "compute_edit ''a'' ''a'' ''a'' = Inl Noop"
  by code_simp+

lemma test_match_line_numbers_empty_needle_is_empty: "match_line_numbers content [] = []"
  by (simp add: match_line_numbers_def match_lines_from.simps)

section \<open>Compaction\<close>

text \<open>The task, then pairs of a tool use and its result; \<open>0.8\<close> as a single-precision fraction.\<close>

definition test_call :: "nat \<Rightarrow> tool_call" where
  "test_call i = \<lparr>tc_id = ''id-t'' @ show_nat i, tc_name = ''t'' @ show_nat i, tc_arguments = JObj []\<rparr>"

definition test_conversation :: "nat \<Rightarrow> conversation" where
  "test_conversation pairs =
     foldl (\<lambda>c i. add_tool_result (add_assistant_tool_use c None [test_call i]) (tc_id (test_call i)) [] False)
       (add_user_message new_context ''original task'') [0..<pairs]"

definition four_fifths :: f32 where
  "four_fifths = F 13421773 24"

lemma needs_compaction_threshold:
  "\<not> needs_compaction 100 1000 four_fifths"
  "needs_compaction 800 1000 four_fifths"
  "needs_compaction 900 1000 four_fifths"
  "\<not> needs_compaction 900 1000 (F 0 0)"
  "\<not> needs_compaction 900 0 four_fifths"
  by (simp_all add: needs_compaction_def four_fifths_def f32_le_zero_def round24_def bit_len.simps Let_def)

lemma cutoff_lands_on_assistant_and_keeps_suffix:
  "pick_cutoff (test_conversation 6) keep_recent_messages = Some 7"
  "cm_role (cx_messages (test_conversation 6) ! 7) = Assistant"
  "context_len (test_conversation 6) = 13"
  by code_simp+

lemma no_cutoff_for_short_history: "pick_cutoff (test_conversation 1) keep_recent_messages = None"
  by code_simp

lemma apply_summary_preserves_pairing:
  "let c = apply_summary (test_conversation 6) 7 ''a synopsis'' in
     context_len c = 7 \<and> map cm_role (cx_messages c) = [User, Assistant, Tool, Assistant, Tool, Assistant, Tool] \<and>
     cm_content (hd (cx_messages c)) = CText (summary_prefix @ ''a synopsis'')"
  by code_simp

section \<open>The file tools\<close>

definition with_file :: "string \<Rightarrow> string \<Rightarrow> nat \<Rightarrow> filesystem" where
  "with_file n body mode = put_entry test_dir [''tmp'', ''d'', n] (Some (RegularFile body mode))"

definition edit_args :: "string \<Rightarrow> string \<Rightarrow> string \<Rightarrow> json" where
  "edit_args p old new = JObj [(''path'', JStr p), (''old'', JStr old), (''new'', JStr new)]"

lemma test_file_read:
  "file_read (with_file ''test.txt'' ''Hello, World!'' 420) None no_faults (JObj [(''path'', JStr ''/tmp/d/test.txt'')]) =
     Inr (''     1'' @ tab @ ''Hello, World!'')"
  by code_simp

lemma test_file_write:
  "let (res, fs) = file_write test_dir None no_faults
     (JObj [(''path'', JStr ''/tmp/d/test.txt''), (''content'', JStr ''Hello, World!'')])
   in \<not> isl res \<and> fs_entries fs [''tmp'', ''d'', ''test.txt''] = Some (RegularFile ''Hello, World!'' default_mode)"
  by code_simp

lemma test_file_edit_preserves_permissions:
  "let (res, fs) = file_edit (with_file ''script.sh'' (''echo OLD'' @ nl) 493) None no_faults ''u''
     (edit_args ''/tmp/d/script.sh'' ''OLD'' ''NEW'')
   in \<not> isl res \<and> fs_entries fs [''tmp'', ''d'', ''script.sh''] = Some (RegularFile (''echo NEW'' @ nl) 493)"
  by code_simp

lemma test_file_edit_applies_unique_change:
  "let (res, fs) = file_edit (with_file ''edit.txt'' (''line1'' @ nl @ ''TARGET'' @ nl @ ''line3'' @ nl) 420) None
     no_faults ''u'' (edit_args ''/tmp/d/edit.txt'' ''TARGET'' ''REPLACED'')
   in \<not> isl res \<and> contains_str (projr res) ''line 2'' \<and>
      fs_entries fs [''tmp'', ''d'', ''edit.txt''] =
        Some (RegularFile (''line1'' @ nl @ ''REPLACED'' @ nl @ ''line3'' @ nl) 420)"
  by code_simp

lemma test_file_edit_rejects_ambiguous_match:
  "let (res, fs) = file_edit (with_file ''edit.txt'' (''dup'' @ nl @ ''dup'' @ nl) 420) None no_faults ''u''
     (edit_args ''/tmp/d/edit.txt'' ''dup'' ''x'')
   in isl res \<and> contains_str (show_tool_error (projl res)) ''matches 2 times'' \<and>
      fs_entries fs [''tmp'', ''d'', ''edit.txt''] = Some (RegularFile (''dup'' @ nl @ ''dup'' @ nl) 420)"
  by code_simp

lemma test_list_directory:
  "list_directory (put_entry (with_file ''file1.txt'' ''test'' 420) [''tmp'', ''d'', ''file2.txt''] (Some (RegularFile ''test'' 420)))
     None (\<lambda>c. [''file1.txt'', ''file2.txt'']) (JObj [(''path'', JStr ''/tmp/d'')]) =
   Inr (''FILE file1.txt'' @ nl @ ''FILE file2.txt'')"
  by code_simp

section \<open>Servers of tools\<close>

lemma test_sanitize_replaces_invalid_chars:
  "sanitize_tool_name ''git.read file'' = ''git_read_file''"
  "sanitize_tool_name ''fs_read-file'' = ''fs_read-file''"
  by code_simp+

lemma test_sanitize_truncates: "length (sanitize_tool_name (replicate 100 CHR ''a'')) = max_tool_name_len"
  by (simp add: sanitize_tool_name_def max_tool_name_len_def filter_replicate cont_byte_def)

definition blocks :: "content_block list \<Rightarrow> call_result" where
  "blocks bs = \<lparr>cr_content = bs, cr_structured = None, cr_is_error = None\<rparr>"

lemma test_result_content_joins_text_blocks:
  "tool_content_text (result_content jtext (blocks [TextBlock ''hello'', TextBlock ''world''])) = ''hello'' @ nl @ ''world''"
  by (simp add: result_content_def blocks_def tool_content_text_def)

lemma test_result_content_preserves_images:
  "result_content jtext (blocks [TextBlock ''see'', ImageBlock ''image/png'' ''AAAA'']) =
     [TText ''see'', TImage ''image/png'' ''AAAA'']"
  by (simp add: result_content_def blocks_def)

lemma test_result_content_falls_back_to_structured:
  "jtext v = t \<Longrightarrow> tool_content_text (result_content jtext (blocks []\<lparr>cr_structured := Some v\<rparr>)) = t"
  by (simp add: result_content_def blocks_def tool_content_text_def)

lemma test_http_config_applies_auth_token:
  "map_sum id hc_auth_header (build_http_config nm vl ''http://localhost/mcp'' (Some ''secret'') []) = Inr (Some ''secret'')"
  by (simp add: build_http_config_def)

lemma test_http_config_rejects_invalid_header:
  "nm ''bad header'' = None \<Longrightarrow> isl (build_http_config nm vl ''http://localhost/mcp'' None [(''bad header'', ''v'')])"
  by (simp add: build_http_config_def)

text \<open>The tests' server: one tool that echoes and one resource.\<close>

definition echo_client :: "unit mcp_client" where
  "echo_client = \<lparr>mc_name = ''test'', mc_has_resources = True,
     mc_tools = Answer [\<lparr>rt_name = ''echo'', rt_description = Some ''Echo text back'', rt_input_schema = [], rt_hints = None\<rparr>],
     mc_call = (\<lambda>n args w. (Answer (blocks [TextBlock (''echo: '' @
        (case Option.bind (Option.bind args (\<lambda>a. map_of a ''text'')) as_str of Some t \<Rightarrow> t | None \<Rightarrow> []))]), w)),
     mc_list = (\<lambda>w. (Answer [\<lparr>rr_uri = ''mem://note'', rr_name = ''note'', rr_mime_type = Some ''text/plain'',
        rr_description = Some ''A test note''\<rparr>], w)),
     mc_read = (\<lambda>u w. (Answer [TextContents ''resource body''], w))\<rparr>"

definition echo_tools :: "(unit \<Rightarrow> bool) \<Rightarrow> unit tool list" where
  "echo_tools cancelled = projr (discover_tools (\<lambda>v. []) cancelled echo_client)"

lemmas echo_defs = echo_tools_def discover_tools_def echo_client_def resource_tools_def exposed_name_def mcp_tool_def
  list_resources_tool_def read_resource_tool_def race_def mcp_call_def list_resources_def read_resource_def
  result_content_def blocks_def resource_line_def resource_contents_text_def output_text_def output_to_text_def
  tool_content_text_def as_str_def as_object_def jget_def Let_def

lemma echo_names:
  "sanitize_tool_name ''test_echo'' = ''test_echo''"
  "sanitize_tool_name ''test_list_resources'' = ''test_list_resources''"
  "sanitize_tool_name ''test_read_resource'' = ''test_read_resource''"
  by code_simp+

lemma test_stdio_server_end_to_end:
  "map tl_name (echo_tools cn) = [''test_echo'', ''test_list_resources'', ''test_read_resource'']"
  "\<not> an_read_only (tl_annotations (hd (echo_tools cn)))" "an_open_world (tl_annotations (hd (echo_tools cn)))"
  "fst (tl_execute (echo_tools (\<lambda>w. False) ! 0) (JObj [(''text'', JStr ''hi'')]) ()) = Inr [TText ''echo: hi'']"
  "\<exists>what. fst (tl_execute (echo_tools (\<lambda>w. True) ! 0) (JObj [(''text'', JStr ''hi'')]) ()) = Inl (ToolCancelled what)"
  "map_sum id output_to_text (fst (tl_execute (echo_tools (\<lambda>w. False) ! 2) (JObj [(''uri'', JStr ''mem://note'')]) ())) =
     Inr ''resource body''"
  by (simp_all add: echo_defs echo_names project_hints_def)

end
