(* ===== verification/Unit_Agent.thy ===== *)
theory Unit_Agent
  imports Agent_Loop Capture Store
begin

text \<open>
  The unit tests of \<open>boitata-agent/src/lib.rs\<close>, of \<open>exec.rs\<close> in \<open>boitata-core/src/tools/builtins\<close> and of
  \<open>boitata-store/src\<close>, replayed on the model: each lemma has the name, the inputs and the assertions
  of a test.  The agent counts tokens with the fallback of its counter.
\<close>

section \<open>The agent\<close>

lemma test_task_creation:
  "new_task ''Fix the bug'' = \<lparr>tk_description = ''Fix the bug'', tk_workspace = None, tk_max_iterations = None\<rparr>"
  by (simp add: new_task_def)

lemma test_task_with_options:
  "task_with_max_iterations (task_with_workspace (new_task ''Fix the bug'') ''/tmp/test'') 100 =
     \<lparr>tk_description = ''Fix the bug'', tk_workspace = Some ''/tmp/test'', tk_max_iterations = Some 100\<rparr>"
  by (simp add: new_task_def task_with_max_iterations_def task_with_workspace_def)

text \<open>
  The tests' provider drives five turns of tool calls and then finishes, and returns a synopsis when
  it is asked to summarize; it counts both kinds of request.
\<close>

definition compacting_reply :: "string option \<Rightarrow> tool_call list \<Rightarrow> (provider_error + completion_response) option" where
  "compacting_reply text calls =
     Some (Inr \<lparr>resp_content = text, resp_tool_calls = calls, resp_usage = None, resp_finish_reason = None\<rparr>)"

definition compacting_env :: "(nat \<times> nat) env" where
  "compacting_env =
     \<lparr>en_complete = (\<lambda>q (main, summaries).
        if req_system q = Some summarization_system_prompt
        then (compacting_reply (Some ''compact synopsis'') [], (main, Suc summaries))
        else if main < 5
        then (compacting_reply None [\<lparr>tc_id = ''call-'' @ show_nat main, tc_name = ''noop'', tc_arguments = JObj []\<rparr>],
              (Suc main, summaries))
        else (compacting_reply (Some ''all done'') [], (Suc main, summaries))),
      en_cancelled = (\<lambda>w. False), en_bpe = None, en_jtext = (\<lambda>v. ''{}''), en_is_match = (\<lambda>re s. False)\<rparr>"

definition compacting_agent :: "(nat \<times> nat) agent" where
  "compacting_agent =
     new_agent \<lparr>pv_name = ''fake'', pv_model = ''fake-model'', pv_supports_tools = True, pv_max_tokens = 128,
       pv_context_limit = 50\<rparr> new_registry [] default_system_prompt"

definition big_task :: "(nat \<times> nat) agent \<Rightarrow> bool \<times> nat" where
  "big_task ag =
     (case run_with_cancel ag compacting_env summarization_system_prompt (new_task ''do a big task'') (0, 0) of
        (Inl e, r) \<Rightarrow> (False, snd (rn_world r))
      | (Inr res, r) \<Rightarrow> (rs_success res, snd (rn_world r)))"

text \<open>The system prompt alone fills the window of the tests' provider.\<close>

lemma foldl_plus_ge: "(a :: nat) \<le> foldl (\<lambda>total m. total + f m) a ms"
  by (induction ms arbitrary: a) (auto intro: add_leD1)

lemma prompt_fills_window:
  assumes "conversation.cx_system_prompt c = Some default_system_prompt"
  shows "needs_compaction (token_count None jtext c tt) 50 default_compact_threshold"
proof -
  have "length default_system_prompt \<ge> 200" by (simp add: default_system_prompt_def)
  then have "50 \<le> count_tokens None default_system_prompt" by (simp add: count_tokens_def div_ceil_def)
  also have "\<dots> \<le> 4 + count_tokens None default_system_prompt" by simp
  also have "\<dots> \<le> foldl (\<lambda>total m. total + (4 + count_content None jtext (cm_content m)))
      (4 + count_tokens None default_system_prompt) (cx_messages c)"
    by (rule foldl_plus_ge)
  finally have "50 \<le> token_count None jtext c tt" using assms by (simp add: token_count_def count_context_tokens_def)
  then show ?thesis
    using compaction_due_when_full [of 50 "token_count None jtext c tt" 13421773 24]
    by (simp add: default_compact_threshold_def)
qed

lemma two_prompts: "default_system_prompt \<noteq> summarization_system_prompt"
  by (simp add: default_system_prompt_def summarization_system_prompt_def)

lemmas run_eval = run_with_cancel_def run_loop.simps run_iteration_def handle_response_def handle_call_def
  execute_tool_call_def execute_tool_def complete_or_cancel_def build_request_def summary_request_def start_run_def emit_def
  compacting_reply_def new_agent_def new_task_def new_registry_def
  new_context_def set_system_prompt_def add_user_message_def push_message_def add_assistant_tool_use_def
  add_tool_result_def registry_annotations_def policy_allow_all_def decide_def to_definitions_def two_prompts
  two_prompts [symmetric] map_filter_simps

lemma disabled_threshold_never_compacts: "big_task (with_compact_threshold compacting_agent (F 0 0)) = (True, 0)"
  by (simp add: big_task_def run_eval compacting_env_def compacting_agent_def with_compact_threshold_def f32_clamp01_def f32_le_zero_def maybe_compact_def Let_def
    count_tokens_for_tools_def)

lemma compaction_step:
  assumes "conversation.cx_system_prompt (rn_context r) = Some default_system_prompt" "rn_world r = (m, n)"
  shows "maybe_compact compacting_agent compacting_env summarization_system_prompt tt it r =
    (case pick_cutoff (rn_context r) keep_recent_messages of
       None \<Rightarrow> r
     | Some cutoff \<Rightarrow>
         r\<lparr>rn_world := (m, Suc n), rn_context := apply_summary (rn_context r) cutoff ''compact synopsis'',
           rn_requests := rn_requests r @ [summary_request compacting_agent summarization_system_prompt
             (render_for_summary (en_jtext compacting_env) (rn_context r) cutoff)]\<rparr>)"
proof -
  have "trim ''compact synopsis'' \<noteq> []" "\<not> f32_le_zero default_compact_threshold" by code_simp+
  with prompt_fills_window [OF assms(1)] assms(2) show ?thesis
    by (auto simp: maybe_compact_def complete_or_cancel_def summary_request_def compacting_env_def compacting_agent_def
      compacting_reply_def new_agent_def emit_def Let_def split: option.split)
qed

lemma compacting_fields:
  "ag_provider compacting_agent = \<lparr>pv_name = ''fake'', pv_model = ''fake-model'', pv_supports_tools = True,
     pv_max_tokens = 128, pv_context_limit = 50\<rparr>"
  "ag_tools compacting_agent = new_registry" "ag_tool_order compacting_agent = []" "ag_max_iterations compacting_agent = 50"
  "ag_system_prompt compacting_agent = default_system_prompt" "ag_audit compacting_agent = False"
  "ag_policy compacting_agent = policy_allow_all"
  "en_cancelled compacting_env w = False"
  "en_complete compacting_env q (main, summaries) =
     (if req_system q = Some summarization_system_prompt
      then (compacting_reply (Some ''compact synopsis'') [], (main, Suc summaries))
      else if main < 5
      then (compacting_reply None [\<lparr>tc_id = ''call-'' @ show_nat main, tc_name = ''noop'', tc_arguments = JObj []\<rparr>],
            (Suc main, summaries))
      else (compacting_reply (Some ''all done'') [], (Suc main, summaries)))"
  by (simp_all add: compacting_agent_def new_agent_def compacting_env_def)

lemma compaction_fires_and_run_completes: "big_task compacting_agent = (True, 2)"
  by (simp add: big_task_def compacting_fields compaction_step pick_cutoff_def apply_summary_def keep_recent_messages_def
    seek_assistant.simps run_eval Let_def count_tokens_for_tools_def)

section \<open>Subprocesses\<close>

text \<open>A stream that ends well, and one that arrives in one piece.\<close>

definition good_end :: stream_end where
  "good_end = \<lparr>sn_create_ok = True, sn_write_ok = True, sn_flush_ok = True\<rparr>"

definition one_piece :: "string \<Rightarrow> chunk list" where
  "one_piece s = [\<lparr>ck_data = s, ck_write_ok = True, ck_create_ok = True, ck_first_ok = True\<rparr>]"

lemmas capture_eval = read_capped_def one_piece_def good_end_def read_chunk_def append_spill_def start_spill_def
  trim_capture_def trim_front_to_cap_def finish_capture_def new_capture_def

text \<open>A short stream is kept as it is; of a longer one of plain characters the last bytes stay, the rest spills.\<close>

lemma read_one_piece:
  assumes "list_all (\<lambda>c. \<not> cont_byte c) data"
  shows "read_capped cap (Some (one_piece data)) good_end =
    (if length data \<le> cap then \<lparr>cs_bytes = data, cs_truncated = False, cs_spill = None\<rparr>
     else \<lparr>cs_bytes = drop (length data - cap) data, cs_truncated = True, cs_spill = Some data\<rparr>)"
proof -
  have "list_all (\<lambda>c. \<not> cont_byte c) (drop n data)" for n
    using assms by (auto simp: list_all_iff dest: in_set_dropD)
  then have "dropWhile cont_byte (drop n data) = drop n data" for n
    by (cases "drop n data") (auto dest: meta_spec [of _ n])
  then show ?thesis by (auto simp: capture_eval Let_def)
qed

lemma test_read_capped_no_truncation_no_duplication:
  "read_capped 1000 (Some (one_piece (map char_of [0..<50::nat]))) good_end =
     \<lparr>cs_bytes = map char_of [0..<50::nat], cs_truncated = False, cs_spill = None\<rparr>"
  by (simp add: capture_eval Let_def)

definition letters :: "nat \<Rightarrow> string" where
  "letters n = map (\<lambda>i. char_of (97 + i mod 26)) [0..<n]"

lemma letters_plain: "list_all (\<lambda>c. \<not> cont_byte c) (letters n)"
proof -
  have "\<not> cont_byte (char_of (97 + i mod 26 :: nat))" for i :: nat
  proof -
    have "97 + i mod 26 < 128" using mod_less_divisor [of 26 i] by linarith
    then show ?thesis by (simp add: cont_byte_def of_char_of take_bit_eq_mod)
  qed
  then show ?thesis by (simp add: letters_def list_all_iff)
qed

lemma test_read_capped_keeps_tail:
  "read_capped 40 (Some (one_piece (letters 200))) good_end =
     \<lparr>cs_bytes = drop 160 (letters 200), cs_truncated = True, cs_spill = Some (letters 200)\<rparr>"
  by (simp add: read_one_piece letters_plain) (simp add: letters_def)

lemma test_read_capped_spills_full_output:
  "cs_spill (read_capped 100 (Some (one_piece (letters 5000))) good_end) = Some (letters 5000)"
  by (simp add: read_one_piece letters_plain) (simp add: letters_def)

lemma test_read_capped_spills_when_output_between_cap_and_2x:
  "let s = read_capped 100 (Some (one_piece (letters 150))) good_end in
     cs_truncated s \<and> length (cs_bytes s) = 100 \<and> cs_spill s = Some (letters 150)"
  by (simp add: read_one_piece letters_plain) (simp add: letters_def)

definition exits_with :: "int \<Rightarrow> string \<Rightarrow> child" where
  "exits_with code out =
     Exited \<lparr>cs_bytes = out, cs_truncated = False, cs_spill = None\<rparr> [] \<lparr>cs_bytes = [], cs_truncated = False, cs_spill = None\<rparr> []
       (Inr (Some code))"

lemma test_run_captures_stdout:
  "map_sum id output_to_text (run_command fs ws ''echo'' None default_timeout (exits_with 0 (''hello'' @ [CHR 0x0A]))) =
     Inr ''hello''"
proof -
  have "from_utf8_lossy (''hello'' @ [CHR 0x0A]) = ''hello'' @ [CHR 0x0A]" "from_utf8_lossy [] = []"
    "trim_end (''hello'' @ [CHR 0x0A]) = ''hello''" "trim_end [] = []"
    by code_simp+
  then show ?thesis
    by (simp add: run_command_def run_raw_def exits_with_def finalize_stream_def format_output_def output_text_def
      output_to_text_def tool_content_text_def)
qed

lemma test_run_reports_nonzero_exit:
  "map_sum id output_to_text (run_command fs ws ''sh'' None default_timeout (exits_with 3 [])) = Inr ''[exit code 3]''"
proof -
  have "from_utf8_lossy [] = []" "trim_end [] = []" "show_nat 3 = ''3''" by code_simp+
  then show ?thesis
    by (simp add: run_command_def run_raw_def exits_with_def finalize_stream_def format_output_def output_text_def
      output_to_text_def tool_content_text_def show_int_def)
qed

lemma test_run_missing_program_errors:
  "\<exists>e. run_command fs ws ''boitata_nope_xyz'' None default_timeout (LaunchFailed True err) = Inl (ExecutionFailed e)"
  by (simp add: run_command_def run_raw_def)

lemma test_run_cancelled_returns_promptly:
  "run_command fs ws ''sleep'' None 30 ChildCancelled = Inl (ToolCancelled (bt @ ''sleep'' @ bt))"
  by (simp add: run_command_def run_raw_def)

lemma test_arg_helpers:
  "str_arg (JObj [(''name'', JStr ''x''), (''flag'', JBool True)]) ''name'' ''t'' = Inr ''x''"
  "isl (str_arg (JObj [(''name'', JStr ''x''), (''flag'', JBool True)]) ''missing'' ''t'')"
  "opt_str_arg (JObj [(''name'', JStr ''x''), (''flag'', JBool True)]) ''missing'' = None"
  "opt_bool_arg (JObj [(''name'', JStr ''x''), (''flag'', JBool True)]) ''flag''"
  "\<not> opt_bool_arg (JObj [(''name'', JStr ''x''), (''flag'', JBool True)]) ''missing''"
  by (simp_all add: str_arg_def opt_str_arg_def opt_bool_arg_def jget_def as_str_def as_bool_def ok_or_def)

section \<open>The store\<close>

text \<open>A new database has version 0; its only migration creates the table.\<close>

definition fresh_connection :: "string list connection" where
  "fresh_connection = \<lparr>cn_database = \<lparr>db_version = 0, db_schema = []\<rparr>, cn_wal = True, cn_synchronous = True\<rparr>"

definition run_script_on :: "string \<Rightarrow> string list \<Rightarrow> string list option" where
  "run_script_on sql tables = (if sql \<in> set tables then None else Some (tables @ [sql]))"

definition the_migrations :: "string list" where
  "the_migrations = [''CREATE TABLE checkpoints'']"

lemma migrations_bring_a_fresh_db_to_current_version:
  "open_in_memory run_script_on the_migrations (Inr fresh_connection) =
     Inr (Inr (), \<lparr>db_version = 1, db_schema = the_migrations\<rparr>)"
  by (simp add: open_in_memory_def store_init_def migrate_def fresh_connection_def the_migrations_def run_script_on_def)

lemma reopening_an_existing_db_is_idempotent:
  "store_open run_script_on the_migrations ''store.db''
     (Inr (fresh_connection\<lparr>cn_database := \<lparr>db_version = 1, db_schema = the_migrations\<rparr>\<rparr>)) =
   Inr (Inr (), \<lparr>db_version = 1, db_schema = the_migrations\<rparr>)"
  by (simp add: store_open_def init_current fresh_connection_def the_migrations_def)

definition test_upsert :: "string \<Rightarrow> checkpoint_upsert" where
  "test_upsert i = \<lparr>cu_run_id = i, cu_blueprint = ''fix_test'', cu_task = ''make it pass'', cu_step = 3,
     cu_frontier = [''test'', ''fix''], cu_state = ''{}'', cu_status = RsRunning\<rparr>"

definition test_env :: "nat store_env" where
  "test_env = \<lparr>se_put_frontier = join '','', se_parse_frontier = (\<lambda>s. Inr (if s = ''test,fix'' then [''test'', ''fix''] else [])),
     se_parse_time = (\<lambda>s. Inr (length s)), se_now = (\<lambda>n. replicate n (CHR ''0'')), se_fault = (\<lambda>n. False)\<rparr>"

definition stored :: "string list \<Rightarrow> store" where
  "stored ids = foldl (\<lambda>s i. snd (upsert_checkpoint test_env (test_upsert i) s)) empty_store ids"

lemmas test_store_defs = stored_def test_upsert_def test_env_def upsert_checkpoint_def store_call_def upsert_row_def
  get_checkpoint_def read_checkpoint_def row_to_record_def run_state_from_str_def empty_store_def set_checkpoint_status_def
  list_checkpoints_def delete_checkpoint_def is_resumable_def Let_def

lemma upsert_then_get_roundtrips:
  "case fst (get_checkpoint test_env ''run-1'' (stored [''run-1''])) of
     Inr (Some c) \<Rightarrow> cr_run_id c = ''run-1'' \<and> cr_blueprint c = ''fix_test'' \<and> cr_step c = 3 \<and>
       cr_frontier c = [''test'', ''fix''] \<and> cr_status c = RsRunning \<and> is_resumable (cr_status c)
   | _ \<Rightarrow> False"
  by (simp add: test_store_defs)

lemma get_missing_is_none: "fst (get_checkpoint test_env ''nope'' (stored [])) = Inr None"
  by (simp add: test_store_defs)

lemma upsert_replaces_and_preserves_created_at:
  "let s = snd (upsert_checkpoint test_env ((test_upsert ''run-1'')\<lparr>cu_step := 7\<rparr>) (stored [''run-1''])) in
     case (fst (get_checkpoint test_env ''run-1'' (stored [''run-1''])), fst (get_checkpoint test_env ''run-1'' s)) of
       (Inr (Some a), Inr (Some b)) \<Rightarrow>
         cr_step b = 7 \<and> cr_created_at b = cr_created_at a \<and> cr_updated_at a \<le> cr_updated_at b
     | _ \<Rightarrow> False"
  by (simp add: test_store_defs)

lemma set_status_and_resumable_filter:
  "let s = snd (set_checkpoint_status test_env ''b'' RsCompleted (stored [''a'', ''b''])) in
     map_sum id (map cr_run_id) (fst (list_checkpoints test_env True s)) = Inr [''a''] \<and>
     map_sum id length (fst (list_checkpoints test_env False s)) = Inr 2"
  by (simp add: test_store_defs)

lemma delete_removes_the_row:
  "fst (get_checkpoint test_env ''a'' (snd (delete_checkpoint test_env ''a'' (stored [''a''])))) = Inr None"
  by (simp add: test_store_defs)

end
