(* ===== verification/Unit_Server.thy ===== *)
theory Unit_Server
  imports Server_Router Unit_Yaml
begin

text \<open>
  The unit tests of \<open>boitata-server/src\<close> (\<open>api.rs\<close>, \<open>events.rs\<close>), replayed on the model: a request goes
  through the router, and each lemma has the inputs and the assertions of a test.  The tests say what
  the HTTP library decodes from a request; that is a premise on its parameter here.
\<close>

section \<open>The replay buffer\<close>

definition started :: audit_event where
  "started = RunStarted ''t'' ''ollama'' ''m''"

lemma records_to_history_with_monotonic_seq:
  "map re_seq (cs_history (foldl channel_record new_channel_sink [started, started])) = [0, 1]"
  by (simp add: channel_record_def new_channel_sink_def max_history_def trim_batch_def Let_def)

lemma broadcasts_to_subscribers: "map re_seq (cs_sent (channel_record new_channel_sink started)) = [0]"
  by (simp add: channel_record_def new_channel_sink_def Let_def)

lemma record_without_subscribers_is_ok: "length (cs_history (channel_record new_channel_sink started)) = 1"
  by (simp add: channel_record_def new_channel_sink_def max_history_def trim_batch_def Let_def)

text \<open>The counter runs on while the buffer is trimmed, for every number of events.\<close>

lemma replicated_channel:
  "let k = foldl channel_record new_channel_sink (replicate n started) in
     cs_seq k = n \<and> length (cs_history k) \<le> max_history + trim_batch \<and>
     (0 < n \<longrightarrow> cs_history k \<noteq> [] \<and> re_seq (last (cs_history k)) = n - 1)"
proof (induction n)
  case (Suc n)
  have "replicate (Suc n) started = replicate n started @ [started]"
    using replicate_append_same [of n started] by simp
  with Suc show ?case
    by (auto simp: channel_record_def Let_def max_history_def trim_batch_def last_drop)
qed (simp add: new_channel_sink_def)

lemma history_is_bounded_and_keeps_newest:
  "let k = foldl channel_record new_channel_sink (replicate (max_history + trim_batch + 500) started) in
     length (cs_history k) \<le> max_history + trim_batch \<and>
     re_seq (last (cs_history k)) = max_history + trim_batch + 500 - 1"
  using replicated_channel [of "max_history + trim_batch + 500"] by (simp add: Let_def max_history_def trim_batch_def)

section \<open>The settings\<close>

definition keyless :: config where
  "keyless = open_config\<lparr>cf_model := ''llama3''\<rparr>"

definition gated :: config where
  "gated = keyless\<lparr>cf_api_token := Some ''s3cret''\<rparr>"

abbreviation no_env :: environment where "no_env \<equiv> Map.empty"

definition request :: "string \<Rightarrow> string \<Rightarrow> http_request" where
  "request meth p = \<lparr>hr_method = meth, hr_path = p, hr_query = None, hr_authorization = None, hr_json = True, hr_body = []\<rparr>"

definition test_server :: server where
  "test_server = new_server [] empty_store"

text \<open>The answer to a request of a test: the server of the tests has no token in its environment.\<close>

definition ask ::
    "http_library \<Rightarrow> surroundings \<Rightarrow> config \<Rightarrow> http_request \<Rightarrow> server \<Rightarrow> answer" where
  "ask lib sr c req s = fst (serve_request lib sr no_env c req s)"

fun refused_with :: "nat \<Rightarrow> answer \<Rightarrow> bool" where
  "refused_with n (AError e) \<longleftrightarrow> ae_status e = n"
| "refused_with n (ARejected m) \<longleftrightarrow> m = n"
| "refused_with n _ \<longleftrightarrow> False"

lemma tokens:
  "resolve_api_token no_env keyless = None" "resolve_api_token no_env gated = Some ''s3cret''"
  by (simp_all add: resolve_api_token_def env_override_def nonblank_def keyless_def gated_def open_config_def
    trim_graphic graphic_def)

lemma paths:
  "api_route ''/api/runs'' = Some [(''POST'', ECreate), (''GET'', EList)]"
  "api_route ''/api/blueprints'' = Some [(''GET'', EBlueprints)]"
  "api_route ''/api/runs/u1'' = Some [(''GET'', EGet ''u1'')]"
  "api_route ''/api/runs/u1/resume'' = Some [(''POST'', EResume ''u1'')]"
  "api_route ''/api/blueprints/verify'' = Some [(''GET'', EBlueprint ''verify'')]"
  "api_route ''/api/blueprints/tidy/source'' = Some [(''GET'', ESource ''tidy'')]"
  "api_route ''/api/blueprints/nope'' = Some [(''GET'', EBlueprint ''nope'')]"
  "api_route ''/api/blueprints/nope/source'' = Some [(''GET'', ESource ''nope'')]"
  by code_simp+

lemmas ask_defs = ask_def serve_request_def request_def require_token_cases tokens paths method_route_def
  test_server_def new_server_def empty_store_def

section \<open>The gate\<close>

lemma list_runs_starts_empty:
  "\<not> se_fault (sr_store_env sr) 0 \<Longrightarrow> ask lib sr keyless (request ''GET'' ''/api/runs'') test_server = ARuns []"
  by (simp add: ask_defs list_runs_def list_checkpoints_def store_call_def List.map_filter_simps split: sum.split prod.split)

lemma gate_closed:
  "api_route (hr_path req) = Some ms \<Longrightarrow> provided_token (hr_authorization req) (hr_query req) \<noteq> Some ''s3cret'' \<Longrightarrow>
     ask lib sr gated req s = AError unauthorized"
  by (simp add: ask_defs)

lemma api_token_gates_requests_when_configured:
  "refused_with 401 (ask lib sr gated (request ''GET'' ''/api/runs'') s)"
  "refused_with 401 (ask lib sr gated ((request ''GET'' ''/api/runs'')\<lparr>hr_authorization := Some ''Bearer nope''\<rparr>) s)"
  "\<not> se_fault (sr_store_env sr) 0 \<Longrightarrow>
     ask lib sr gated ((request ''GET'' ''/api/runs'')\<lparr>hr_authorization := Some ''Bearer s3cret''\<rparr>) test_server = ARuns []"
  by (simp_all add: ask_defs list_runs_def list_checkpoints_def store_call_def List.map_filter_simps unauthorized_def
    provided_token_def strip_prefix_def trim_graphic graphic_def Let_def)

lemma query_token: "token_from_query ''token=s3cret'' = Some ''s3cret''"
  by code_simp

lemma token_query_param_authenticates_sse:
  "\<not> se_fault (sr_store_env sr) 0 \<Longrightarrow>
     ask lib sr gated ((request ''GET'' ''/api/runs'')\<lparr>hr_query := Some ''token=s3cret''\<rparr>) test_server = ARuns []"
  by (simp add: ask_defs list_runs_def list_checkpoints_def store_call_def List.map_filter_simps
    provided_token_def query_token Let_def)

lemma oversized_body_is_rejected:
  "max_body_bytes < length body \<Longrightarrow>
     refused_with 413 (ask lib sr keyless ((request ''POST'' ''/api/runs'')\<lparr>hr_body := body\<rparr>) s)"
  by (simp add: ask_defs)

section \<open>Runs\<close>

text \<open>A request that starts a run, whose short body the library decodes.\<close>

definition start_request :: "string \<Rightarrow> http_request" where
  "start_request body = (request ''POST'' ''/api/runs'')\<lparr>hr_body := body\<rparr>"

lemma start_answer:
  assumes "hl_start_run lib body = Inr (t, b)" "length body \<le> max_body_bytes"
  shows "ask lib sr keyless (start_request body) s =
    or_error AScheduled (fst (create_run (sr_rank sr) t b (sr_new_id sr) (sr_now sr) s))"
  using assms by (simp add: ask_defs start_request_def)

lemma empty_task_is_rejected:
  assumes "hl_start_run lib body = Inr (''  '', None)" "length body \<le> max_body_bytes"
  shows "refused_with 400 (ask lib sr keyless (start_request body) s)"
proof -
  have "trim ''  '' = []" by code_simp
  with start_answer [OF assms] show ?thesis by (simp add: create_run_def bad_request_def or_error_def)
qed

lemma unknown_blueprint_is_rejected:
  assumes "hl_start_run lib body = Inr (''x'', Some ''nope'')" "length body \<le> max_body_bytes"
  shows "refused_with 400 (ask lib sr keyless (start_request body) test_server)"
proof -
  have "trim ''x'' = ''x''" by code_simp
  with start_answer [OF assms] show ?thesis
    by (simp add: create_run_def bad_request_def or_error_def opt_filter_def has_blueprint_def test_server_def new_server_def)
qed

lemma unknown_run_is_404:
  "hl_uuid lib ''u1'' = Some i \<Longrightarrow> refused_with 404 (ask lib sr keyless (request ''GET'' ''/api/runs/u1'') test_server)"
  by (simp add: ask_defs with_run_id_def get_run_detail_def get_run_def or_error_def ok_or_def not_found_def)

section \<open>Checkpoints\<close>

text \<open>A checkpoint written directly, under an identity codec for what the store encodes.\<close>

definition unit_store_env :: "nat store_env" where
  "unit_store_env = \<lparr>se_put_frontier = concat, se_parse_frontier = (\<lambda>s. Inr [s]), se_parse_time = (\<lambda>s. Inr (length s)),
     se_now = (\<lambda>n. replicate n (CHR ''t'')), se_fault = (\<lambda>n. False)\<rparr>"

definition put_checkpoint :: "string \<Rightarrow> run_state \<Rightarrow> server" where
  "put_checkpoint b st = test_server\<lparr>sv_store := snd (upsert_checkpoint unit_store_env
     \<lparr>cu_run_id = ''u1'', cu_blueprint = b, cu_task = ''resume me'', cu_step = 1, cu_frontier = [''b''], cu_state = ''{}'',
      cu_status = st\<rparr> empty_store)\<rparr>"

lemmas checkpoint_defs = put_checkpoint_def unit_store_env_def upsert_checkpoint_def store_call_def upsert_row_def
  get_checkpoint_def read_checkpoint_def row_to_record_def resume_run_def resume_check_def resume_claim_def get_run_def
  with_run_id_def or_error_def run_state_from_str_def

lemma resume_unknown_run_is_404:
  "hl_uuid lib ''u1'' = Some ''u1'' \<Longrightarrow> sr_store_env sr = unit_store_env \<Longrightarrow>
     refused_with 404 (ask lib sr keyless (request ''POST'' ''/api/runs/u1/resume'') test_server)"
  by (simp add: ask_defs checkpoint_defs not_found_msg_def)

lemma resume_completed_run_is_conflict:
  "hl_uuid lib ''u1'' = Some ''u1'' \<Longrightarrow> sr_store_env sr = unit_store_env \<Longrightarrow>
     refused_with 409 (ask lib sr keyless (request ''POST'' ''/api/runs/u1/resume'')
       (put_checkpoint ''whatever'' RsCompleted))"
  by (simp add: ask_defs checkpoint_defs conflict_def is_resumable_def Let_def)

lemma resume_unknown_blueprint_is_bad_request:
  "hl_uuid lib ''u1'' = Some ''u1'' \<Longrightarrow> sr_store_env sr = unit_store_env \<Longrightarrow>
     refused_with 400 (ask lib sr keyless (request ''POST'' ''/api/runs/u1/resume'') (put_checkpoint ''ghost'' RsSuspended))"
  by (simp add: ask_defs checkpoint_defs bad_request_def is_resumable_def has_blueprint_def Let_def)

lemma list_runs_includes_suspended_checkpoints:
  "hl_uuid lib ''u1'' = Some ''u1'' \<Longrightarrow> sr_store_env sr = unit_store_env \<Longrightarrow>
     (case ask lib sr keyless (request ''GET'' ''/api/runs'') (put_checkpoint ''fix_test'' RsSuspended) of
        ARuns rs \<Rightarrow> map (\<lambda>r. (sy_id r, sy_status r)) rs = [(''u1'', SSuspended)] | _ \<Rightarrow> False)"
  by (simp add: ask_defs checkpoint_defs list_runs_def list_checkpoints_def List.map_filter_simps Let_def)

section \<open>Blueprints\<close>

lemma blueprints_lists_none: "ask lib sr keyless (request ''GET'' ''/api/blueprints'') test_server = ANames []"
  by (simp add: ask_defs list_blueprints_def)

definition catalog_server :: "string \<Rightarrow> server" where
  "catalog_server n = new_server [(n, n @ ''.yaml'')] empty_store"

lemma configured_blueprints_are_listed: 
  "ask lib sr keyless (request ''GET'' ''/api/blueprints'') (catalog_server ''tidy'') = ANames [''tidy'']"
  by (simp add: ask_defs list_blueprints_def catalog_server_def)

lemma configured_blueprints_are_accepted:
  assumes "hl_start_run lib body = Inr (''x'', Some b)" "length body \<le> max_body_bytes"
  shows "ask lib sr keyless (start_request body) (catalog_server ''tidy'') =
    (if b = ''tidy'' then AScheduled (sr_new_id sr)
     else AError (bad_request (unknown_blueprint (catalog_server ''tidy'') b)))"
proof -
  have "trim ''x'' = ''x''" by code_simp
  with start_answer [OF assms] show ?thesis
    by (simp add: create_run_def or_error_def opt_filter_def has_blueprint_def catalog_server_def new_server_def
      max_concurrent_runs_def split: prod.split)
qed

definition verify_blueprint :: blueprint_def where
  "verify_blueprint =
     blueprint ''work'' [(''work'', DAgent ''go {task}'' None), (''check'', DScript ''cargo test'')]
       [edge ''work'' ''check'', edge_when ''check'' ''failure'' ''work'', edge_when ''check'' ''success'' ''END'']"

lemma verify_graph:
  "bg_entry (describe pretty verify_blueprint) = ''work''"
  "map (\<lambda>n. (ni_id n, ni_execution n)) (bg_nodes (describe pretty verify_blueprint)) =
     [(''work'', Probabilistic), (''check'', Deterministic)]"
  by code_simp+

lemma get_blueprint_returns_its_graph:
  assumes "hl_decode lib = Some" "ld_read (sr_disk sr) ''verify.yaml'' = Inr src"
    "ld_parse (sr_disk sr) src = Inr verify_blueprint"
  shows "ask lib sr keyless (request ''GET'' ''/api/blueprints/verify'') (catalog_server ''verify'') =
      AGraph (describe (hl_pretty lib) verify_blueprint)"
    "refused_with 404 (ask lib sr keyless (request ''GET'' ''/api/blueprints/nope'') (catalog_server ''verify''))"
  using assms by (simp_all add: ask_defs catalog_server_def with_name_def get_blueprint_def blueprint_text_def ok_or_def
    or_error_def not_found_msg_def)

lemma get_blueprint_source_returns_raw_definition:
  assumes "hl_decode lib = Some" "ld_read (sr_disk sr) ''tidy.yaml'' = Inr src"
  shows "ask lib sr keyless (request ''GET'' ''/api/blueprints/tidy/source'') (catalog_server ''tidy'') =
      ASource ''tidy'' src"
    "refused_with 404 (ask lib sr keyless (request ''GET'' ''/api/blueprints/nope/source'') (catalog_server ''tidy''))"
  using assms by (simp_all add: ask_defs catalog_server_def with_name_def get_blueprint_source_def blueprint_text_def
    ok_or_def or_error_def not_found_msg_def)

end
