(* ===== verification/Spec2Isabelle.thy ===== *)
theory Spec2Isabelle
  imports Templating Agent_Loop Audit_Sinks Store Executor_Order Anthropic_Stream Provider_Wire Runtime
    Server_Safety Server_Stream Server_Jobs Docker Human Acp Cli Remote_Local Server_Router Server_Ends Spill
    Server_Tasks Unit_Text Unit_Yaml Unit_Executor Unit_Core Unit_Agent Unit_Server
begin

text \<open>
  Boitata is a coding agent with an orchestrator of blueprints, a server and a command line,
  written in Rust.  This library models the program as it is written and proves what its parts
  promise.  File names are relative to \<open>src/crates\<close>.

  How the parts work together.  An agent (\<open>boitata-agent\<close>) alternates requests to a model provider
  with the tools the model calls, under a policy, and compacts its history when it grows.  A
  blueprint (\<open>boitata-orchestrator\<close>) is a graph whose nodes are agents, tools, scripts, questions to
  a human and steps in containers; the executor runs it in super-steps over a typed state,
  retries, snapshots the run in a SQLite store (\<open>boitata-store\<close>) and takes down its sandboxes.  The
  server (\<open>boitata-server\<close>) runs agents and blueprints in the background, keeps a bounded registry
  of runs and streams their events; the command line (\<open>boitata-cli\<close>) runs them in its own process
  or on such a server; an agent in a container is driven over the Agent Client Protocol
  (\<open>boitata-acp\<close>).  All of them are assembled from one configuration (\<open>boitata-core\<close>).

  Conventions.  A Rust string is the list of its UTF-8 bytes.  A \<open>Result\<close> is a sum with the
  error left, an \<open>Option\<close> an option, a hash map a partial map, an ordered map an association list.
  Each struct is a \<open>record\<close> whose fields carry a prefix of their own, each enum a \<open>datatype\<close>, each
  function a definition of the same name unless the name is taken.  State is passed explicitly;
  what lies outside the repository (disk faults, clocks, the operating system, SQL, HTTP, JSON
  text, YAML, the daemon, the model) is an argument or a record of functions, over a world of
  any type \<open>'w\<close> where it is state.

  The theories, by component.

  \<^item> \<open>Prelude\<close>, \<open>Utf8\<close>: the pieces of the standard library that the source uses, with the lemmas
    the components share (\<open>codec_simps\<close>, \<open>frame_simps\<close>, \<open>bound_intros\<close>); lossy decoding.
  \<^item> \<open>Blueprint_State\<close>, \<open>Templating\<close> (\<open>boitata-orchestrator/src/state.rs\<close>): the channels of a run,
    the two renderers of templates, the shell reading of what they produce.  The locale
    \<open>shell_escape\<close> is the contract of an escaping function, for which every rendered value is one
    literal word; both escapes of the source are instances.
  \<^item> \<open>Messages\<close>, \<open>Conversation\<close> (\<open>boitata-core/src/provider/mod.rs\<close>, \<open>context\<close>): messages, token
    estimates, the single-precision compaction threshold, the cut and the summary.
  \<^item> \<open>Tools\<close>, \<open>Workspace\<close>, \<open>File_Ops\<close>, \<open>Capture\<close>, \<open>Spill\<close>, \<open>Commands\<close>, \<open>Builtins\<close>
    (\<open>boitata-core/src/tools\<close>): the registry (locale \<open>keyed_registry\<close>) and the policy, confinement of
    paths over a file system with symbolic links, the file tools with every fault, the capped
    capture of a subprocess and its spill files, the argument vectors of the structured tools.
  \<^item> \<open>Audit_Sinks\<close>, \<open>Event_Wire\<close> (\<open>boitata-core/src/audit.rs\<close>, \<open>boitata-server/src/events.rs\<close>): events,
    the file log and the bounded replay buffer (both instances of the locale \<open>audit_sink\<close>), events
    as JSON and back.
  \<^item> \<open>Exchange\<close>, \<open>Anthropic\<close>, \<open>Anthropic_Stream\<close>, \<open>Chat_Providers\<close>, \<open>Provider_Wire\<close>
    (\<open>boitata-core/src/provider\<close>): the three providers' requests, answers and errors, the streamed
    response, and what survives the translation.
  \<^item> \<open>Agent_Loop\<close> (\<open>boitata-agent/src/lib.rs\<close>): one iteration after the other, with the cancellation
    points; a run is its messages, its events, its tool calls and its result.
  \<^item> \<open>Config\<close>, \<open>Mcp\<close>, \<open>Runtime\<close> (\<open>config.rs\<close>, \<open>mcp.rs\<close> and \<open>runtime.rs\<close> of \<open>boitata-core/src\<close>): settings and their overrides,
    redacted printing, MCP servers and their tools, assembly.
  \<^item> \<open>Store\<close>, \<open>Checkpoint\<close> (\<open>boitata-store\<close>, \<open>boitata-orchestrator/src/checkpoint.rs\<close>): the
    checkpoint table and its migrations; the locale \<open>checkpointer\<close> is the contract the executor
    uses, of which the SQLite store is the instance.
  \<^item> \<open>Nodes\<close>, \<open>Graph\<close>, \<open>Yaml\<close>, \<open>Library\<close>, \<open>Executor\<close> (\<open>nodes.rs\<close>, \<open>container.rs\<close>, \<open>lib.rs\<close>,
    \<open>yaml.rs\<close> and \<open>library.rs\<close> of \<open>boitata-orchestrator/src\<close>): every node, routing, the builder, the YAML compiler, the
    catalog, the super-step and the loops.  \<open>Executor_Resume\<close>, \<open>Executor_Safety\<close> and
    \<open>Executor_Order\<close> are about the executor: observers change nothing, a resumed run ends as the
    uninterrupted one, merging, the trail, bounds, teardown, order of completion.
  \<^item> \<open>Docker\<close> (\<open>sandbox/docker.rs\<close> and \<open>sandbox/mod.rs\<close> of the same crate): the backend over a daemon
    that may fail anywhere, and the manager; the locale \<open>sandbox_contract\<close> is what the manager
    relies on.  \<open>Human\<close> (\<open>human.rs\<close>): the terminal operator.
  \<^item> \<open>Acp\<close> (\<open>boitata-acp\<close>, \<open>boitata-agent/src/main.rs\<close>): an agent behind the protocol, and its client.
  \<^item> \<open>Server_State\<close>, \<open>Server_Api\<close>, \<open>Server_Gate\<close>, \<open>Server_Jobs\<close>, \<open>Server_Stream\<close>, \<open>Server_Router\<close>
    (\<open>boitata-server/src\<close>): the registry with its eviction, the handlers, the token gate and the
    startup check, the background jobs, the event stream, and the route of a request.  \<open>Server_Safety\<close>
    has the step relation of the running server and its invariant, \<open>Server_Ends\<close> what becomes of
    runs that end, \<open>Server_Tasks\<close> the background tasks as a whole and a run that one process of the
    server starts and another one resumes.
  \<^item> \<open>Remote\<close>, \<open>Cli\<close>, \<open>Remote_Server\<close>, \<open>Remote_Local\<close> (\<open>boitata-cli/src\<close>): the remote client, every
    subcommand, the client against the server's answers, and a remote run against a local one.
  \<^item> \<open>Unit_Text\<close>, \<open>Unit_Yaml\<close>, \<open>Unit_Executor\<close>, \<open>Unit_Core\<close>, \<open>Unit_Agent\<close>, \<open>Unit_Server\<close>: unit tests of the
    repository, replayed on the model.  Each lemma has the name, the inputs and the assertions of a
    test and is proved by evaluating the model, so the definitions agree with the program where its
    authors say what they expect; what a test takes from a library is a premise.

  Concurrency.  A super-step of the executor runs its frontier concurrently; the record \<open>schedule\<close>
  fixes for each super-step, attempt and node the world the node observes, its place in the
  completion order and whether it panics, and for each attempt whether the run is cancelled.  The
  theorems hold for every schedule.  The server is the relation \<open>server_step\<close>: a handler's critical
  section or one move of a background task, interleaved in any order; a resumption is two steps.
  The event stream has a relation of its own, in which recording and sending an event are two steps.

  Bounds and loops.  No definition needs fuel: the agent loop recurses on the iterations left, the
  executor on the super-steps and the attempts left, the resolution of paths on the links left
  (\<open>max_symlinks\<close> is Linux's 40, after which the system itself fails), the streams on their input.
  The limits of the source are kept: 1 MiB for output of a container and for a request's body,
  sixteen concurrent runs, a thousand registered runs, a history of 10000 events trimmed when it
  exceeds it by 2000, 64 connections of an agent.  Where an unsigned number of 64 bits cannot reach
  its end within these limits it is a natural number; bytes of secrets, the threshold and the
  counters that wrap are kept at their width.

  What the lemmas show, beside the properties: which fields an operation leaves alone, the
  cases of each operation, the laws that the locales ask for, and concrete runs that exhibit
  behaviour a reader would not expect (a dangling link that leaves the workspace, output with
  a gap, an event stream that misses the end of a run, a remote client that stops at a nested
  completion).

  Not modelled.  The web frontend is TypeScript and the build script only bundles it.  The
  libraries for HTTP, JSON and YAML text, SQL, the protocol's transport, regular expressions,
  tokenization and processes are parameters.  Logging, argument parsing, timing of waits and the
  memory a value takes are left out, as are the tests that need a network, a clock or a process of
  their own.  Handlers of signals appear only as the cancellation they cause.  What is left of the
  Rust code beyond that has no behaviour to state: imports and re-exports, headers of \<open>impl\<close>
  blocks, accessors of a name, constructors that store their arguments, and the text of tests.
\<close>

end
